(* ===== verification/Prelude.thy ===== *)
theory Prelude
  imports Main "HOL-Library.Sublist"
begin

text \<open>
  Shared vocabulary of the development: the collections the component theories add their
  facts to, and generic lemmas on lists that several of them use.
\<close>

named_theorems py_simps "evaluation rules of the Python string and list operations"
named_theorems rx_simps "facts about the outcomes of regular expressions"
named_theorems act_simps "facts that push a predicate on actions through a check"
named_theorems nest_simps "facts about the stack of blocks"

subsection \<open>Guarded lists\<close>

text \<open>
  \<open>if cond: error(...)\<close>: the actions \<open>xs\<close> when the guard holds, none otherwise.
\<close>

definition emit_if :: "bool \<Rightarrow> 'a list \<Rightarrow> 'a list" where
  "emit_if b xs = (if b then xs else [])"

lemma emit_if_True [simp]: "emit_if True xs = xs"
  by (simp add: emit_if_def)

lemma emit_if_False [simp]: "emit_if False xs = []"
  by (simp add: emit_if_def)

lemma emit_if_Nil [simp]: "emit_if b [] = []"
  by (simp add: emit_if_def)

lemma list_all_emit_if [act_simps, simp]: "list_all P (emit_if b xs) \<longleftrightarrow> (b \<longrightarrow> list_all P xs)"
  by (simp add: emit_if_def)

lemma set_emit_if [simp]: "set (emit_if b xs) = (if b then set xs else {})"
  by (simp add: emit_if_def)

lemma emit_if_eq_Nil [simp]: "emit_if b xs = [] \<longleftrightarrow> (b \<longrightarrow> xs = [])"
  by (simp add: emit_if_def)

subsection \<open>Lists\<close>

lemma list_all_concat [act_simps]: "list_all P (concat xss) \<longleftrightarrow> list_all (list_all P) xss"
  by (induction xss) auto

lemma list_all_mapI [act_simps]: "list_all P (map f xs) \<longleftrightarrow> list_all (\<lambda>x. P (f x)) xs"
  by (simp add: list.pred_map comp_def)

lemma list_all_concat_map: "list_all P (concat (map f xs)) \<longleftrightarrow> (\<forall>x\<in>set xs. list_all P (f x))"
  by (induction xs) auto

lemma last_take_nth: "i < length xs \<Longrightarrow> last (take (Suc i) xs) = xs ! i"
  by (simp add: take_Suc_conv_app_nth)

lemma drop_Cons_nth: "drop i xs = y # ys \<Longrightarrow> i < length xs \<and> xs ! i = y \<and> drop (Suc i) xs = ys"
  by (metis Cons_nth_drop_Suc drop_all linorder_not_le list.distinct(1) list.inject)

lemma length_takeWhile_less_iff:
  "length (takeWhile P xs) < length xs \<longleftrightarrow> (\<exists>x\<in>set xs. \<not> P x)"
  by (induction xs) auto

lemma concat_map_singleton_if:
  "concat (map (\<lambda>x. if P x then [f x] else []) xs) = map f (filter P xs)"
  by (induction xs) auto

end
