(* ===== verification/PyStr.thy ===== *)
theory PyStr
  imports Prelude
begin

text \<open>
  The string and list operations of Python that cpplint.py uses, on \<open>string = char list\<close>.
  A \<open>char\<close> is one of the code points 0 to 255: the text the linter reads is a Python
  \<open>unicode\<close> object, so the predicates \<open>uspace\<close>, \<open>udigit\<close>, \<open>ualnum\<close> and
  \<open>ulower\<close> follow the Unicode tables on that range, while file names and flags are
  byte strings, whose operations follow ASCII.

  Isabelle's string literals have no backslash. Throughout the development a literal under
  \<open>bs\<close> is written with a backquote where the source has a backslash; no literal of the
  source contains a backquote.
\<close>

definition bslash :: char where "bslash = CHR 0x5C"

definition squote :: string where "squote = [CHR 0x27]"

definition bs :: "string \<Rightarrow> string" where
  "bs s = map (\<lambda>c. if c = CHR 0x60 then CHR 0x5C else c) s"

subsection \<open>Character classes\<close>

definition code :: "char \<Rightarrow> int" where "code c = of_char c"

definition in_range :: "int \<Rightarrow> int \<Rightarrow> char \<Rightarrow> bool" where
  "in_range a b c \<longleftrightarrow> a \<le> code c \<and> code c \<le> b"

text \<open>\<open>string.whitespace\<close> and the whitespace of a byte string.\<close>

definition aspace :: "char \<Rightarrow> bool" where
  "aspace c \<longleftrightarrow> code c = 32 \<or> in_range 9 13 c"

text \<open>\<open>unicode.isspace\<close> on one character.\<close>

definition uspace :: "char \<Rightarrow> bool" where
  "uspace c \<longleftrightarrow> aspace c \<or> in_range 28 31 c \<or> code c = 133 \<or> code c = 160"

definition adigit :: "char \<Rightarrow> bool" where "adigit c = in_range 48 57 c"

definition aalpha :: "char \<Rightarrow> bool" where
  "aalpha c \<longleftrightarrow> in_range 65 90 c \<or> in_range 97 122 c"

text \<open>\<open>unicode.isdigit\<close>: the decimal digits and the superscripts 1, 2, 3.\<close>

definition udigit :: "char \<Rightarrow> bool" where
  "udigit c \<longleftrightarrow> adigit c \<or> code c = 178 \<or> code c = 179 \<or> code c = 185"

definition ualpha :: "char \<Rightarrow> bool" where
  "ualpha c \<longleftrightarrow> aalpha c \<or> code c = 170 \<or> code c = 181 \<or> code c = 186 \<or>
     in_range 192 214 c \<or> in_range 216 246 c \<or> in_range 248 255 c"

text \<open>\<open>unicode.isalnum\<close>: letters, digits and the vulgar fractions.\<close>

definition ualnum :: "char \<Rightarrow> bool" where
  "ualnum c \<longleftrightarrow> ualpha c \<or> udigit c \<or> in_range 188 190 c"

definition shift_char :: "int \<Rightarrow> char \<Rightarrow> char" where
  "shift_char k c = char_of (code c + k)"

text \<open>\<open>unicode.lower\<close> and \<open>str.upper\<close> (ASCII, the C locale) on one character.\<close>

definition ulower_char :: "char \<Rightarrow> char" where
  "ulower_char c = (if in_range 65 90 c \<or> in_range 192 214 c \<or> in_range 216 222 c
                    then shift_char 32 c else c)"

definition aupper_char :: "char \<Rightarrow> char" where
  "aupper_char c = (if in_range 97 122 c then char_of (code c - 32) else c)"

definition ulower :: "string \<Rightarrow> string" where "ulower s = map ulower_char s"
definition aupper :: "string \<Rightarrow> string" where "aupper s = map aupper_char s"

text \<open>\<open>unicode.isspace\<close> and \<open>unicode.isdigit\<close> on a string: false on the empty one.\<close>

definition isspace :: "string \<Rightarrow> bool" where "isspace s \<longleftrightarrow> s \<noteq> [] \<and> list_all uspace s"
definition isdigit :: "string \<Rightarrow> bool" where "isdigit s \<longleftrightarrow> s \<noteq> [] \<and> list_all udigit s"

subsection \<open>Prefixes, suffixes, searching\<close>

fun startswith :: "'a list \<Rightarrow> 'a list \<Rightarrow> bool" where
  "startswith s [] \<longleftrightarrow> True"
| "startswith [] (p # ps) \<longleftrightarrow> False"
| "startswith (c # s) (p # ps) \<longleftrightarrow> c = p \<and> startswith s ps"

definition endswith :: "'a list \<Rightarrow> 'a list \<Rightarrow> bool" where
  "endswith s t = startswith (rev s) (rev t)"

fun find_opt :: "'a list \<Rightarrow> 'a list \<Rightarrow> nat option" where
  "find_opt [] sub = (if sub = [] then Some 0 else None)"
| "find_opt (c # s) sub =
     (if startswith (c # s) sub then Some 0 else map_option Suc (find_opt s sub))"

text \<open>\<open>s.find(sub)\<close>: the least position, or -1.\<close>

definition find :: "'a list \<Rightarrow> 'a list \<Rightarrow> int" where
  "find s sub = (case find_opt s sub of None \<Rightarrow> -1 | Some i \<Rightarrow> int i)"

text \<open>\<open>s.find(sub, start)\<close>: a negative start counts from the end.\<close>

definition find_from :: "'a list \<Rightarrow> 'a list \<Rightarrow> int \<Rightarrow> int" where
  "find_from s sub start =
     (let a = nat (if start < 0 then max 0 (int (length s) + start) else start)
      in if length s < a then -1
         else case find_opt (drop a s) sub of None \<Rightarrow> -1 | Some i \<Rightarrow> int (a + i))"

text \<open>\<open>s.rfind(c)\<close> of one character.\<close>

definition rfind_char :: "'a list \<Rightarrow> 'a \<Rightarrow> int" where
  "rfind_char s c =
     (let k = length (takeWhile (\<lambda>d. d \<noteq> c) (rev s))
      in if k = length s then -1 else int (length s) - 1 - int k)"

text \<open>\<open>sub in s\<close>\<close>

definition contains :: "'a list \<Rightarrow> 'a list \<Rightarrow> bool" where
  "contains s sub \<longleftrightarrow> find_opt s sub \<noteq> None"

text \<open>\<open>s.count(sub)\<close>: occurrences that do not overlap, from the left.\<close>

function count_sub :: "'a list \<Rightarrow> 'a list \<Rightarrow> nat" where
  "count_sub s sub =
     (if sub = [] then Suc (length s)
      else case s of [] \<Rightarrow> 0
        | c # t \<Rightarrow> if startswith s sub then Suc (count_sub (drop (length sub) s) sub)
                   else count_sub t sub)"
  by pat_completeness auto
termination
  by (relation "measure (\<lambda>(s, sub). length s)") auto

declare count_sub.simps [simp del]

text \<open>\<open>s.replace(old, new)\<close> for a non-empty \<open>old\<close>, which is all the source uses.\<close>

function replace :: "'a list \<Rightarrow> 'a list \<Rightarrow> 'a list \<Rightarrow> 'a list" where
  "replace s old new =
     (if old = [] then s
      else case s of [] \<Rightarrow> []
        | c # t \<Rightarrow> if startswith s old then new @ replace (drop (length old) s) old new
                   else c # replace t old new)"
  by pat_completeness auto
termination
  by (relation "measure (\<lambda>(s, old, new). length s)") auto

declare replace.simps [simp del]

subsection \<open>Stripping and splitting\<close>

definition lstrip_by :: "('a \<Rightarrow> bool) \<Rightarrow> 'a list \<Rightarrow> 'a list" where
  "lstrip_by p s = dropWhile p s"

definition rstrip_by :: "('a \<Rightarrow> bool) \<Rightarrow> 'a list \<Rightarrow> 'a list" where
  "rstrip_by p s = rev (dropWhile p (rev s))"

definition strip_by :: "('a \<Rightarrow> bool) \<Rightarrow> 'a list \<Rightarrow> 'a list" where
  "strip_by p s = rstrip_by p (lstrip_by p s)"

abbreviation lstrip :: "string \<Rightarrow> string" where "lstrip \<equiv> lstrip_by uspace"
abbreviation rstrip :: "string \<Rightarrow> string" where "rstrip \<equiv> rstrip_by uspace"
abbreviation strip :: "string \<Rightarrow> string" where "strip \<equiv> strip_by uspace"

text \<open>\<open>s.split()\<close>: the maximal runs of characters that are not whitespace.\<close>

fun split_ws_go :: "string \<Rightarrow> string \<Rightarrow> string list" where
  "split_ws_go acc [] = (if acc = [] then [] else [rev acc])"
| "split_ws_go acc (c # s) =
     (if uspace c then (if acc = [] then split_ws_go [] s else rev acc # split_ws_go [] s)
      else split_ws_go (c # acc) s)"

definition split_ws :: "string \<Rightarrow> string list" where "split_ws s = split_ws_go [] s"

text \<open>\<open>s.split(c)\<close> at every occurrence of one character: never the empty list.\<close>

fun split_char_go :: "'a \<Rightarrow> 'a list \<Rightarrow> 'a list \<Rightarrow> 'a list list" where
  "split_char_go sep acc [] = [rev acc]"
| "split_char_go sep acc (c # s) =
     (if c = sep then rev acc # split_char_go sep [] s else split_char_go sep (c # acc) s)"

definition split_char :: "'a \<Rightarrow> 'a list \<Rightarrow> 'a list list" where
  "split_char sep s = split_char_go sep [] s"

fun join :: "'a list \<Rightarrow> 'a list list \<Rightarrow> 'a list" where
  "join sep [] = []"
| "join sep [x] = x"
| "join sep (x # y # ys) = x @ sep @ join sep (y # ys)"

text \<open>\<open>s.split(sep)\<close> for a separator string.\<close>

function split_str :: "'a list \<Rightarrow> 'a list \<Rightarrow> 'a list \<Rightarrow> 'a list list" where
  "split_str sep acc s =
     (case s of [] \<Rightarrow> [rev acc]
      | c # t \<Rightarrow> if sep \<noteq> [] \<and> startswith s sep
                then rev acc # split_str sep [] (drop (length sep) s)
                else split_str sep (c # acc) t)"
  by pat_completeness auto
termination
  by (relation "measure (\<lambda>(sep, acc, s). length s)") auto

declare split_str.simps [simp del]

subsection \<open>Indexing\<close>

text \<open>Python's \<open>xs[i]\<close>: a negative index counts from the end, \<open>None\<close> is IndexError.\<close>

definition py_get :: "'a list \<Rightarrow> int \<Rightarrow> 'a option" where
  "py_get xs i =
     (let n = int (length xs); j = (if i < 0 then n + i else i)
      in if 0 \<le> j \<and> j < n then Some (xs ! nat j) else None)"

subsection \<open>Numbers and order\<close>

fun dec_nat :: "nat \<Rightarrow> string" where
  "dec_nat n = (if n < 10 then [char_of (48 + n)] else dec_nat (n div 10) @ [char_of (48 + n mod 10)])"

declare dec_nat.simps [simp del]

text \<open>\<open>'%d' % i\<close>\<close>

definition dec :: "int \<Rightarrow> string" where
  "dec i = (if i < 0 then ''-'' @ dec_nat (nat (- i)) else dec_nat (nat i))"

text \<open>\<open>s < t\<close> on strings: lexicographic on code points.\<close>

fun str_less :: "string \<Rightarrow> string \<Rightarrow> bool" where
  "str_less [] [] \<longleftrightarrow> False"
| "str_less [] (d # t) \<longleftrightarrow> True"
| "str_less (c # s) [] \<longleftrightarrow> False"
| "str_less (c # s) (d # t) \<longleftrightarrow> code c < code d \<or> (code c = code d \<and> str_less s t)"

subsection \<open>Facts\<close>

lemma startswith_iff_prefix [py_simps]: "startswith s p \<longleftrightarrow> prefix p s"
  by (induction s p rule: startswith.induct) auto

lemma startswith_append [simp]: "startswith (p @ s) p"
  by (simp add: startswith_iff_prefix)

lemma startswith_decomp: "startswith s p \<longleftrightarrow> s = p @ drop (length p) s"
  unfolding startswith_iff_prefix prefix_def by auto

lemma endswith_iff_suffix [py_simps]: "endswith s t \<longleftrightarrow> suffix t s"
  by (simp add: endswith_def startswith_iff_prefix suffix_to_prefix)

lemma endswith_decomp: "endswith s t \<longleftrightarrow> s = take (length s - length t) s @ t"
  unfolding endswith_iff_suffix suffix_def by auto

lemma find_opt_Nil [simp]: "find_opt s [] = Some 0"
  by (cases s) auto

lemma find_opt_Some:
  "find_opt s sub = Some i \<Longrightarrow> i \<le> length s \<and> startswith (drop i s) sub"
  by (induction s arbitrary: i) (auto split: if_splits)

lemma find_opt_least:
  "find_opt s sub = Some i \<Longrightarrow> j < i \<Longrightarrow> \<not> startswith (drop j s) sub"
proof (induction s arbitrary: i j)
  case (Cons c s)
  then show ?case by (cases j) (auto split: if_splits)
qed (auto split: if_splits)

lemma find_opt_None_iff: "find_opt s sub = None \<longleftrightarrow> \<not> sublist sub s"
proof (induction s)
  case (Cons c s)
  then show ?case
    by (auto simp: startswith_iff_prefix sublist_Cons_right)
qed auto

lemma contains_iff_sublist [py_simps]: "contains s sub \<longleftrightarrow> sublist sub s"
  by (simp add: contains_def find_opt_None_iff)

lemma find_bounds: "-1 \<le> find s sub \<and> find s sub \<le> int (length s)"
  by (auto simp: find_def dest: find_opt_Some split: option.splits)

lemma find_neg_iff: "find s sub = -1 \<longleftrightarrow> \<not> sublist sub s"
  by (auto simp: find_def find_opt_None_iff [symmetric] split: option.splits)

lemma find_pos_iff: "0 \<le> find s sub \<longleftrightarrow> sublist sub s"
  using find_neg_iff [of s sub] find_bounds [of s sub] by linarith

lemma count_sub_Nil [simp]: "sub \<noteq> [] \<Longrightarrow> count_sub [] sub = 0"
  by (subst count_sub.simps) simp

lemma count_sub_Cons:
  "sub \<noteq> [] \<Longrightarrow> count_sub (c # t) sub =
     (if startswith (c # t) sub then Suc (count_sub (drop (length sub) (c # t)) sub)
      else count_sub t sub)"
  by (subst count_sub.simps) simp

lemma count_sub_single: "count_sub s [c] = count_list s c"
  by (induction s) (auto simp: count_sub_Cons)

lemma replace_Nil [simp]: "replace [] old new = []"
  by (subst replace.simps) simp

lemma replace_Cons:
  "old \<noteq> [] \<Longrightarrow> replace (c # t) old new =
     (if startswith (c # t) old then new @ replace (drop (length old) (c # t)) old new
      else c # replace t old new)"
  by (subst replace.simps) simp

lemma replace_absent: "\<not> sublist old s \<Longrightarrow> replace s old new = s"
proof (induction s)
  case (Cons c s)
  from Cons.prems have "old \<noteq> []" "\<not> startswith (c # s) old" "\<not> sublist old s"
    by (auto simp: startswith_iff_prefix sublist_Cons_right)
  with Cons.IH show ?case by (simp add: replace_Cons del: startswith.simps)
qed simp

lemma strip_by_Nil [simp]: "strip_by p [] = []"
  by (simp add: strip_by_def rstrip_by_def lstrip_by_def)

lemma rstrip_by_prefix: "prefix (rstrip_by p s) s"
proof -
  have "s = rev (dropWhile p (rev s)) @ rev (takeWhile p (rev s))"
    by (metis rev_append rev_rev_ident takeWhile_dropWhile_id)
  then show ?thesis unfolding rstrip_by_def prefix_def by blast
qed

lemma split_char_go_nonempty [simp]: "split_char_go sep acc s \<noteq> []"
  by (induction s arbitrary: acc) auto

lemma split_char_nonempty [simp]: "split_char sep s \<noteq> []"
  by (simp add: split_char_def)

lemma join_Cons: "ys \<noteq> [] \<Longrightarrow> join sep (y # ys) = y @ sep @ join sep ys"
  by (cases ys) auto

lemma join_split_char_go: "join [sep] (split_char_go sep acc s) = rev acc @ s"
  by (induction s arbitrary: acc) (auto simp: join_Cons)

lemma join_split_char [simp]: "join [sep] (split_char sep s) = s"
  by (simp add: split_char_def join_split_char_go)

lemma split_char_go_no_sep: "p \<in> set (split_char_go sep acc s) \<Longrightarrow> sep \<notin> set acc \<Longrightarrow> sep \<notin> set p"
proof (induction s arbitrary: acc)
  case (Cons c s)
  show ?case
    using Cons.prems Cons.IH [of "[]"] Cons.IH [of "c # acc"] by (auto split: if_splits)
qed simp

lemma split_char_no_sep: "p \<in> set (split_char sep s) \<Longrightarrow> sep \<notin> set p"
  unfolding split_char_def by (erule split_char_go_no_sep) simp

lemma split_ws_go_words: "w \<in> set (split_ws_go acc s) \<Longrightarrow> list_all (\<lambda>c. \<not> uspace c) acc \<Longrightarrow>
    w \<noteq> [] \<and> list_all (\<lambda>c. \<not> uspace c) w"
proof (induction s arbitrary: acc)
  case Nil
  then show ?case by (simp add: list_all_iff split: if_splits)
next
  case (Cons c s)
  show ?case
    using Cons.prems Cons.IH [of "[]"] Cons.IH [of "c # acc"]
    by (auto simp: list_all_iff split: if_splits)
qed

lemma split_ws_words: "w \<in> set (split_ws s) \<Longrightarrow> w \<noteq> [] \<and> list_all (\<lambda>c. \<not> uspace c) w"
  unfolding split_ws_def by (erule split_ws_go_words) simp

lemma split_ws_go_Nil_iff: "split_ws_go acc s = [] \<longleftrightarrow> acc = [] \<and> list_all uspace s"
  by (induction s arbitrary: acc) auto

lemma split_ws_Nil_iff: "split_ws s = [] \<longleftrightarrow> list_all uspace s"
  by (simp add: split_ws_def split_ws_go_Nil_iff)

lemma py_get_nat: "i < length xs \<Longrightarrow> py_get xs (int i) = Some (xs ! i)"
  by (simp add: py_get_def)

lemma str_less_irrefl [simp]: "\<not> str_less s s"
  by (induction s) auto

lemma str_less_trans: "str_less s t \<Longrightarrow> str_less t u \<Longrightarrow> str_less s u"
proof (induction s t arbitrary: u rule: str_less.induct)
  case (2 d t)
  then show ?case by (cases u) auto
next
  case (4 c s d t)
  then show ?case by (cases u) auto
qed auto

lemma code_inj [simp]: "code c = code d \<longleftrightarrow> c = d"
  by (simp add: code_def)

lemma str_less_linear: "str_less s t \<or> s = t \<or> str_less t s"
proof (induction s t rule: str_less.induct)
  case (4 c s d t)
  then show ?case using less_linear [of "code c" "code d"] by auto
qed auto

end
