(* ===== verification/Regex.thy ===== *)
theory Regex
  imports PyStr
begin

text \<open>
  The regular expressions of Python's \<open>re\<close> module, as cpplint.py uses them: a syntax
  tree, the backtracking matcher as the list of its successes in the order it tries them
  (so the first one is the match Python reports), and a relational semantics that says
  which successes there are without saying how they are found. The two are proved equal.

  A matcher state is the text consumed (reversed), the text left and the captured groups
  (the latest first, as start and end offsets). As in Python 2 without the UNICODE flag,
  the classes \<open>\w\<close>, \<open>\d\<close>, \<open>\s\<close> and the boundary \<open>\b\<close> are those of ASCII; the dot
  does not match a newline and \<open>$\<close> matches at the end or before a final newline.
\<close>

datatype cset = CChar char | CRange char char | CWord bool | CDigit bool | CSpace bool

definition word_char :: "char \<Rightarrow> bool" where
  "word_char c \<longleftrightarrow> aalpha c \<or> adigit c \<or> code c = 95"

primrec in_cset :: "cset \<Rightarrow> char \<Rightarrow> bool" where
  "in_cset (CChar d) c \<longleftrightarrow> c = d"
| "in_cset (CRange a b) c \<longleftrightarrow> code a \<le> code c \<and> code c \<le> code b"
| "in_cset (CWord p) c \<longleftrightarrow> word_char c = p"
| "in_cset (CDigit p) c \<longleftrightarrow> adigit c = p"
| "in_cset (CSpace p) c \<longleftrightarrow> aspace c = p"

definition in_set :: "bool \<Rightarrow> cset list \<Rightarrow> char \<Rightarrow> bool" where
  "in_set neg cs c \<longleftrightarrow> list_ex (\<lambda>s. in_cset s c) cs \<noteq> neg"

datatype rx =
    REmpty
  | RSet bool "cset list"      \<comment> \<open>one character, of the set or (when negated) not of it\<close>
  | RAny
  | RBol
  | REol
  | RWordB
  | RSeq rx rx
  | RAlt rx rx
  | RStar bool rx              \<comment> \<open>greedy or lazy\<close>
  | RGrp nat rx
  | RLook bool rx              \<comment> \<open>lookahead, positive or negative\<close>
  | RBack nat

abbreviation RChar :: "char \<Rightarrow> rx" where "RChar c \<equiv> RSet False [CChar c]"

type_synonym caps = "(nat \<times> nat \<times> nat) list"
type_synonym mstate = "string \<times> string \<times> caps"

abbreviation text_past :: "mstate \<Rightarrow> string" where "text_past st \<equiv> fst st"
abbreviation text_left :: "mstate \<Rightarrow> string" where "text_left st \<equiv> fst (snd st)"
abbreviation caps_of :: "mstate \<Rightarrow> caps" where "caps_of st \<equiv> snd (snd st)"

definition subject :: "mstate \<Rightarrow> string" where "subject st = rev (text_past st) @ text_left st"

subsection \<open>The backtracking matcher\<close>

definition at_word_boundary :: "string \<Rightarrow> string \<Rightarrow> bool" where
  "at_word_boundary p r \<longleftrightarrow>
     (case p of [] \<Rightarrow> False | c # _ \<Rightarrow> word_char c) \<noteq> (case r of [] \<Rightarrow> False | c # _ \<Rightarrow> word_char c)"

fun cap_lookup :: "nat \<Rightarrow> caps \<Rightarrow> (nat \<times> nat) option" where
  "cap_lookup k [] = None"
| "cap_lookup k ((j, a, b) # cs) = (if j = k then Some (a, b) else cap_lookup k cs)"

definition slice :: "nat \<Rightarrow> nat \<Rightarrow> 'a list \<Rightarrow> 'a list" where
  "slice i j s = take (j - i) (drop i s)"

fun eat :: "string \<Rightarrow> mstate \<Rightarrow> mstate list" where
  "eat [] st = [st]"
| "eat (x # xs) (p, [], cs) = []"
| "eat (x # xs) (p, c # r, cs) = (if x = c then eat xs (c # p, r, cs) else [])"

definition eat_if :: "(char \<Rightarrow> bool) \<Rightarrow> mstate \<Rightarrow> mstate list" where
  "eat_if f st = (case text_left st of [] \<Rightarrow> []
     | c # r \<Rightarrow> if f c then [(c # text_past st, r, caps_of st)] else [])"

text \<open>
  Repetition. Every round but the last must consume something: the matcher of Python
  refuses a further round at the position where the last one started. The fuel is the
  length of the text left, which \<open>star_list_iff\<close> shows is enough.
\<close>

fun star_list :: "bool \<Rightarrow> (mstate \<Rightarrow> mstate list) \<Rightarrow> nat \<Rightarrow> mstate \<Rightarrow> mstate list" where
  "star_list g f 0 st = [st]"
| "star_list g f (Suc n) st =
     (let more = concat (map (star_list g f n)
                   (filter (\<lambda>t. length (text_left t) < length (text_left st)) (f st)))
      in if g then more @ [st] else st # more)"

primrec outs :: "rx \<Rightarrow> mstate \<Rightarrow> mstate list" where
  "outs REmpty st = [st]"
| "outs (RSet neg cs) st = eat_if (in_set neg cs) st"
| "outs RAny st = eat_if (\<lambda>c. code c \<noteq> 10) st"
| "outs RBol st = emit_if (text_past st = []) [st]"
| "outs REol st = emit_if (text_left st = [] \<or> text_left st = [CHR 0x0A]) [st]"
| "outs RWordB st = emit_if (at_word_boundary (text_past st) (text_left st)) [st]"
| "outs (RSeq a b) st = concat (map (outs b) (outs a st))"
| "outs (RAlt a b) st = outs a st @ outs b st"
| "outs (RStar g a) st = star_list g (outs a) (length (text_left st)) st"
| "outs (RGrp k a) st =
     map (\<lambda>t. (text_past t, text_left t, (k, length (text_past st), length (text_past t)) # caps_of t)) (outs a st)"
| "outs (RLook pos a) st = emit_if ((outs a st \<noteq> []) = pos) [st]"
| "outs (RBack k) st = (case cap_lookup k (caps_of st) of None \<Rightarrow> []
     | Some (i, j) \<Rightarrow> eat (slice i j (subject st)) st)"

subsection \<open>Relational semantics\<close>

definition progress :: "(mstate \<times> mstate) set" where
  "progress = {(s, t). length (text_left t) < length (text_left s)}"

definition eats :: "string \<Rightarrow> mstate \<Rightarrow> mstate \<Rightarrow> bool" where
  "eats w s t \<longleftrightarrow> text_left s = w @ text_left t \<and> text_past t = rev w @ text_past s \<and> caps_of t = caps_of s"

primrec den :: "rx \<Rightarrow> (mstate \<times> mstate) set" where
  "den REmpty = Id"
| "den (RSet neg cs) = {(s, t). \<exists>c. in_set neg cs c \<and> eats [c] s t}"
| "den RAny = {(s, t). \<exists>c. code c \<noteq> 10 \<and> eats [c] s t}"
| "den RBol = {(s, t). t = s \<and> text_past s = []}"
| "den REol = {(s, t). t = s \<and> (text_left s = [] \<or> text_left s = [CHR 0x0A])}"
| "den RWordB = {(s, t). t = s \<and> at_word_boundary (text_past s) (text_left s)}"
| "den (RSeq a b) = den a O den b"
| "den (RAlt a b) = den a \<union> den b"
| "den (RStar g a) = (den a \<inter> progress)\<^sup>*"
| "den (RGrp k a) = {(s, t). \<exists>u. (s, u) \<in> den a \<and>
     t = (text_past u, text_left u, (k, length (text_past s), length (text_past u)) # caps_of u)}"
| "den (RLook pos a) = {(s, t). t = s \<and> ((\<exists>u. (s, u) \<in> den a) \<longleftrightarrow> pos)}"
| "den (RBack k) = {(s, t). \<exists>i j. cap_lookup k (caps_of s) = Some (i, j) \<and>
     eats (slice i j (subject s)) s t}"

lemma eats_Nil [simp]: "eats [] s t \<longleftrightarrow> t = s"
  by (cases s; cases t) (auto simp: eats_def)

lemma eats_Cons: "eats (c # w) s t \<longleftrightarrow>
    (\<exists>r. text_left s = c # r \<and> eats w (c # text_past s, r, caps_of s) t)"
  by (cases s; cases t) (auto simp: eats_def)

lemma in_eat_iff: "t \<in> set (eat w s) \<longleftrightarrow> eats w s t"
proof (induction w arbitrary: s)
  case (Cons x w)
  show ?case by (cases s; cases "text_left s") (auto simp: Cons.IH eats_Cons)
qed auto

lemma in_eat_if_iff: "t \<in> set (eat_if f s) \<longleftrightarrow> (\<exists>c. f c \<and> eats [c] s t)"
  by (cases s; cases "text_left s") (auto simp: eat_if_def eats_Cons)

lemma star_list_iff:
  assumes "\<And>s t. t \<in> set (f s) \<longleftrightarrow> (s, t) \<in> R"
  shows "length (text_left s) \<le> n \<Longrightarrow> t \<in> set (star_list g f n s) \<longleftrightarrow> (s, t) \<in> (R \<inter> progress)\<^sup>*"
proof (induction n arbitrary: s)
  case 0
  have "(s, u) \<notin> R \<inter> progress" for u
    using 0 by (simp add: progress_def)
  then have "(s, t) \<in> (R \<inter> progress)\<^sup>* \<longleftrightarrow> t = s"
    by (auto elim: converse_rtranclE)
  then show ?case by simp
next
  case (Suc n)
  have IH: "t \<in> set (star_list g f n u) \<longleftrightarrow> (u, t) \<in> (R \<inter> progress)\<^sup>*"
    if "length (text_left u) < length (text_left s)" for u
    using that Suc.prems by (intro Suc.IH) simp
  have "t \<in> set (star_list g f (Suc n) s) \<longleftrightarrow>
      t = s \<or> (\<exists>u. (s, u) \<in> R \<inter> progress \<and> t \<in> set (star_list g f n u))"
    by (auto simp: Let_def assms progress_def)
  also have "\<dots> \<longleftrightarrow> t = s \<or> (\<exists>u. (s, u) \<in> R \<inter> progress \<and> (u, t) \<in> (R \<inter> progress)\<^sup>*)"
    using IH by (auto simp: progress_def)
  also have "\<dots> \<longleftrightarrow> (s, t) \<in> (R \<inter> progress)\<^sup>*"
    by (auto intro: converse_rtrancl_into_rtrancl elim: converse_rtranclE)
  finally show ?case .
qed

lemma outs_iff_den: "t \<in> set (outs r s) \<longleftrightarrow> (s, t) \<in> den r"
proof (induction r arbitrary: s t)
  case (RSet neg cs)
  show ?case by (simp add: in_eat_if_iff)
next
  case RAny
  show ?case by (simp add: in_eat_if_iff)
next
  case (RStar g r)
  show ?case by (simp add: star_list_iff [of "outs r" "den r", OF RStar.IH])
next
  case (RLook pos r)
  have "outs r s \<noteq> [] \<longleftrightarrow> (\<exists>u. u \<in> set (outs r s))"
    by (cases "outs r s") auto
  then show ?case by (auto simp: RLook.IH)
next
  case (RGrp k r)
  show ?case by (simp add: image_iff Bex_def RGrp.IH)
next
  case (RSeq a b)
  show ?case by (simp add: Bex_def relcomp_unfold RSeq.IH)
next
  case (RBack k)
  show ?case by (cases "cap_lookup k (caps_of s)") (auto simp: in_eat_iff)
qed auto

text \<open>A match never alters the text: it only moves the position forward in it.\<close>

definition advances :: "mstate \<Rightarrow> mstate \<Rightarrow> bool" where
  "advances s t \<longleftrightarrow> (\<exists>w. text_left s = w @ text_left t \<and> text_past t = rev w @ text_past s)"

lemma advances_refl [simp]: "advances s s"
  by (simp add: advances_def)

lemma advances_trans: "advances s t \<Longrightarrow> advances t u \<Longrightarrow> advances s u"
  unfolding advances_def by (metis append.assoc rev_append)

lemma eats_advances: "eats w s t \<Longrightarrow> advances s t"
  by (auto simp: eats_def advances_def)

lemma den_advances: "(s, t) \<in> den r \<Longrightarrow> advances s t"
proof (induction r arbitrary: s t)
  case (RSeq a b)
  from RSeq.prems obtain u where "(s, u) \<in> den a" "(u, t) \<in> den b"
    by (simp add: relcomp_unfold) blast
  then show ?case using RSeq.IH advances_trans by blast
next
  case (RStar g a)
  from RStar.prems have "(s, t) \<in> (den a \<inter> progress)\<^sup>*" by simp
  then show ?case
    by (induction rule: rtrancl_induct) (auto intro: advances_trans RStar.IH)
next
  case (RGrp k a)
  then show ?case by (fastforce simp: advances_def)
qed (auto dest: eats_advances)

lemma advances_subject: "advances s t \<Longrightarrow> subject t = subject s"
  by (auto simp: advances_def subject_def)

lemma advances_length: "advances s t \<Longrightarrow> length (text_left t) \<le> length (text_left s) \<and> length (text_past s) \<le> length (text_past t)"
  by (auto simp: advances_def)

subsection \<open>Searching\<close>

text \<open>
  \<open>search_from r p x\<close>: the leftmost start at or after the current position, and there the
  first success. The result gives the start offset and the final matcher state.
\<close>

fun search_from :: "rx \<Rightarrow> string \<Rightarrow> string \<Rightarrow> (nat \<times> mstate) option" where
  "search_from r p x =
     (case outs r (p, x, []) of
        st # _ \<Rightarrow> Some (length p, st)
      | [] \<Rightarrow> (case x of [] \<Rightarrow> None | c # y \<Rightarrow> search_from r (c # p) y))"

declare search_from.simps [simp del]

record rmatch =
  m_string :: string
  m_start :: nat
  m_end :: nat
  m_caps :: caps

definition mk_match :: "nat \<Rightarrow> mstate \<Rightarrow> rmatch" where
  "mk_match i st = \<lparr>m_string = subject st, m_start = i, m_end = length (text_past st), m_caps = caps_of st\<rparr>"

text \<open>\<open>m.group(k)\<close>, \<open>m.start(k)\<close>; \<open>None\<close> for a group that took no part in the match.\<close>

definition span :: "rmatch \<Rightarrow> nat \<Rightarrow> (nat \<times> nat) option" where
  "span m k = (if k = 0 then Some (m_start m, m_end m) else cap_lookup k (m_caps m))"

definition group :: "rmatch \<Rightarrow> nat \<Rightarrow> string option" where
  "group m k = (case span m k of None \<Rightarrow> None | Some (i, j) \<Rightarrow> Some (slice i j (m_string m)))"

text \<open>The group's text where the code uses it as a string: a group that always takes part.\<close>

definition grp :: "rmatch \<Rightarrow> nat \<Rightarrow> string" where
  "grp m k = (case group m k of None \<Rightarrow> [] | Some s \<Rightarrow> s)"

definition rx_match :: "rx \<Rightarrow> string \<Rightarrow> rmatch option" where
  "rx_match r s = (case outs r ([], s, []) of [] \<Rightarrow> None | st # _ \<Rightarrow> Some (mk_match 0 st))"

definition rx_search :: "rx \<Rightarrow> string \<Rightarrow> rmatch option" where
  "rx_search r s = map_option (\<lambda>(i, st). mk_match i st) (search_from r [] s)"

text \<open>
  \<open>finditer\<close>: successive searches; after an empty match the next search starts one
  character further on. Every round moves forward, so the length of the text is enough fuel.
\<close>

fun scan :: "nat \<Rightarrow> rx \<Rightarrow> string \<Rightarrow> string \<Rightarrow> rmatch list" where
  "scan 0 r p x = []"
| "scan (Suc n) r p x =
     (case search_from r p x of None \<Rightarrow> []
      | Some (i, st) \<Rightarrow> mk_match i st #
          (if length (text_past st) = i
           then (case text_left st of [] \<Rightarrow> [] | c # y \<Rightarrow> scan n r (c # text_past st) y)
           else scan n r (text_past st) (text_left st)))"

definition rx_finditer :: "rx \<Rightarrow> string \<Rightarrow> rmatch list" where
  "rx_finditer r s = scan (Suc (length s)) r [] s"

fun splice :: "(rmatch \<Rightarrow> string) \<Rightarrow> nat \<Rightarrow> rmatch list \<Rightarrow> string \<Rightarrow> string" where
  "splice f pos [] s = drop pos s"
| "splice f pos (m # ms) s = slice pos (m_start m) s @ f m @ splice f (m_end m) ms s"

definition rx_sub :: "rx \<Rightarrow> (rmatch \<Rightarrow> string) \<Rightarrow> string \<Rightarrow> string" where
  "rx_sub r f s = splice f 0 (rx_finditer r s) s"

fun pieces :: "nat \<Rightarrow> rmatch list \<Rightarrow> string \<Rightarrow> string list" where
  "pieces pos [] s = [drop pos s]"
| "pieces pos (m # ms) s = slice pos (m_start m) s # pieces (m_end m) ms s"

text \<open>\<open>re.split\<close>: empty matches do not split.\<close>

definition rx_split :: "rx \<Rightarrow> string \<Rightarrow> string list" where
  "rx_split r s = pieces 0 (filter (\<lambda>m. m_start m \<noteq> m_end m) (rx_finditer r s)) s"

subsection \<open>What a search finds\<close>

definition at_pos :: "string \<Rightarrow> nat \<Rightarrow> mstate" where
  "at_pos s i = (rev (take i s), drop i s, [])"

text \<open>\<open>r\<close> can match the text \<open>s\<close> from offset \<open>i\<close> to offset \<open>j\<close>.\<close>

definition occurs :: "rx \<Rightarrow> string \<Rightarrow> nat \<Rightarrow> nat \<Rightarrow> bool" where
  "occurs r s i j \<longleftrightarrow> i \<le> length s \<and> (\<exists>t. (at_pos s i, t) \<in> den r \<and> length (text_past t) = j)"

lemma at_pos_subject [simp]: "subject (at_pos s i) = s"
  by (simp add: subject_def at_pos_def)

lemma occurs_bounds: "occurs r s i j \<Longrightarrow> i \<le> j \<and> j \<le> length s"
proof -
  assume "occurs r s i j"
  then obtain t where i: "i \<le> length s" and t: "(at_pos s i, t) \<in> den r" "length (text_past t) = j"
    by (auto simp: occurs_def)
  from den_advances [OF t(1)] have "length (text_past (at_pos s i)) \<le> j" "subject t = s"
    using advances_length [of "at_pos s i" t] advances_subject [of "at_pos s i" t] t(2) by auto
  then show ?thesis using i t(2) by (auto simp: at_pos_def subject_def)
qed

lemma occurs_ex_iff:
  assumes "i \<le> length s"
  shows "(\<exists>j. occurs r s i j) \<longleftrightarrow> outs r (at_pos s i) \<noteq> []"
proof -
  have "(\<exists>j. occurs r s i j) \<longleftrightarrow> (\<exists>t. t \<in> set (outs r (at_pos s i)))"
    unfolding occurs_def outs_iff_den using assms by blast
  also have "\<dots> \<longleftrightarrow> outs r (at_pos s i) \<noteq> []"
    by (cases "outs r (at_pos s i)") auto
  finally show ?thesis .
qed

lemma search_from_at:
  assumes "k \<le> length s"
  shows "search_from r (rev (take k s)) (drop k s) =
    (case outs r (at_pos s k) of
       st # _ \<Rightarrow> Some (k, st)
     | [] \<Rightarrow> if k < length s then search_from r (rev (take (Suc k) s)) (drop (Suc k) s) else None)"
proof -
  have len: "length (rev (take k s)) = k" using assms by simp
  show ?thesis
  proof (cases "k < length s")
    case True
    then have d: "drop k s = s ! k # drop (Suc k) s"
      and t: "rev (take (Suc k) s) = s ! k # rev (take k s)"
      by (simp_all add: Cons_nth_drop_Suc take_Suc_conv_app_nth)
    show ?thesis
      by (subst search_from.simps)
         (simp only: len at_pos_def [symmetric], simp add: True d t split: list.split)
  next
    case False
    then have "k = length s" using assms by simp
    then show ?thesis
      by (subst search_from.simps) (simp add: at_pos_def split: list.split)
  qed
qed

lemma search_from_Some:
  assumes "search_from r (rev (take k s)) (drop k s) = Some (i, st)" "k \<le> length s"
  shows "i \<le> length s \<and> (\<exists>ts. outs r (at_pos s i) = st # ts) \<and>
    (\<forall>j. k \<le> j \<and> j < i \<longrightarrow> outs r (at_pos s j) = [])"
  using assms
proof (induction "length s - k" arbitrary: k rule: less_induct)
  case less
  show ?case
  proof (cases "outs r (at_pos s k)")
    case (Cons t ts)
    with less.prems show ?thesis by (auto simp: search_from_at [OF less.prems(2)])
  next
    case Nil
    with less.prems have k: "k < length s"
      and "search_from r (rev (take (Suc k) s)) (drop (Suc k) s) = Some (i, st)"
      by (simp_all add: search_from_at [OF less.prems(2)] split: if_splits)
    with less.hyps [of "Suc k"] have
      "i \<le> length s \<and> (\<exists>ts. outs r (at_pos s i) = st # ts) \<and>
        (\<forall>j. Suc k \<le> j \<and> j < i \<longrightarrow> outs r (at_pos s j) = [])" by simp
    then show ?thesis using Nil by (metis Suc_leI le_neq_implies_less)
  qed
qed

lemma search_from_None:
  assumes "search_from r (rev (take k s)) (drop k s) = None" "k \<le> j" "j \<le> length s"
  shows "outs r (at_pos s j) = []"
  using assms
proof (induction "length s - k" arbitrary: k rule: less_induct)
  case less
  from less.prems have k: "k \<le> length s" by simp
  show ?case
  proof (cases "k = j")
    case True
    with less.prems(1) search_from_at [OF k, of r] show ?thesis by (auto split: list.splits)
  next
    case False
    with less.prems have "k < length s" "Suc k \<le> j" by simp_all
    with less.prems have "search_from r (rev (take (Suc k) s)) (drop (Suc k) s) = None"
      by (simp add: search_from_at [OF k] split: list.splits)
    with less.hyps [of "Suc k"] less.prems \<open>k < length s\<close> \<open>Suc k \<le> j\<close> show ?thesis by simp
  qed
qed

lemma rx_search_Some:
  assumes "rx_search r s = Some m"
  shows "m_start m \<le> length s" and "\<exists>st ts. outs r (at_pos s (m_start m)) = st # ts \<and> m = mk_match (m_start m) st"
    and "j < m_start m \<Longrightarrow> outs r (at_pos s j) = []"
proof -
  from assms obtain i st where st: "search_from r (rev (take 0 s)) (drop 0 s) = Some (i, st)"
      and m: "m = mk_match i st"
    by (auto simp: rx_search_def)
  have i: "m_start m = i" using m by (simp add: mk_match_def)
  from search_from_Some [OF st]
  have *: "i \<le> length s" "\<exists>ts. outs r (at_pos s i) = st # ts" "\<forall>j<i. outs r (at_pos s j) = []"
    by simp_all
  show "m_start m \<le> length s" unfolding i by (rule *(1))
  show "\<exists>st ts. outs r (at_pos s (m_start m)) = st # ts \<and> m = mk_match (m_start m) st"
    using *(2) i m by metis
  show "j < m_start m \<Longrightarrow> outs r (at_pos s j) = []" unfolding i using *(3) by blast
qed

lemma mk_match_occurs:
  assumes "st \<in> set (outs r (at_pos s i))" "i \<le> length s"
  shows "m_string (mk_match i st) = s \<and> occurs r s i (m_end (mk_match i st))"
proof -
  from assms(1) have "(at_pos s i, st) \<in> den r" by (simp add: outs_iff_den)
  moreover from this have "subject st = s"
    using advances_subject [OF den_advances] by fastforce
  ultimately show ?thesis
    using assms(2) unfolding mk_match_def occurs_def by (simp del: split_paired_Ex) blast
qed

subsection \<open>The interface the checks rely on\<close>

text \<open>
  What every client of a search may assume: a result lies inside the text, is an
  occurrence of the pattern and starts leftmost; no result means no occurrence.
\<close>

locale searcher =
  fixes srch :: "string \<Rightarrow> rmatch option"
    and occ :: "string \<Rightarrow> nat \<Rightarrow> nat \<Rightarrow> bool"
  assumes occ_bounds: "occ s i j \<Longrightarrow> i \<le> j \<and> j \<le> length s"
    and srch_occ: "srch s = Some m \<Longrightarrow> m_string m = s \<and> occ s (m_start m) (m_end m)"
    and srch_least: "srch s = Some m \<Longrightarrow> occ s i j \<Longrightarrow> m_start m \<le> i"
    and srch_none: "srch s = None \<Longrightarrow> \<not> occ s i j"
begin

lemma found_iff: "srch s \<noteq> None \<longleftrightarrow> (\<exists>i j. occ s i j)"
  using srch_occ srch_none by (metis not_None_eq)

lemma found_bounds: "srch s = Some m \<Longrightarrow> m_start m \<le> m_end m \<and> m_end m \<le> length s"
  using srch_occ occ_bounds by blast

lemma found_text: "srch s = Some m \<Longrightarrow> group m 0 = Some (slice (m_start m) (m_end m) s)"
  using srch_occ by (simp add: group_def span_def)

lemma found_split: "srch s = Some m \<Longrightarrow>
    s = take (m_start m) s @ grp m 0 @ drop (m_end m) s"
proof -
  assume m: "srch s = Some m"
  have "grp m 0 @ drop (m_end m) s = drop (m_start m) s"
    using found_text [OF m] found_bounds [OF m]
    by (simp add: grp_def slice_def) (metis append_take_drop_id drop_drop le_add_diff_inverse2)
  then show ?thesis by simp
qed

end

interpretation rx_searcher: searcher "rx_search r" "occurs r" for r
proof
  show "occurs r s i j \<Longrightarrow> i \<le> j \<and> j \<le> length s" for s i j
    by (rule occurs_bounds)
next
  fix s m
  assume m: "rx_search r s = Some m"
  then obtain st ts where st: "outs r (at_pos s (m_start m)) = st # ts" "m = mk_match (m_start m) st"
    using rx_search_Some(2) by blast
  then show "m_string m = s \<and> occurs r s (m_start m) (m_end m)"
    using mk_match_occurs [of st r s "m_start m"] rx_search_Some(1) [OF m]
    by (metis list.set_intros(1))
next
  fix s m i j
  assume m: "rx_search r s = Some m" and o: "occurs r s i j"
  then have "outs r (at_pos s i) \<noteq> []" "i \<le> length s"
    using occurs_ex_iff [of i s r] occurs_bounds [OF o] o by auto
  then show "m_start m \<le> i"
    using rx_search_Some(3) [OF m] by (meson not_le)
next
  fix s i j
  assume "rx_search r s = None"
  then have "search_from r (rev (take 0 s)) (drop 0 s) = None" by (simp add: rx_search_def)
  from search_from_None [OF this] show "\<not> occurs r s i j"
    using occurs_bounds [of r s i j] occurs_ex_iff [of i s r] by auto
qed

end
