(* ===== verification/RegexRun.thy ===== *)
theory RegexRun
  imports Regex
begin

text \<open>
  The matcher as it runs: with a continuation, stopping at the first success. It is proved
  equal to the head of the list of successes, and serves as the code equation of
  \<open>rx_match\<close> and \<open>search_from\<close>, so that concrete matches are evaluated this way.
\<close>

fun first_some :: "('a \<Rightarrow> 'b option) \<Rightarrow> 'a list \<Rightarrow> 'b option" where
  "first_some k [] = None"
| "first_some k (x # xs) = (case k x of None \<Rightarrow> first_some k xs | Some y \<Rightarrow> Some y)"

lemma first_some_single [simp]: "first_some k [x] = k x"
  by (cases "k x") auto

lemma first_some_append:
  "first_some k (xs @ ys) = (case first_some k xs of None \<Rightarrow> first_some k ys | Some y \<Rightarrow> Some y)"
  by (induction xs) (auto split: option.split)

lemma first_some_concat:
  "first_some k (concat (map f xs)) = first_some (\<lambda>x. first_some k (f x)) xs"
  by (induction xs) (auto simp: first_some_append split: option.split)

lemma first_some_map: "first_some k (map f xs) = first_some (\<lambda>x. k (f x)) xs"
  by (induction xs) (auto split: option.split)

lemma first_some_filter:
  "first_some k (filter P xs) = first_some (\<lambda>x. if P x then k x else None) xs"
  by (induction xs) (auto split: option.split)

lemma first_some_cong:
  "(\<And>x. x \<in> set xs \<Longrightarrow> k x = k' x) \<Longrightarrow> first_some k xs = first_some k' xs"
  by (induction xs) (auto split: option.split)

lemma first_some_Some: "first_some Some xs = (case xs of [] \<Rightarrow> None | x # _ \<Rightarrow> Some x)"
  by (cases xs) auto

fun run_star :: "bool \<Rightarrow> ((mstate \<Rightarrow> 'b option) \<Rightarrow> mstate \<Rightarrow> 'b option) \<Rightarrow> nat \<Rightarrow>
    (mstate \<Rightarrow> 'b option) \<Rightarrow> mstate \<Rightarrow> 'b option" where
  "run_star g f 0 k st = k st"
| "run_star g f (Suc n) k st =
     (if g
      then (case f (\<lambda>t. if text_left t = text_left st then None else run_star g f n k t) st of
              None \<Rightarrow> k st | Some y \<Rightarrow> Some y)
      else (case k st of
              None \<Rightarrow> f (\<lambda>t. if text_left t = text_left st then None else run_star g f n k t) st
            | Some y \<Rightarrow> Some y))"

definition run_if :: "(char \<Rightarrow> bool) \<Rightarrow> (mstate \<Rightarrow> 'b option) \<Rightarrow> mstate \<Rightarrow> 'b option" where
  "run_if p k st = (case text_left st of [] \<Rightarrow> None
     | c # r \<Rightarrow> if p c then k (c # text_past st, r, caps_of st) else None)"

primrec run :: "rx \<Rightarrow> (mstate \<Rightarrow> 'b option) \<Rightarrow> mstate \<Rightarrow> 'b option" where
  "run REmpty k st = k st"
| "run (RSet neg cs) k st = run_if (in_set neg cs) k st"
| "run RAny k st = run_if (\<lambda>c. code c \<noteq> 10) k st"
| "run RBol k st = (if text_past st = [] then k st else None)"
| "run REol k st = (if text_left st = [] \<or> text_left st = [CHR 0x0A] then k st else None)"
| "run RWordB k st = (if at_word_boundary (text_past st) (text_left st) then k st else None)"
| "run (RSeq a b) k st = run a (run b k) st"
| "run (RAlt a b) k st = (case run a k st of None \<Rightarrow> run b k st | Some y \<Rightarrow> Some y)"
| "run (RStar g a) k st = run_star g (run a) (length (text_left st)) k st"
| "run (RGrp j a) k st =
     run a (\<lambda>t. k (text_past t, text_left t, (j, length (text_past st), length (text_past t)) # caps_of t)) st"
| "run (RLook pos a) k st = (if (outs a st \<noteq> []) = pos then k st else None)"
| "run (RBack j) k st = (case cap_lookup j (caps_of st) of None \<Rightarrow> None
     | Some (i, i') \<Rightarrow> first_some k (eat (slice i i' (subject st)) st))"

lemma outs_advances: "t \<in> set (outs r s) \<Longrightarrow> advances s t"
  by (rule den_advances) (simp add: outs_iff_den)

lemma advances_progress_iff:
  "advances s t \<Longrightarrow> text_left t = text_left s \<longleftrightarrow> \<not> length (text_left t) < length (text_left s)"
  by (auto simp: advances_def)

lemma run_star_eq:
  assumes f: "\<And>k s. f k s = first_some k (h s)"
    and adv: "\<And>s t. t \<in> set (h s) \<Longrightarrow> advances s t"
  shows "run_star g f n k s = first_some k (star_list g h n s)"
proof (induction n arbitrary: s)
  case (Suc n)
  have "first_some (\<lambda>t. if text_left t = text_left s then None else run_star g f n k t) (h s) =
      first_some k (concat (map (star_list g h n)
        (filter (\<lambda>t. length (text_left t) < length (text_left s)) (h s))))"
    unfolding first_some_concat first_some_filter
    by (rule first_some_cong) (auto simp: Suc.IH dest: adv advances_progress_iff)
  then have *: "f (\<lambda>t. if text_left t = text_left s then None else run_star g f n k t) s =
      first_some k (concat (map (star_list g h n)
        (filter (\<lambda>t. length (text_left t) < length (text_left s)) (h s))))"
    by (simp only: f)
  show ?case
    by (simp only: run_star.simps star_list.simps Let_def *)
       (simp add: first_some_append split: option.split)
qed (simp del: first_some.simps(2))

theorem run_eq_first_success: "run r k s = first_some k (outs r s)"
proof (induction r arbitrary: k s)
  case (RSet neg cs)
  show ?case by (simp add: run_if_def eat_if_def split: list.split option.split)
next
  case RAny
  show ?case by (simp add: run_if_def eat_if_def split: list.split option.split)
next
  case (RSeq a b)
  have "run b k = (\<lambda>t. first_some k (outs b t))"
    by (rule ext) (rule RSeq.IH(2))
  then show ?case by (simp add: RSeq.IH(1) first_some_concat)
next
  case (RStar g a)
  show ?case by (simp add: run_star_eq [OF RStar.IH outs_advances])
next
  case (RGrp j a)
  show ?case by (simp add: RGrp.IH first_some_map)
next
  case (RBack j)
  show ?case by (simp split: option.split)
qed (simp_all add: first_some_append emit_if_def split: option.split)

lemma rx_match_code [code]:
  "rx_match r s = map_option (mk_match 0) (run r Some ([], s, []))"
  by (simp add: rx_match_def run_eq_first_success first_some_Some split: list.split)

lemma search_from_code [code]:
  "search_from r p x =
     (case run r Some (p, x, []) of
        Some st \<Rightarrow> Some (length p, st)
      | None \<Rightarrow> (case x of [] \<Rightarrow> None | c # y \<Rightarrow> search_from r (c # p) y))"
  by (subst search_from.simps)
     (simp add: run_eq_first_success first_some_Some split: list.split)

end
