(* ===== verification/ReParse.thy ===== *)
theory ReParse
  imports RegexRun
begin

text \<open>
  The pattern syntax of \<open>re\<close>: the part of the standard library's \<open>sre_parse\<close> that turns a
  pattern string into a syntax tree, so that every pattern of the source stands in the
  development as the string it is in the source. \<open>None\<close> is \<open>re.error\<close>. Covered is what the
  patterns of cpplint.py use: literals, escapes, character sets, groups (capturing,
  \<open>?:\<close>, \<open>?=\<close>, \<open>?!\<close>), alternation, the repeats \<open>* + ? {m} {m,n}\<close> and their lazy
  forms, anchors and backreferences.
\<close>

subsection \<open>Tokens\<close>

text \<open>The tokenizer of \<open>sre_parse\<close>: a backslash and the next character are one token.\<close>

datatype token = Plain char | Escaped char

fun tokens :: "string \<Rightarrow> token list option" where
  "tokens [] = Some []"
| "tokens (c # s) =
     (if c = bslash
      then (case s of [] \<Rightarrow> None | d # t \<Rightarrow> map_option (Cons (Escaped d)) (tokens t))
      else map_option (Cons (Plain c)) (tokens s))"

subsection \<open>Character sets\<close>

definition control_escape :: "char \<Rightarrow> char" where
  "control_escape c =
     (if c = CHR ''n'' then CHR 0x0A else if c = CHR ''t'' then CHR 0x09
      else if c = CHR ''r'' then CHR 0x0D else if c = CHR ''f'' then CHR 0x0C
      else if c = CHR ''v'' then CHR 0x0B else if c = CHR ''a'' then CHR 0x07 else c)"

fun class_escape :: "char \<Rightarrow> cset option" where
  "class_escape c =
     (if c = CHR ''w'' then Some (CWord True) else if c = CHR ''W'' then Some (CWord False)
      else if c = CHR ''d'' then Some (CDigit True) else if c = CHR ''D'' then Some (CDigit False)
      else if c = CHR ''s'' then Some (CSpace True) else if c = CHR ''S'' then Some (CSpace False)
      else None)"

fun set_item :: "token \<Rightarrow> cset" where
  "set_item (Plain c) = CChar c"
| "set_item (Escaped c) =
     (case class_escape c of Some k \<Rightarrow> k
      | None \<Rightarrow> if c = CHR ''b'' then CChar CHR 0x08 else CChar (control_escape c))"

fun parse_set :: "cset list \<Rightarrow> bool \<Rightarrow> token list \<Rightarrow> (cset list \<times> token list) option" where
  "parse_set acc first [] = None"
| "parse_set acc first (a # ts) =
     (if a = Plain CHR '']'' \<and> \<not> first then Some (rev acc, ts)
      else case ts of
          Plain d # b # us \<Rightarrow>
            (if d = CHR ''-''
             then (if b = Plain CHR '']'' then Some (rev (CChar CHR ''-'' # set_item a # acc), us)
                   else case (set_item a, set_item b) of
                       (CChar x, CChar y) \<Rightarrow>
                         (if code y < code x then None
                          else parse_set (CRange x y # acc) False us)
                     | _ \<Rightarrow> None)
             else parse_set (set_item a # acc) False ts)
        | _ \<Rightarrow> parse_set (set_item a # acc) False ts)"

declare parse_set.simps(2) [simp del]

lemma parse_set_shorter:
  "parse_set acc first ts = Some (cs, us) \<Longrightarrow> length us < length ts"
proof (induction "length ts" arbitrary: acc first ts cs us rule: less_induct)
  case less
  have IH: "length vs < length ts \<Longrightarrow> length us < length vs"
    if "parse_set acc' first' vs = Some (cs, us)" for acc' first' vs
    using less.hyps that by blast
  show ?case
  proof (cases ts)
    case (Cons a us')
    from less.prems show ?thesis unfolding Cons
      by (simp add: parse_set.simps(2) [of acc first a us']
            split: if_splits list.splits token.splits cset.splits)
         (auto dest!: IH simp: Cons)
  qed (use less.prems in simp)
qed

subsection \<open>Repeats\<close>

definition opt :: "bool \<Rightarrow> rx \<Rightarrow> rx" where
  "opt g r = (if g then RAlt r REmpty else RAlt REmpty r)"

text \<open>\<open>r{m,n}\<close> and \<open>r{m,}\<close>: \<open>m\<close> copies, then nested options or a star.\<close>

fun repeat :: "nat \<Rightarrow> nat option \<Rightarrow> bool \<Rightarrow> rx \<Rightarrow> rx" where
  "repeat (Suc m) hi g r = RSeq r (repeat m (map_option (\<lambda>n. n - 1) hi) g r)"
| "repeat 0 None g r = RStar g r"
| "repeat 0 (Some 0) g r = REmpty"
| "repeat 0 (Some (Suc n)) g r = opt g (RSeq r (repeat 0 (Some n) g r))"

fun digit_val :: "token \<Rightarrow> nat option" where
  "digit_val (Plain c) = (if adigit c then Some (nat (code c - 48)) else None)"
| "digit_val (Escaped c) = None"

fun take_digits :: "nat option \<Rightarrow> token list \<Rightarrow> nat option \<times> token list" where
  "take_digits acc [] = (acc, [])"
| "take_digits acc (t # ts) =
     (case digit_val t of None \<Rightarrow> (acc, t # ts)
      | Some d \<Rightarrow> take_digits (Some ((case acc of None \<Rightarrow> 0 | Some n \<Rightarrow> 10 * n) + d)) ts)"

definition min_count :: "nat option \<Rightarrow> nat" where
  "min_count lo = (case lo of None \<Rightarrow> 0 | Some n \<Rightarrow> n)"

text \<open>The bounds after an opening brace; \<open>None\<close> when the brace is a literal.\<close>

definition parse_bounds :: "token list \<Rightarrow> (nat \<times> nat option \<times> token list) option" where
  "parse_bounds ts =
     (if ts \<noteq> [] \<and> hd ts = Plain CHR ''}'' then None
      else case take_digits None ts of
             (lo, Plain c # vs) \<Rightarrow>
                (if c = CHR ''}'' then Some (min_count lo, lo, vs)
                 else if c = CHR '','' then
                   (case take_digits None vs of
                      (hi, Plain d # ws) \<Rightarrow>
                        (if d = CHR ''}'' then Some (min_count lo, hi, ws) else None)
                    | _ \<Rightarrow> None)
                 else None)
           | _ \<Rightarrow> None)"

lemma take_digits_shorter: "take_digits acc ts = (n, us) \<Longrightarrow> length us \<le> length ts"
  by (induction acc ts arbitrary: n us rule: take_digits.induct)
     (fastforce split: option.splits)+

lemma parse_bounds_shorter: "parse_bounds ts = Some (m, n, us) \<Longrightarrow> length us < length ts"
  by (auto simp: parse_bounds_def split: if_splits list.splits token.splits prod.splits
           dest!: take_digits_shorter)

subsection \<open>The parser\<close>

text \<open>
  What is open: kind of the group, alternatives read so far and the sequence before the
  group. A repeat may follow neither an anchor nor another repeat, so the items of a
  sequence carry their kind.
\<close>

datatype item_kind = AnchorItem | RepeatItem | OtherItem

datatype group_kind = Capture nat | NonCapture | Ahead bool

type_synonym items = "(item_kind \<times> rx) list"
type_synonym frame = "group_kind \<times> rx list \<times> items"

definition mk_seq :: "items \<Rightarrow> rx" where
  "mk_seq its = foldl (\<lambda>r (k, x). RSeq x r) REmpty its"

fun mk_alt :: "rx list \<Rightarrow> rx \<Rightarrow> rx" where
  "mk_alt [] r = r"
| "mk_alt (a # as) r = mk_alt as (RAlt a r)"

fun close_group :: "group_kind \<Rightarrow> rx \<Rightarrow> rx" where
  "close_group (Capture k) r = RGrp k r"
| "close_group NonCapture r = r"
| "close_group (Ahead b) r = RLook b r"

fun escape_item :: "char \<Rightarrow> (item_kind \<times> rx) option" where
  "escape_item c =
     (case class_escape c of
        Some k \<Rightarrow> Some (OtherItem, RSet False [k])
      | None \<Rightarrow>
          if c = CHR ''b'' then Some (AnchorItem, RWordB)
          else if c = CHR ''0'' then None
          else if adigit c then Some (OtherItem, RBack (nat (code c - 48)))
          else Some (OtherItem, RChar (control_escape c)))"

definition repeat_last :: "nat \<Rightarrow> nat option \<Rightarrow> bool \<Rightarrow> items \<Rightarrow> items option" where
  "repeat_last lo hi g its =
     (case its of
        (OtherItem, r) # rest \<Rightarrow>
          (case hi of Some h \<Rightarrow> if h < lo then None else Some ((RepeatItem, repeat lo hi g r) # rest)
                    | None \<Rightarrow> Some ((RepeatItem, repeat lo hi g r) # rest))
      | _ \<Rightarrow> None)"

definition lazy_mark :: "token list \<Rightarrow> bool \<times> token list" where
  "lazy_mark ts = (case ts of Plain c # us \<Rightarrow> if c = CHR ''?'' then (False, us) else (True, ts)
                   | _ \<Rightarrow> (True, ts))"

lemma lazy_mark_shorter: "lazy_mark ts = (g, us) \<Longrightarrow> length us \<le> length ts"
  by (auto simp: lazy_mark_def split: list.splits token.splits if_splits)

text \<open>The opening of a group, after its parenthesis.\<close>

fun open_group :: "nat \<Rightarrow> token list \<Rightarrow> (group_kind \<times> token list) option" where
  "open_group n (Plain q # Plain k # ts) =
     (if q \<noteq> CHR ''?'' then Some (Capture n, Plain q # Plain k # ts)
      else if k = CHR '':'' then Some (NonCapture, ts)
      else if k = CHR ''='' then Some (Ahead True, ts)
      else if k = CHR ''!'' then Some (Ahead False, ts)
      else None)"
| "open_group n ts = (if ts \<noteq> [] \<and> hd ts = Plain CHR ''?'' then None else Some (Capture n, ts))"

lemma open_group_shorter: "open_group n ts = Some (k, us) \<Longrightarrow> length us \<le> length ts"
  by (induction n ts rule: open_group.induct) (auto split: if_splits)

definition next_group :: "group_kind \<Rightarrow> nat \<Rightarrow> nat" where
  "next_group k n = (case k of Capture _ \<Rightarrow> Suc n | _ \<Rightarrow> n)"

function parse :: "nat \<Rightarrow> frame list \<Rightarrow> rx list \<Rightarrow> items \<Rightarrow> token list \<Rightarrow> rx option" where
  "parse n fr alts its [] = (if fr = [] then Some (mk_alt alts (mk_seq its)) else None)"
| "parse n fr alts its (Escaped c # ts) =
     (case escape_item c of None \<Rightarrow> None | Some it \<Rightarrow> parse n fr alts (it # its) ts)"
| "parse n fr alts its (Plain c # ts) =
     (if c = CHR ''|'' then parse n fr (mk_seq its # alts) [] ts
      else if c = CHR ''('' then
        (case open_group n ts of None \<Rightarrow> None
         | Some (k, us) \<Rightarrow> parse (next_group k n) ((k, alts, its) # fr) [] [] us)
      else if c = CHR '')'' then
        (case fr of [] \<Rightarrow> None
         | (k, alts', its') # fr' \<Rightarrow>
             parse n fr' alts' ((OtherItem, close_group k (mk_alt alts (mk_seq its))) # its') ts)
      else if c = CHR ''['' then
        (let neg = (ts \<noteq> [] \<and> hd ts = Plain CHR ''^'')
         in case parse_set [] True (if neg then tl ts else ts) of None \<Rightarrow> None
            | Some (cs, us) \<Rightarrow> parse n fr alts ((OtherItem, RSet neg cs) # its) us)
      else if c = CHR ''*'' \<or> c = CHR ''+'' \<or> c = CHR ''?'' then
        (case lazy_mark ts of (g, us) \<Rightarrow>
         (case repeat_last (if c = CHR ''+'' then 1 else 0) (if c = CHR ''?'' then Some 1 else None)
                 g its of None \<Rightarrow> None
          | Some its' \<Rightarrow> parse n fr alts its' us))
      else if c = CHR ''{'' then
        (case parse_bounds ts of
           None \<Rightarrow> parse n fr alts ((OtherItem, RChar c) # its) ts
         | Some (lo, hi, us) \<Rightarrow>
             (case lazy_mark us of (g, vs) \<Rightarrow>
              (case repeat_last lo hi g its of None \<Rightarrow> None
               | Some its' \<Rightarrow> parse n fr alts its' vs)))
      else if c = CHR ''.'' then parse n fr alts ((OtherItem, RAny) # its) ts
      else if c = CHR ''^'' then parse n fr alts ((AnchorItem, RBol) # its) ts
      else if c = CHR ''$'' then parse n fr alts ((AnchorItem, REol) # its) ts
      else parse n fr alts ((OtherItem, RChar c) # its) ts)"
  by pat_completeness auto
termination
  by (relation "measure (\<lambda>(n, fr, alts, its, ts). length ts)")
     (auto dest!: sym [THEN open_group_shorter] sym [THEN lazy_mark_shorter] parse_bounds_shorter
        lazy_mark_shorter open_group_shorter parse_set_shorter split: if_splits)

declare parse.simps [simp del]

definition re_compile :: "string \<Rightarrow> rx option" where
  "re_compile p = Option.bind (tokens p) (parse 1 [] [] [])"

subsection \<open>The entry points of the source\<close>

text \<open>
  \<open>rx p\<close> is the compiled form of a constant pattern (written with backquotes for
  backslashes); a pattern that does not compile would match nothing, and every constant
  pattern of the source is shown to compile in \<open>Patterns\<close>. Patterns built from data go through
  \<open>re_compile\<close> and keep its failure.
\<close>

definition never_rx :: rx where "never_rx = RSet False []"

definition rx :: "string \<Rightarrow> rx" where
  "rx p = (case re_compile (bs p) of None \<Rightarrow> never_rx | Some r \<Rightarrow> r)"

definition Match :: "string \<Rightarrow> string \<Rightarrow> rmatch option" where
  "Match p s = rx_match (rx p) s"

definition Search :: "string \<Rightarrow> string \<Rightarrow> rmatch option" where
  "Search p s = rx_search (rx p) s"

abbreviation matches :: "string \<Rightarrow> string \<Rightarrow> bool" where
  "matches p s \<equiv> Match p s \<noteq> None"

abbreviation found :: "string \<Rightarrow> string \<Rightarrow> bool" where
  "found p s \<equiv> Search p s \<noteq> None"

text \<open>\<open>re.I\<close>: a literal matches both of its cases.\<close>

definition both_cases :: "cset \<Rightarrow> cset list" where
  "both_cases k = (case k of CChar c \<Rightarrow> [CChar (aupper_char c), CChar (ulower_char c)] | _ \<Rightarrow> [k])"

primrec icase :: "rx \<Rightarrow> rx" where
  "icase REmpty = REmpty"
| "icase (RSet neg cs) = RSet neg (concat (map both_cases cs))"
| "icase RAny = RAny"
| "icase RBol = RBol"
| "icase REol = REol"
| "icase RWordB = RWordB"
| "icase (RSeq a b) = RSeq (icase a) (icase b)"
| "icase (RAlt a b) = RAlt (icase a) (icase b)"
| "icase (RStar g a) = RStar g (icase a)"
| "icase (RGrp k a) = RGrp k (icase a)"
| "icase (RLook b a) = RLook b (icase a)"
| "icase (RBack k) = RBack k"

text \<open>\<open>re.VERBOSE\<close>: whitespace outside sets and escapes is not part of the pattern.\<close>

fun verbose :: "string \<Rightarrow> string" where
  "verbose [] = []"
| "verbose [c] = (if aspace c then [] else [c])"
| "verbose (c # d # s) =
     (if c = bslash then c # d # verbose s
      else if aspace c then verbose (d # s) else c # verbose (d # s))"

subsection \<open>re.escape\<close>

definition re_alnum :: "char \<Rightarrow> bool" where "re_alnum c \<longleftrightarrow> aalpha c \<or> adigit c"

definition re_escape :: "string \<Rightarrow> string" where
  "re_escape s = concat (map (\<lambda>c. if re_alnum c then [c]
      else if code c = 0 then bs ''`000'' else [bslash, c]) s)"

definition literal_token :: "char \<Rightarrow> token" where
  "literal_token c = (if re_alnum c then Plain c else Escaped c)"

definition literal_items :: "string \<Rightarrow> items" where
  "literal_items w = map (\<lambda>c. (OtherItem, RChar c)) (rev w)"

definition lit :: "string \<Rightarrow> rx" where
  "lit w = foldr (\<lambda>c r. RSeq (RChar c) r) w REmpty"

lemma code_bslash [simp]: "code bslash = 92"
  by (simp add: code_def bslash_def)

lemma bslash_not_alnum [simp]: "\<not> re_alnum bslash"
  by (simp add: re_alnum_def aalpha_def adigit_def in_range_def)

lemma literal_token_cases [simp]:
  "re_alnum c \<Longrightarrow> literal_token c = Plain c"
  "\<not> re_alnum c \<Longrightarrow> literal_token c = Escaped c"
  by (simp_all add: literal_token_def)

lemma re_escape_Nil [simp]: "re_escape [] = []"
  by (simp add: re_escape_def)

lemma re_escape_Cons:
  "code c \<noteq> 0 \<Longrightarrow> re_escape (c # s) = (if re_alnum c then [c] else [bslash, c]) @ re_escape s"
  by (simp add: re_escape_def)

lemma tokens_escape:
  "list_all (\<lambda>c. code c \<noteq> 0) s \<Longrightarrow>
    tokens (re_escape s @ u) = map_option (\<lambda>ts. map literal_token s @ ts) (tokens u)"
proof (induction s)
  case (Cons c s)
  then have IH: "tokens (re_escape s @ u) = map_option (\<lambda>ts. map literal_token s @ ts) (tokens u)"
    by simp
  show ?case
  proof (cases "re_alnum c")
    case True
    then have "c \<noteq> bslash" by auto
    with True IH Cons.prems show ?thesis
      by (simp add: re_escape_Cons option.map_comp comp_def)
  next
    case False
    with IH Cons.prems show ?thesis
      by (simp add: re_escape_Cons option.map_comp comp_def)
  qed
qed (cases "tokens u", simp_all)

lemma alnum_codes:
  "re_alnum c \<longleftrightarrow> (65 \<le> code c \<and> code c \<le> 90) \<or> (97 \<le> code c \<and> code c \<le> 122) \<or> (48 \<le> code c \<and> code c \<le> 57)"
  by (simp add: re_alnum_def aalpha_def adigit_def in_range_def disj_assoc)

lemma char_eq_code: "c = d \<longleftrightarrow> code c = code d"
  by simp

lemma special_not_alnum: "list_all (\<lambda>c. \<not> re_alnum c) ''|()[*+?{.^$''"
  by code_simp

lemma escape_letters_alnum: "list_all re_alnum ''wWdDsSb0ntrfva''"
  by code_simp

lemma adigit_alnum: "adigit c \<Longrightarrow> re_alnum c"
  by (simp add: re_alnum_def)

lemma parse_literal_token:
  "parse n fr alts its (literal_token c # ts) = parse n fr alts ((OtherItem, RChar c) # its) ts"
proof (cases "re_alnum c")
  case True
  then have "c \<notin> set ''|()[*+?{.^$''"
    using special_not_alnum unfolding list_all_iff by blast
  with True show ?thesis by (simp add: parse.simps literal_token_def)
next
  case False
  then have "c \<notin> set ''wWdDsSb0ntrfva''" "\<not> adigit c"
    using escape_letters_alnum adigit_alnum [of c] unfolding list_all_iff by blast+
  then have "escape_item c = Some (OtherItem, RChar c)"
    by (simp add: control_escape_def)
  with False show ?thesis by (simp add: parse.simps literal_token_def)
qed

lemma parse_literal_tokens:
  "parse n fr alts its (map literal_token w @ ts) = parse n fr alts (literal_items w @ its) ts"
  by (induction w arbitrary: its) (simp_all add: parse_literal_token literal_items_def)

lemma mk_seq_literal_items: "mk_seq (literal_items w @ its) =
    foldl (\<lambda>r (k, x). RSeq x r) (lit w) its"
proof -
  have "foldl (\<lambda>r (k, x). RSeq x r) r (literal_items w) = foldr (\<lambda>c r. RSeq (RChar c) r) w r" for r
    by (simp add: literal_items_def rev_map [symmetric] foldl_conv_foldr foldr_map comp_def)
  then show ?thesis by (simp add: mk_seq_def lit_def)
qed

text \<open>Compiling an escaped string gives the pattern that matches exactly that string.\<close>

lemma compile_escape:
  "list_all (\<lambda>c. code c \<noteq> 0) s \<Longrightarrow> re_compile (re_escape s) = Some (lit s)"
  using tokens_escape [of s "[]"] parse_literal_tokens [of 1 "[]" "[]" "[]" s "[]"]
    mk_seq_literal_items [of s "[]"]
  by (simp add: re_compile_def parse.simps)

lemma den_lit: "(s, t) \<in> den (lit w) \<longleftrightarrow> eats w s t"
proof (induction w arbitrary: s)
  case (Cons c w)
  have "(s, t) \<in> den (lit (c # w)) \<longleftrightarrow> (\<exists>u. eats [c] s u \<and> eats w u t)"
    by (simp add: lit_def Cons.IH [unfolded lit_def] relcomp_unfold in_set_def)
  also have "\<dots> \<longleftrightarrow> eats (c # w) s t"
    by (cases s; cases t) (auto simp: eats_def)
  finally show ?case .
qed (auto simp: lit_def)

end
