(* ===== verification/RegexFacts.thy ===== *)
theory RegexFacts
  imports ReParse
begin

text \<open>
  Facts the component proofs use to reason about a pattern on an arbitrary line without
  unfolding its syntax tree: a literal that every match must contain, a search that finds
  nothing, and the shape of a match.
\<close>

subsection \<open>Literals every match contains\<close>

fun lit_prefix :: "string \<Rightarrow> rx \<Rightarrow> bool" where
  "lit_prefix [] r \<longleftrightarrow> True"
| "lit_prefix (c # w) (RSeq (RSet neg cs) r) \<longleftrightarrow> \<not> neg \<and> cs = [CChar c] \<and> lit_prefix w r"
| "lit_prefix (c # w) r \<longleftrightarrow> False"

fun requires :: "string \<Rightarrow> rx \<Rightarrow> bool" where
  "requires w (RSeq a b) \<longleftrightarrow> lit_prefix w (RSeq a b) \<or> requires w a \<or> requires w b"
| "requires w (RAlt a b) \<longleftrightarrow> requires w a \<and> requires w b"
| "requires w (RGrp k a) \<longleftrightarrow> requires w a"
| "requires w r \<longleftrightarrow> w = []"

text \<open>The text consumed between two states.\<close>

definition consumed :: "mstate \<Rightarrow> mstate \<Rightarrow> string \<Rightarrow> bool" where
  "consumed s t u \<longleftrightarrow> text_left s = u @ text_left t \<and> text_past t = rev u @ text_past s"

lemma den_consumed: "(s, t) \<in> den r \<Longrightarrow> \<exists>u. consumed s t u"
  using den_advances [of s t r] by (auto simp: advances_def consumed_def)

lemma consumed_trans: "consumed s t u \<Longrightarrow> consumed t v w \<Longrightarrow> consumed s v (u @ w)"
  by (auto simp: consumed_def)

lemma consumed_unique: "consumed s t u \<Longrightarrow> consumed s t w \<Longrightarrow> u = w"
  by (auto simp: consumed_def)

lemma lit_prefix_consumed:
  "lit_prefix w r \<Longrightarrow> (s, t) \<in> den r \<Longrightarrow> consumed s t u \<Longrightarrow> prefix w u"
proof (induction w r arbitrary: s t u rule: lit_prefix.induct)
  case (2 c w neg cs r)
  then obtain v where v: "eats [c] s v" "(v, t) \<in> den r"
    by (auto simp: in_set_def)
  from den_consumed [OF v(2)] obtain y where y: "consumed v t y" by blast
  with v(1) have "consumed s t (c # y)" by (auto simp: consumed_def eats_def)
  with 2 have "u = c # y" by (auto dest: consumed_unique)
  moreover have "prefix w y" using 2 v(2) y by auto
  ultimately show ?case by simp
qed auto

lemma sublist_appendI: "sublist w u \<or> sublist w v \<Longrightarrow> sublist w (u @ v)"
  by (auto simp: sublist_append)

lemma requires_consumed:
  "requires w r \<Longrightarrow> (s, t) \<in> den r \<Longrightarrow> consumed s t u \<Longrightarrow> sublist w u"
proof (induction w r arbitrary: s t u rule: requires.induct)
  case (1 w a b)
  show ?case
  proof (cases "lit_prefix w (RSeq a b)")
    case True
    then show ?thesis using 1 lit_prefix_consumed by blast
  next
    case False
    from "1.prems"(2) obtain v where v: "(s, v) \<in> den a" "(v, t) \<in> den b"
      by (simp add: relcomp_unfold) blast
    from den_consumed [OF v(1)] den_consumed [OF v(2)]
    obtain x y where xy: "consumed s v x" "consumed v t y" by blast
    then have u: "u = x @ y" using "1.prems"(3) consumed_trans consumed_unique by blast
    from False "1.prems"(1) consider "requires w a" | "requires w b" by auto
    then show ?thesis
    proof cases
      case 1
      then show ?thesis unfolding u using "1.IH"(1) v(1) xy(1) by (intro sublist_appendI) blast
    next
      case 2
      then show ?thesis unfolding u using "1.IH"(2) v(2) xy(2) by (intro sublist_appendI) blast
    qed
  qed
next
  case (3 w k a)
  then obtain v where v: "(s, v) \<in> den a" "text_past t = text_past v" "text_left t = text_left v"
    by auto
  with 3 show ?case by (auto simp: consumed_def)
qed auto

lemma occurs_requires: "requires w r \<Longrightarrow> occurs r s i j \<Longrightarrow> sublist w s"
proof -
  assume w: "requires w r" and "occurs r s i j"
  then obtain t where t: "(at_pos s i, t) \<in> den r" by (auto simp: occurs_def)
  from den_consumed [OF t] obtain u where u: "consumed (at_pos s i) t u" by blast
  then have "drop i s = u @ text_left t" by (simp add: consumed_def at_pos_def)
  then have "s = take i s @ u @ text_left t" by (metis append_take_drop_id)
  moreover have "sublist w u" using requires_consumed [OF w t u] .
  ultimately show ?thesis by (metis sublist_appendI)
qed

lemma search_requires: "requires w r \<Longrightarrow> rx_search r s = Some m \<Longrightarrow> sublist w s"
  using rx_searcher.srch_occ occurs_requires by blast

lemma no_search: "requires w r \<Longrightarrow> \<not> sublist w s \<Longrightarrow> rx_search r s = None"
  using search_requires by (cases "rx_search r s") auto

lemma no_Search: "requires w (rx p) \<Longrightarrow> \<not> sublist w s \<Longrightarrow> Search p s = None"
  by (simp add: Search_def no_search)

lemma match_occurs: "rx_match r s = Some m \<Longrightarrow> occurs r s 0 (m_end m) \<and> m_string m = s \<and> m_start m = 0"
proof -
  assume "rx_match r s = Some m"
  then obtain st where "st \<in> set (outs r (at_pos s 0))" "m = mk_match 0 st"
    by (auto simp: rx_match_def at_pos_def split: list.splits)
  then show ?thesis using mk_match_occurs [of st r s 0] by (simp add: mk_match_def)
qed

lemma no_Match: "requires w (rx p) \<Longrightarrow> \<not> sublist w s \<Longrightarrow> Match p s = None"
  using match_occurs occurs_requires unfolding Match_def by (metis not_None_eq)

subsection \<open>Substitution\<close>

lemma finditer_none: "rx_search r s = None \<Longrightarrow> rx_finditer r s = []"
  by (simp add: rx_finditer_def rx_search_def)

lemma sub_none: "rx_search r s = None \<Longrightarrow> rx_sub r f s = s"
  by (simp add: rx_sub_def finditer_none)

text \<open>Every constant pattern is compiled by \<open>rx\<close>; this says that it does compile.\<close>

definition compiles :: "string \<Rightarrow> bool" where
  "compiles p \<longleftrightarrow> re_compile (bs p) \<noteq> None"

subsection \<open>What a search promises\<close>

definition search_result_ok :: "string \<Rightarrow> string \<Rightarrow> rmatch option \<Rightarrow> bool" where
  "search_result_ok p s res \<longleftrightarrow>
     (case res of None \<Rightarrow> \<forall>i j. \<not> occurs (rx p) s i j
      | Some m \<Rightarrow> m_string m = s \<and> occurs (rx p) s (m_start m) (m_end m) \<and>
                  (\<forall>i j. occurs (rx p) s i j \<longrightarrow> m_start m \<le> i))"


end
