(* ===== verification/Report.thy ===== *)
theory Report
  imports RegexFacts "HOL-Library.AList"
begin

text \<open>
  The diagnostics of cpplint.py: the error categories, the module-wide state
  (\<open>_CppLintState\<close> and \<open>_error_suppressions\<close>), the filters, and \<open>Error\<close>.

  A check of the source reports by calling its argument \<open>error\<close>, and two helpers also
  change the module's state: \<open>ParseNolintSuppressions\<close> adds a suppression, and
  \<open>ParseGlobalNolintSuppressions\<close> a filter. No check reads what it reported before, so
  each is modelled as the list of its actions, in order; \<open>Raise\<close> ends the list where the
  source raises an exception. \<open>run_acts\<close> carries the actions out on the module's state.
\<close>

text \<open>The argument of \<open>sys.exit\<close>: a status, or a message to print (the status is then 1).\<close>

datatype exit_arg = ExitStatus int | ExitMessage string

datatype exn = IndexError | ValueError string | AssertionError | AttributeError | ReError
  | KeyError | SystemExit exit_arg | Diverges

text \<open>\<open>Err\<close>: file name, line, category, confidence and message of one call of \<open>error\<close>.\<close>

datatype act =
    Err string int string int string
  | Suppress "string option" int
  | AddFilter string
  | Raise exn

text \<open>
  What the program reads of its surroundings: the operating system, the file system (paths
  as byte strings, a file's decoded text), the date and the iteration order of a dict.
\<close>

record env =
  os_posix :: bool
  stderr_isatty :: bool
  getcwd :: string
  path_exists :: "string \<Rightarrow> bool"
  path_isfile :: "string \<Rightarrow> bool"
  read_header :: "string \<Rightarrow> string list option"
  read_utf8 :: "string \<Rightarrow> string option"
  read_gbk :: "string \<Rightarrow> string option"
  read_stdin :: string
  linesep :: string
  today_year :: int
  dict_order :: "string list \<Rightarrow> string list"

subsection \<open>Categories\<close>

definition ERROR_CATEGORIES :: "string list" where
  "ERROR_CATEGORIES =
    [''build/class'', ''build/deprecated'', ''build/endif_comment'', ''build/explicit_make_pair'',
     ''build/forward_decl'', ''build/header_guard'', ''build/include'', ''build/include_alpha'',
     ''build/include_order'', ''build/include_what_you_use'', ''build/namespaces'',
     ''build/printf_format'', ''build/storage_class'', ''legal/copyright'',
     ''readability/alt_tokens'', ''readability/braces'', ''readability/casting'',
     ''readability/check'', ''readability/class_name'', ''readability/constructors'',
     ''readability/fn_name'', ''readability/fn_size'', ''readability/function'',
     ''readability/multiline_comment'', ''readability/multiline_string'',
     ''readability/namespace'', ''readability/nolint'', ''readability/streams'',
     ''readability/todo'', ''readability/utf8'', ''runtime/arrays'', ''runtime/casting'',
     ''runtime/explicit'', ''runtime/int'', ''runtime/init'', ''runtime/invalid_increment'',
     ''runtime/member_string_references'', ''runtime/memset'', ''runtime/operator'',
     ''runtime/printf'', ''runtime/printf_format'', ''runtime/references'', ''runtime/rtti'',
     ''runtime/sizeof'', ''runtime/string'', ''runtime/threadsafe_fn'',
     ''whitespace/blank_line'', ''whitespace/braces'', ''whitespace/braces_pos'',
     ''whitespace/comma'', ''whitespace/comments'', ''whitespace/empty_loop_body'',
     ''whitespace/end_of_line'', ''whitespace/ending_newline'', ''whitespace/forcolon'',
     ''whitespace/indent'', ''whitespace/labels'', ''whitespace/line_length'',
     ''whitespace/newline'', ''whitespace/operators'', ''whitespace/parens'',
     ''whitespace/semicolon'', ''whitespace/tab'', ''whitespace/todo'']"

definition known_category :: "string \<Rightarrow> bool" where
  "known_category c \<longleftrightarrow> List.member ERROR_CATEGORIES c"

definition DEFAULT_FILTERS :: "string list" where
  "DEFAULT_FILTERS = [''-whitespace/braces_pos'', ''-readability/utf8'',
     ''-readability/multiline_string'', ''-readability/streams'']"

subsection \<open>The module's state\<close>

record lint_state =
  verbose_level :: int
  error_count :: nat
  filters :: "string list"
  counting :: string
  errors_by_category :: "(string \<times> nat) list"   \<comment> \<open>a dict, keys in insertion order\<close>
  quiet :: bool
  output_format :: string

definition init_lint_state :: lint_state where
  "init_lint_state = \<lparr>verbose_level = 1, error_count = 0, filters = DEFAULT_FILTERS,
     counting = ''total'', errors_by_category = [], quiet = False, output_format = ''emacs''\<rparr>"

record module_state =
  lint :: lint_state
  error_suppressions :: "string option \<rightharpoonup> int set"
  stderr :: "string list"

definition SetOutputFormat :: "string \<Rightarrow> lint_state \<Rightarrow> lint_state" where
  "SetOutputFormat f st = st\<lparr>output_format := f\<rparr>"

text \<open>Returns the previous setting with the new state.\<close>

definition SetVerboseLevel :: "int \<Rightarrow> lint_state \<Rightarrow> int \<times> lint_state" where
  "SetVerboseLevel level st = (verbose_level st, st\<lparr>verbose_level := level\<rparr>)"

definition SetCountingStyle :: "string \<Rightarrow> lint_state \<Rightarrow> lint_state" where
  "SetCountingStyle s st = st\<lparr>counting := s\<rparr>"

definition SetQuiet :: "bool \<Rightarrow> lint_state \<Rightarrow> lint_state" where
  "SetQuiet q st = st\<lparr>quiet := q\<rparr>"

definition signed_filter :: "string \<Rightarrow> bool" where
  "signed_filter f \<longleftrightarrow> startswith f ''+'' \<or> startswith f ''-''"

text \<open>
  \<open>self.filters\<close> is assigned before the filters are checked: the state after the exception
  is part of the result, \<open>Inl\<close> with the first filter that has no sign.
\<close>

definition SetFilters :: "string \<Rightarrow> lint_state \<Rightarrow> (exn \<times> lint_state) + lint_state" where
  "SetFilters flag st =
     (let fs = DEFAULT_FILTERS @ filter (\<lambda>f. f \<noteq> []) (map (strip_by aspace) (split_char CHR '','' flag));
          st' = st\<lparr>filters := fs\<rparr>
      in case filter (\<lambda>f. \<not> signed_filter f) fs of
           [] \<Rightarrow> Inr st'
         | f # _ \<Rightarrow> Inl (ValueError (''Every filter in --filters must start with + or - ('' @ f @
                           '' does not)''), st'))"

definition ResetErrorCounts :: "lint_state \<Rightarrow> lint_state" where
  "ResetErrorCounts st = st\<lparr>error_count := 0, errors_by_category := []\<rparr>"

definition count_of :: "string \<Rightarrow> (string \<times> nat) list \<Rightarrow> nat" where
  "count_of c m = (case map_of m c of None \<Rightarrow> 0 | Some n \<Rightarrow> n)"

definition count_up :: "string \<Rightarrow> (string \<times> nat) list \<Rightarrow> (string \<times> nat) list" where
  "count_up c m = AList.update c (Suc (count_of c m)) m"

definition IncrementErrorCount :: "string \<Rightarrow> lint_state \<Rightarrow> lint_state" where
  "IncrementErrorCount category st =
     (let st' = st\<lparr>error_count := Suc (error_count st)\<rparr>
      in if counting st = ''toplevel'' \<or> counting st = ''detailed''
         then let c = (if counting st \<noteq> ''detailed'' then hd (split_char CHR ''/'' category) else category)
              in st'\<lparr>errors_by_category := count_up c (errors_by_category st)\<rparr>
         else st')"

definition newline :: string where "newline = [CHR 0x0A]"

definition PrintErrorCounts :: "env \<Rightarrow> module_state \<Rightarrow> module_state" where
  \<open>PrintErrorCounts e g =
     (let m = errors_by_category (lint g);
          summary = map (\<lambda>c. ''Category '' @ squote @ c @ squote @ '' errors found: '' @
                        dec (int (count_of c m)) @ newline) (dict_order e (map fst m));
          total = emit_if (\<not> quiet (lint g))
                    [''Total errors found: '' @ dec (int (error_count (lint g))) @ newline]
      in g\<lparr>stderr := stderr g @ summary @ total\<rparr>)\<close>

subsection \<open>NOLINT\<close>

definition RE_SUPPRESSION :: string where
  "RE_SUPPRESSION = ''`bNOLINT`b(`([^)]*`))?''"

text \<open>\<open>category[1:-1]\<close>\<close>

definition strip_ends :: "'a list \<Rightarrow> 'a list" where "strip_ends s = butlast (tl s)"

definition ParseNolintSuppressions :: "string \<Rightarrow> string \<Rightarrow> int \<Rightarrow> act list" where
  "ParseNolintSuppressions filename raw_line linenum =
     (case Search RE_SUPPRESSION raw_line of None \<Rightarrow> []
      | Some matched \<Rightarrow>
          let linenum = (if startswith (strip raw_line) ''// NOLINT'' then linenum + 1 else linenum)
          in case group matched 1 of
               None \<Rightarrow> [Suppress None linenum]
             | Some category \<Rightarrow>
                 if category = ''(*)'' then [Suppress None linenum]
                 else if startswith category ''('' \<and> endswith category '')'' then
                   (if known_category (strip_ends category)
                    then [Suppress (Some (strip_ends category)) linenum]
                    else [Err filename linenum ''readability/nolint'' 5
                            (''Unknown NOLINT error category: '' @ strip_ends category)])
                 else [])"

definition ResetNolintSuppressions :: "module_state \<Rightarrow> module_state" where
  "ResetNolintSuppressions g = g\<lparr>error_suppressions := Map.empty\<rparr>"

definition suppressed_lines :: "(string option \<rightharpoonup> int set) \<Rightarrow> string option \<Rightarrow> int set" where
  "suppressed_lines m k = (case m k of None \<Rightarrow> {} | Some ls \<Rightarrow> ls)"

definition IsErrorSuppressedByNolint :: "module_state \<Rightarrow> string \<Rightarrow> int \<Rightarrow> bool" where
  "IsErrorSuppressedByNolint g category linenum \<longleftrightarrow>
     linenum \<in> suppressed_lines (error_suppressions g) (Some category) \<or>
     linenum \<in> suppressed_lines (error_suppressions g) None"

definition add_suppression :: "string option \<Rightarrow> int \<Rightarrow> module_state \<Rightarrow> module_state" where
  "add_suppression k n g =
     g\<lparr>error_suppressions := (error_suppressions g)(k \<mapsto>
        insert n (suppressed_lines (error_suppressions g) k))\<rparr>"

text \<open>
  \<open>GLOBAL_NOLINT\<close>: the loop over the lines returns at a bare one, and breaks after
  reporting an unknown category.
\<close>

definition RE_SUPPRESSION_GLOBAL :: string where
  "RE_SUPPRESSION_GLOBAL = ''`bGLOBAL_NOLINT`b(`([^)]*`))?''"

fun global_nolint_go :: "string \<Rightarrow> int \<Rightarrow> string list \<Rightarrow> act list" where
  "global_nolint_go filename linenum [] = []"
| "global_nolint_go filename linenum (line # lines) =
     (if found ''//`s*GLOBAL_NOLINT'' line then
        (case Search RE_SUPPRESSION_GLOBAL line of
           None \<Rightarrow> global_nolint_go filename (linenum + 1) lines
         | Some m \<Rightarrow>
             (case group m 1 of None \<Rightarrow> []
              | Some category \<Rightarrow>
                  if category = ''(*)'' then []
                  else if startswith category ''('' \<and> endswith category '')'' then
                    (if known_category (strip_ends category)
                     then AddFilter (''-'' @ strip_ends category) #
                            global_nolint_go filename (linenum + 1) lines
                     else [Err filename linenum ''readability/nolint'' 5
                             (''Unknown GLOBAL_NOLINT category/type: '' @ strip_ends category)])
                  else global_nolint_go filename (linenum + 1) lines))
      else global_nolint_go filename (linenum + 1) lines)"

definition ParseGlobalNolintSuppressions :: "string \<Rightarrow> string list \<Rightarrow> act list" where
  "ParseGlobalNolintSuppressions filename lines = global_nolint_go filename 0 lines"

subsection \<open>Printing an error\<close>

text \<open>The loop over the filters: the last one that fits decides; one without a sign is an assertion error.\<close>

fun filter_loop :: "string list \<Rightarrow> string \<Rightarrow> bool \<Rightarrow> exn + bool" where
  "filter_loop [] category b = Inr b"
| "filter_loop (f # fs) category b =
     (if startswith f ''-''
      then filter_loop fs category (if startswith category (tl f) then True else b)
      else if startswith f ''+''
      then filter_loop fs category (if startswith category (tl f) then False else b)
      else Inl AssertionError)"

definition ShouldPrintError :: "module_state \<Rightarrow> string \<Rightarrow> int \<Rightarrow> int \<Rightarrow> exn + bool" where
  "ShouldPrintError g category confidence linenum =
     (if IsErrorSuppressedByNolint g category linenum then Inr False
      else if confidence < verbose_level (lint g) then Inr False
      else map_sum id Not (filter_loop (filters (lint g)) category False))"

definition format_error :: "env \<Rightarrow> module_state \<Rightarrow> string \<Rightarrow> int \<Rightarrow> string \<Rightarrow> int \<Rightarrow> string \<Rightarrow> string" where
  "format_error e g filename linenum category confidence message =
     (let tail = '':  '' @ message @ ''  ['' @ category @ ''] ['' @ dec confidence @ '']''
      in if output_format (lint g) = ''vs7''
         then filename @ ''('' @ dec linenum @ '')'' @ tail @ newline
         else if os_posix e \<and> stderr_isatty e
         then [CHR 0x1B] @ ''[1;31m'' @ filename @ '':'' @ dec linenum @ tail @ [CHR 0x1B] @ ''[m'' @ newline
         else filename @ '':'' @ dec linenum @ tail @ newline)"

definition Error :: "env \<Rightarrow> string \<Rightarrow> int \<Rightarrow> string \<Rightarrow> int \<Rightarrow> string \<Rightarrow> module_state \<Rightarrow> exn + module_state" where
  "Error e filename linenum category confidence message g =
     (case ShouldPrintError g category confidence linenum of
        Inl x \<Rightarrow> Inl x
      | Inr False \<Rightarrow> Inr g
      | Inr True \<Rightarrow> Inr (g\<lparr>lint := IncrementErrorCount category (lint g),
            stderr := stderr g @ [format_error e g filename linenum category confidence message]\<rparr>))"

fun run_act :: "env \<Rightarrow> act \<Rightarrow> module_state \<Rightarrow> exn + module_state" where
  "run_act e (Err fn ln cat conf msg) g = Error e fn ln cat conf msg g"
| "run_act e (Suppress k n) g = Inr (add_suppression k n g)"
| "run_act e (AddFilter f) g = Inr (g\<lparr>lint := (lint g)\<lparr>filters := filters (lint g) @ [f]\<rparr>\<rparr>)"
| "run_act e (Raise x) g = Inl x"

fun run_list :: "('a \<Rightarrow> 'g \<Rightarrow> 'e + 'g) \<Rightarrow> 'a list \<Rightarrow> 'g \<Rightarrow> ('e \<times> 'g) + 'g" where
  "run_list f [] g = Inr g"
| "run_list f (a # as) g = (case f a g of Inl x \<Rightarrow> Inl (x, g) | Inr g' \<Rightarrow> run_list f as g')"

text \<open>An exception keeps the state it was raised in: what was printed stays printed.\<close>

definition run_acts :: "env \<Rightarrow> act list \<Rightarrow> module_state \<Rightarrow> (exn \<times> module_state) + module_state" where
  "run_acts e = run_list (run_act e)"

definition final_state :: "('e \<times> 'g) + 'g \<Rightarrow> 'g" where
  "final_state r = (case r of Inl (x, g) \<Rightarrow> g | Inr g \<Rightarrow> g)"

lemma final_state_simps [simp]: "final_state (Inl (x, g)) = g" "final_state (Inr g) = g"
  by (simp_all add: final_state_def)

lemma run_list_append:
  "run_list f (xs @ ys) g = (case run_list f xs g of Inl r \<Rightarrow> Inl r | Inr g' \<Rightarrow> run_list f ys g')"
  by (induction xs arbitrary: g) (auto split: sum.split)

subsection \<open>The interface of the state: what every action keeps\<close>

locale action_invariant =
  fixes exec :: "'a \<Rightarrow> 'g \<Rightarrow> 'e + 'g"
    and inv :: "'g \<Rightarrow> bool"
    and ok :: "'a \<Rightarrow> bool"
  assumes exec_inv: "inv g \<Longrightarrow> ok a \<Longrightarrow> exec a g = Inr g' \<Longrightarrow> inv g'"
begin

lemma run_inv: "inv g \<Longrightarrow> list_all ok as \<Longrightarrow> inv (final_state (run_list exec as g))"
  by (induction as arbitrary: g) (auto intro: exec_inv split: sum.split)

end

locale safe_actions = action_invariant +
  fixes bad :: "'c \<Rightarrow> bool"
  assumes exec_safe: "inv g \<Longrightarrow> ok a \<Longrightarrow> exec a g = Inl x \<Longrightarrow> \<not> bad x"
begin

lemma run_safe: "inv g \<Longrightarrow> list_all ok as \<Longrightarrow> run_list exec as g = Inl (x, g') \<Longrightarrow> \<not> bad x"
  by (induction as arbitrary: g) (auto intro: exec_inv dest: exec_safe split: sum.splits)

end

subsection \<open>Well-formed actions\<close>

text \<open>
  The exceptions a check can end in: an index out of a stack, a value a function refuses, and
  (no exception of Python) a loop that does not end. No assertion, no missing attribute of a
  match, no missing key of a table; and no pattern that does not compile, but for the one of
  the header guard.
\<close>

definition expected_exn :: "exn \<Rightarrow> bool" where
  "expected_exn x = (case x of IndexError \<Rightarrow> True | ValueError _ \<Rightarrow> True | Diverges \<Rightarrow> True | _ \<Rightarrow> False)"

lemma expected_exn_simps [simp]:
  "expected_exn IndexError" "expected_exn (ValueError s)" "expected_exn Diverges" "\<not> expected_exn ReError"
  "\<not> expected_exn AssertionError" "\<not> expected_exn AttributeError" "\<not> expected_exn KeyError"
  "\<not> expected_exn (SystemExit a)"
  by (simp_all add: expected_exn_def)

definition wf_act :: "act \<Rightarrow> bool" where
  "wf_act a = (case a of
      Err fn ln cat conf msg \<Rightarrow> known_category cat \<and> 0 \<le> conf \<and> conf \<le> 5
    | Suppress k n \<Rightarrow> (case k of None \<Rightarrow> True | Some c \<Rightarrow> known_category c)
    | AddFilter f \<Rightarrow> False
    | Raise x \<Rightarrow> expected_exn x)"

abbreviation wf_acts :: "act list \<Rightarrow> bool" where "wf_acts \<equiv> list_all wf_act"

definition lint_exn :: "exn \<Rightarrow> bool" where "lint_exn x \<longleftrightarrow> expected_exn x \<or> x = ReError"


lemma wf_act_simps [act_simps, simp]:
  "wf_act (Err fn ln cat conf msg) \<longleftrightarrow> known_category cat \<and> 0 \<le> conf \<and> conf \<le> 5"
  "wf_act (Suppress None n)"
  "wf_act (Suppress (Some c) n) \<longleftrightarrow> known_category c"
  "\<not> wf_act (AddFilter f)"
  "wf_act (Raise x) \<longleftrightarrow> expected_exn x"
  by (simp_all add: wf_act_def)

lemma known_categories: "list_all known_category ERROR_CATEGORIES"
  by (simp add: known_category_def list_all_iff)

lemmas known_category_simps [act_simps, simp] =
  known_categories [unfolded ERROR_CATEGORIES_def list.pred_inject]

lemma wf_ParseNolintSuppressions: "wf_acts (ParseNolintSuppressions fn raw n)"
  by (auto simp: ParseNolintSuppressions_def Let_def split: option.split)

text \<open>
  The check of the header guard may also raise the error of a pattern; the comments for a whole
  file add filters, which switch a category off.
\<close>

definition check_act :: "act \<Rightarrow> bool" where "check_act a \<longleftrightarrow> wf_act a \<or> a = Raise ReError"

definition global_act :: "act \<Rightarrow> bool" where
  "global_act a \<longleftrightarrow> wf_act a \<or> (\<exists>c. known_category c \<and> a = AddFilter (''-'' @ c))"

definition lint_act :: "act \<Rightarrow> bool" where "lint_act a \<longleftrightarrow> check_act a \<or> global_act a"

lemma acts_of_wf:
  "wf_acts as \<Longrightarrow> list_all check_act as" "wf_acts as \<Longrightarrow> list_all global_act as"
  "wf_acts as \<Longrightarrow> list_all lint_act as"
  by (auto simp: list_all_iff check_act_def global_act_def lint_act_def)

lemma lint_act_cases: "lint_act a \<Longrightarrow> global_act a \<or> a = Raise ReError"
  by (auto simp: lint_act_def check_act_def global_act_def)

lemma lint_acts_of:
  "list_all check_act as \<Longrightarrow> list_all lint_act as" "list_all global_act as \<Longrightarrow> list_all lint_act as"
  by (auto simp: list_all_iff lint_act_def)

lemma global_acts: "list_all global_act (global_nolint_go fn n lines)"
  by (induction fn n lines rule: global_nolint_go.induct)
     (auto simp: global_act_def split: option.split)

subsection \<open>Filters\<close>

text \<open>What the filters mean: the last one whose text is a prefix of the category decides.\<close>

definition filtered_out :: "string list \<Rightarrow> string \<Rightarrow> bool" where
  "filtered_out fs category \<longleftrightarrow>
     filter (\<lambda>f. prefix (tl f) category) fs \<noteq> [] \<and>
     hd (last (filter (\<lambda>f. prefix (tl f) category) fs)) = CHR ''-''"

lemma filtered_out_snoc:
  "filtered_out (fs @ [f]) category \<longleftrightarrow>
     (if prefix (tl f) category then hd f = CHR ''-'' else filtered_out fs category)"
  by (simp add: filtered_out_def)

definition verdict :: "string list \<Rightarrow> string \<Rightarrow> bool \<Rightarrow> bool" where
  "verdict fs category b =
     (if filter (\<lambda>f. prefix (tl f) category) fs = [] then b else filtered_out fs category)"

lemma verdict_simps [simp]:
  "verdict [] category b = b"
  "verdict (f # fs) category b =
     verdict fs category (if prefix (tl f) category then hd f = CHR ''-'' else b)"
  by (auto simp: verdict_def filtered_out_def split: list.split)

lemma verdict_False [simp]: "verdict fs category False = filtered_out fs category"
  by (auto simp: verdict_def filtered_out_def)

lemma signed_filter_iff: "signed_filter f \<longleftrightarrow> f \<noteq> [] \<and> (hd f = CHR ''+'' \<or> hd f = CHR ''-'')"
  by (cases f) (auto simp: signed_filter_def)

lemma filter_loop_verdict:
  "list_all signed_filter fs \<Longrightarrow> filter_loop fs category b = Inr (verdict fs category b)"
  by (induction fs arbitrary: b)
     (auto simp: signed_filter_iff startswith_iff_prefix [symmetric] neq_Nil_conv)

definition filters_signed :: "module_state \<Rightarrow> bool" where
  "filters_signed g \<longleftrightarrow> list_all signed_filter (filters (lint g))"

lemma ShouldPrintError_spec:
  "filters_signed g \<Longrightarrow> ShouldPrintError g category confidence linenum =
     Inr (\<not> IsErrorSuppressedByNolint g category linenum \<and> verbose_level (lint g) \<le> confidence \<and>
          \<not> filtered_out (filters (lint g)) category)"
  by (auto simp: ShouldPrintError_def filters_signed_def filter_loop_verdict)

lemma IncrementErrorCount_fields [simp]:
  "filters (IncrementErrorCount c st) = filters st"
  "verbose_level (IncrementErrorCount c st) = verbose_level st"
  "counting (IncrementErrorCount c st) = counting st"
  "error_count (IncrementErrorCount c st) = Suc (error_count st)"
  by (simp_all add: IncrementErrorCount_def Let_def)

interpretation signed_filters: safe_actions "run_act e" filters_signed global_act
    "\<lambda>x. \<not> expected_exn x" for e
proof
  fix g :: module_state and a g'
  assume "filters_signed g" "global_act a" "run_act e a g = Inr g'"
  then show "filters_signed g'"
    by (cases a) (auto simp: Error_def filters_signed_def add_suppression_def global_act_def signed_filter_iff
        split: sum.splits bool.splits)
next
  fix g :: module_state and a x
  assume "filters_signed g" "global_act a" "run_act e a g = Inl x"
  then show "\<not> \<not> expected_exn x"
    by (cases a) (auto simp: Error_def ShouldPrintError_spec global_act_def split: sum.splits bool.splits)
qed

interpretation linting: safe_actions "run_act e" filters_signed lint_act "\<lambda>x. \<not> lint_exn x" for e
proof
  fix g :: module_state and a g'
  assume "filters_signed g" "lint_act a" "run_act e a g = Inr g'"
  then show "filters_signed g'"
    using signed_filters.exec_inv [of g a e g'] lint_act_cases [of a] by auto
next
  fix g :: module_state and a x
  assume "filters_signed g" "lint_act a" "run_act e a g = Inl x"
  then show "\<not> \<not> lint_exn x"
    using signed_filters.exec_safe [of g a e x] lint_act_cases [of a] by (auto simp: lint_exn_def)
qed

subsection \<open>Counts\<close>

definition total_by_category :: "lint_state \<Rightarrow> nat" where
  "total_by_category st = sum_list (map snd (errors_by_category st))"

lemma sum_count_up: "sum_list (map snd (count_up c m)) = Suc (sum_list (map snd m))"
  by (induction m) (auto simp: count_up_def count_of_def)

definition counts_agree :: "module_state \<Rightarrow> bool" where
  "counts_agree g \<longleftrightarrow> (counting (lint g) \<in> {''toplevel'', ''detailed''} \<longrightarrow>
     total_by_category (lint g) = error_count (lint g))"

lemma counts_agree_Increment:
  assumes "counting st \<in> {''toplevel'', ''detailed''} \<longrightarrow> total_by_category st = error_count st"
  shows "counting (IncrementErrorCount c st) \<in> {''toplevel'', ''detailed''} \<longrightarrow>
    total_by_category (IncrementErrorCount c st) = error_count (IncrementErrorCount c st)"
  using assms by (auto simp: IncrementErrorCount_def Let_def total_by_category_def sum_count_up)

interpretation counting: action_invariant "run_act e" counts_agree "\<lambda>_. True" for e
proof
  fix g :: module_state and a g'
  assume "counts_agree g" "run_act e a g = Inr g'"
  then show "counts_agree g'"
    using counts_agree_Increment [of "lint g"]
    by (cases a)
       (auto simp: Error_def counts_agree_def add_suppression_def total_by_category_def
          split: sum.splits bool.splits)
qed

definition printed_since :: "module_state \<Rightarrow> module_state \<Rightarrow> nat" where
  "printed_since g g' = length (stderr g') - length (stderr g)"

definition counts_printed :: "module_state \<Rightarrow> module_state \<Rightarrow> bool" where
  "counts_printed g g' \<longleftrightarrow> length (stderr g) \<le> length (stderr g') \<and>
     error_count (lint g') = error_count (lint g) + printed_since g g'"

interpretation printed: action_invariant "run_act e" "counts_printed g0" "\<lambda>_. True" for e g0
proof
  fix g :: module_state and a g'
  assume "counts_printed g0 g" "run_act e a g = Inr g'"
  then show "counts_printed g0 g'"
    by (cases a)
       (auto simp: Error_def counts_printed_def printed_since_def add_suppression_def
          split: sum.splits bool.splits)
qed

subsection \<open>What the reporting guarantees\<close>

lemma run_acts_Nil [simp]: "run_acts e [] g = Inr g"
  by (simp add: run_acts_def)

lemma IsErrorSuppressed_add [simp]:
  "IsErrorSuppressedByNolint (add_suppression k n g) c m \<longleftrightarrow>
     IsErrorSuppressedByNolint g c m \<or> (m = n \<and> (k = None \<or> k = Some c))"
  by (auto simp: IsErrorSuppressedByNolint_def add_suppression_def suppressed_lines_def)

lemma Error_keeps_suppressions:
  "Error e fn ln cat conf msg g = Inr g' \<Longrightarrow> error_suppressions g' = error_suppressions g"
  by (auto simp: Error_def split: sum.splits bool.splits)

text \<open>What a NOLINT comment on a line says, read off the line alone.\<close>

definition nolint_covers :: "string \<Rightarrow> int \<Rightarrow> string \<Rightarrow> int \<Rightarrow> bool" where
  "nolint_covers raw_line linenum c n \<longleftrightarrow>
     (case Search RE_SUPPRESSION raw_line of None \<Rightarrow> False
      | Some m \<Rightarrow>
          n = (if startswith (strip raw_line) ''// NOLINT'' then linenum + 1 else linenum) \<and>
          (case group m 1 of None \<Rightarrow> True
           | Some cat \<Rightarrow> cat = ''(*)'' \<or> (cat = ''('' @ c @ '')'' \<and> known_category c)))"

lemma parens_strip_ends:
  "startswith cat ''('' \<and> endswith cat '')'' \<and> known_category (strip_ends cat) \<Longrightarrow>
     cat = ''('' @ strip_ends cat @ '')''"
proof -
  assume a: "startswith cat ''('' \<and> endswith cat '')'' \<and> known_category (strip_ends cat)"
  then obtain u where u: "cat = CHR ''('' # u" by (auto simp: startswith_iff_prefix prefix_def)
  moreover from a obtain v where "cat = v @ '')''" by (auto simp: endswith_iff_suffix suffix_def)
  ultimately obtain w where "cat = ''('' @ w @ '')''" by (cases v) auto
  then show ?thesis by (simp add: strip_ends_def butlast_append)
qed

lemma strip_ends_parens [simp]: "strip_ends (CHR ''('' # c @ '')'') = c"
  by (simp add: strip_ends_def)

lemma known_category_not_star [simp]: "\<not> known_category ''*''"
  by code_simp

text \<open>C7: an error is printed exactly when no NOLINT covers its line, its confidence reaches the verbosity, and the last filter whose text is a prefix of its category does not start with a minus.\<close>

theorem ShouldPrintError_verdict:
  assumes "list_all signed_filter (filters (lint g))"
  shows "ShouldPrintError g category confidence linenum =
    Inr (\<not> IsErrorSuppressedByNolint g category linenum \<and> verbose_level (lint g) \<le> confidence \<and>
         \<not> filtered_out (filters (lint g)) category)"
  using assms by (simp add: ShouldPrintError_spec filters_signed_def)

lemma ShouldPrintError_verdict_witness:
  "ShouldPrintError \<lparr>lint = init_lint_state\<lparr>filters := [''-whitespace'', ''+whitespace/braces'']\<rparr>,
      error_suppressions = Map.empty, stderr = []\<rparr> ''whitespace/braces'' 4 7 = Inr True"
  by (subst ShouldPrintError_verdict)
     (simp_all add: init_lint_state_def signed_filter_def filtered_out_def
        IsErrorSuppressedByNolint_def suppressed_lines_def)

text \<open>C34: \<open>SetFilters\<close> raises \<open>ValueError\<close> exactly when some non-empty comma-separated part of the flag, stripped, has no sign; otherwise the default filters are followed by those parts in order.\<close>

theorem SetFilters_outcome:
  "SetFilters flag st =
     (let parts = filter (\<lambda>f. f \<noteq> []) (map (strip_by aspace) (split_char CHR '','' flag));
          st' = st\<lparr>filters := DEFAULT_FILTERS @ parts\<rparr>
      in case List.find (\<lambda>f. hd f \<noteq> CHR ''+'' \<and> hd f \<noteq> CHR ''-'') parts of
           None \<Rightarrow> Inr st'
         | Some f \<Rightarrow> Inl (ValueError (''Every filter in --filters must start with + or - ('' @ f @
                          '' does not)''), st'))"
proof -
  have find: "List.find P xs = (case filter P xs of [] \<Rightarrow> None | x # _ \<Rightarrow> Some x)" for P and xs :: "string list"
    by (induction xs) auto
  have "filter (\<lambda>f. \<not> signed_filter f) DEFAULT_FILTERS = []"
    by (simp add: DEFAULT_FILTERS_def signed_filter_def)
  moreover have "filter (\<lambda>f. \<not> signed_filter f) (filter (\<lambda>f. f \<noteq> []) xs) =
      filter (\<lambda>f. hd f \<noteq> CHR ''+'' \<and> hd f \<noteq> CHR ''-'') (filter (\<lambda>f. f \<noteq> []) xs)" for xs
    by (rule filter_cong) (auto simp: signed_filter_iff)
  ultimately show ?thesis
    by (simp add: SetFilters_def Let_def find split: list.split)
qed

text \<open>C23: whatever a run reports, and even when it ends in an exception, the error count has grown by exactly the number of lines printed.\<close>

theorem errors_counted_are_printed: "counts_printed g (final_state (run_acts e as g))"
proof -
  have "counts_printed g g" by (simp add: counts_printed_def printed_since_def)
  moreover have "list_all (\<lambda>_. True) as" by (simp add: list.pred_True)
  ultimately show ?thesis unfolding run_acts_def by (rule printed.run_inv)
qed

lemma nolint_exact:
  assumes "filters_signed g"
  shows "IsErrorSuppressedByNolint (final_state (run_acts e (ParseNolintSuppressions fn raw ln) g)) c n
    \<longleftrightarrow> IsErrorSuppressedByNolint g c n \<or> nolint_covers raw ln c n"
proof (cases "Search RE_SUPPRESSION raw")
  case None
  then show ?thesis by (simp add: ParseNolintSuppressions_def nolint_covers_def)
next
  case (Some m)
  have err: "IsErrorSuppressedByNolint (final_state (run_acts e [Err f l k q t] g)) c n =
      IsErrorSuppressedByNolint g c n" for f l k q t
    by (simp add: run_acts_def IsErrorSuppressedByNolint_def split: sum.split)
       (auto dest: Error_keeps_suppressions)
  have sup: "final_state (run_acts e [Suppress k l] g) = add_suppression k l g" for k l
    by (simp add: run_acts_def)
  show ?thesis
    using parens_strip_ends
    by (cases "group m 1")
       (auto simp: Some ParseNolintSuppressions_def nolint_covers_def err sup Let_def startswith_iff_prefix
         endswith_iff_suffix suffix_def)
qed

text \<open>C10: after a line's NOLINT comment is parsed, an error is suppressed exactly when it was before or the comment covers it: on its own line, or on the next when the comment starts the line, for the named known category or for every category.\<close>

theorem ParseNolintSuppressions_exact:
  assumes "filters_signed g"
  shows "IsErrorSuppressedByNolint (final_state (run_acts e (ParseNolintSuppressions fn raw ln) g)) c n
    \<longleftrightarrow> IsErrorSuppressedByNolint g c n \<or> nolint_covers raw ln c n"
  using assms by (rule nolint_exact)

lemma ParseNolintSuppressions_exact_witness:
  "\<forall>e. IsErrorSuppressedByNolint (final_state (run_acts e (ParseNolintSuppressions ''a.cc'' ''int x; // NOLINT'' 3)
      \<lparr>lint = init_lint_state, error_suppressions = Map.empty, stderr = []\<rparr>)) ''runtime/int'' 3"
proof -
  have "nolint_covers ''int x; // NOLINT'' 3 ''runtime/int'' 3" by code_simp
  moreover have "filters_signed \<lparr>lint = init_lint_state, error_suppressions = Map.empty, stderr = []\<rparr>"
    by (simp add: filters_signed_def init_lint_state_def DEFAULT_FILTERS_def signed_filter_def)
  ultimately show ?thesis by (auto simp: ParseNolintSuppressions_exact)
qed

end
