(* ===== verification/Cleanse.thy ===== *)
theory Cleanse
  imports Report
begin

text \<open>
  From the lines of a file to \<open>CleansedLines\<close>: clearing multi-line comments, removing
  single-line comments, collapsing strings, and finding the end of a bracketed expression.
\<close>

subsection \<open>Strings and comments on one line\<close>

definition RE_PATTERN_CLEANSE_LINE_ESCAPES :: string where
  \<open>RE_PATTERN_CLEANSE_LINE_ESCAPES = ''``([abfnrtv?"```']|`d+|x[0-9a-fA-F]+)''\<close>

definition RE_PATTERN_CLEANSE_LINE_DOUBLE_QUOTES :: string where
  \<open>RE_PATTERN_CLEANSE_LINE_DOUBLE_QUOTES = ''"[^"]*"''\<close>

definition RE_PATTERN_CLEANSE_LINE_SINGLE_QUOTES :: string where
  \<open>RE_PATTERN_CLEANSE_LINE_SINGLE_QUOTES = squote @ ''.'' @ squote\<close>

text \<open>Compiled with \<open>re.VERBOSE\<close>: the whitespace between the alternatives is not part of it.\<close>

definition RE_PATTERN_CLEANSE_LINE_C_COMMENTS :: string where
  \<open>RE_PATTERN_CLEANSE_LINE_C_COMMENTS =
     ''(`s*/`*.*`*/`s*$|            /`*.*`*/`s+|         `s+/`*.*`*/(?=`W)|            /`*.*`*/)''\<close>

definition rx_verbose :: "string \<Rightarrow> rx" where
  "rx_verbose p = (case re_compile (verbose (bs p)) of None \<Rightarrow> never_rx | Some r \<Rightarrow> r)"

definition RE_PATTERN_INCLUDE :: string where
  \<open>RE_PATTERN_INCLUDE = ''^`s*#`s*include`s*([<"])([^>"]*)[>"].*$''\<close>

definition IsCppString :: "string \<Rightarrow> bool" where
  \<open>IsCppString line =
     (let line = replace line (bs ''``'') ''XX''
      in odd (int (count_sub line ''"'') - int (count_sub line (bs ''`"''))
              - int (count_sub line (squote @ ''"'' @ squote))))\<close>

definition CleanseComments :: "string \<Rightarrow> string" where
  "CleanseComments line =
     (let commentpos = find line ''//'';
          head_part = take (nat commentpos) line;
          line = (if commentpos \<noteq> -1 \<and> \<not> IsCppString head_part then rstrip head_part else line)
      in rx_sub (rx_verbose RE_PATTERN_CLEANSE_LINE_C_COMMENTS) (\<lambda>_. []) line)"

definition CollapseStrings :: "string \<Rightarrow> string" where
  \<open>CollapseStrings elided =
     (if matches RE_PATTERN_INCLUDE elided then elided
      else let elided = rx_sub (rx RE_PATTERN_CLEANSE_LINE_ESCAPES) (\<lambda>_. []) elided;
               elided = rx_sub (rx RE_PATTERN_CLEANSE_LINE_SINGLE_QUOTES) (\<lambda>_. squote @ squote) elided
           in rx_sub (rx RE_PATTERN_CLEANSE_LINE_DOUBLE_QUOTES) (\<lambda>_. ''""'') elided)\<close>

subsection \<open>Comments over several lines\<close>

function FindNextMultiLineCommentStart :: "string list \<Rightarrow> nat \<Rightarrow> nat" where
  "FindNextMultiLineCommentStart lines lineix =
     (if lineix < length lines
      then (if startswith (strip (lines ! lineix)) ''/*'' \<and>
               find_from (strip (lines ! lineix)) ''*/'' 2 < 0
            then lineix
            else FindNextMultiLineCommentStart lines (lineix + 1))
      else length lines)"
  by pat_completeness auto
termination
  by (relation "measure (\<lambda>(lines, lineix). length lines - lineix)") auto

function FindNextMultiLineCommentEnd :: "string list \<Rightarrow> nat \<Rightarrow> nat" where
  "FindNextMultiLineCommentEnd lines lineix =
     (if lineix < length lines
      then (if endswith (strip (lines ! lineix)) ''*/'' then lineix
            else FindNextMultiLineCommentEnd lines (lineix + 1))
      else length lines)"
  by pat_completeness auto
termination
  by (relation "measure (\<lambda>(lines, lineix). length lines - lineix)") auto

declare FindNextMultiLineCommentStart.simps [simp del]
declare FindNextMultiLineCommentEnd.simps [simp del]

definition dummy_line :: string where "dummy_line = ''// dummy''"

definition RemoveMultiLineCommentsFromRange :: "string list \<Rightarrow> nat \<Rightarrow> nat \<Rightarrow> string list" where
  "RemoveMultiLineCommentsFromRange lines begin_ix end_ix =
     foldl (\<lambda>ls i. ls[i := dummy_line]) lines [begin_ix..<end_ix]"

lemma length_foldl_update [simp]: "length (foldl (\<lambda>ls i. ls[i := d]) xs is) = length xs"
  by (induction "is" arbitrary: xs) auto

lemma length_RemoveRange [simp]:
  "length (RemoveMultiLineCommentsFromRange lines b e) = length lines"
  by (simp add: RemoveMultiLineCommentsFromRange_def)

lemma FindStart_ge: "k \<le> length lines \<Longrightarrow> k \<le> FindNextMultiLineCommentStart lines k"
proof (induction lines k rule: FindNextMultiLineCommentStart.induct)
  case (1 lines k)
  then show ?case by (subst FindNextMultiLineCommentStart.simps) auto
qed

lemma FindEnd_ge: "k \<le> length lines \<Longrightarrow> k \<le> FindNextMultiLineCommentEnd lines k"
proof (induction lines k rule: FindNextMultiLineCommentEnd.induct)
  case (1 lines k)
  then show ?case by (subst FindNextMultiLineCommentEnd.simps) auto
qed

text \<open>The loop of \<open>RemoveMultiLineComments\<close>: the actions and the lines it leaves.\<close>

function remove_comments_from :: "string \<Rightarrow> string list \<Rightarrow> nat \<Rightarrow> act list \<times> string list" where
  "remove_comments_from filename lines lineix =
     (if lineix < length lines
      then let b = FindNextMultiLineCommentStart lines lineix
           in if length lines \<le> b then ([], lines)
              else let e = FindNextMultiLineCommentEnd lines b
                   in if length lines \<le> e
                      then ([Err filename (int b + 1) ''readability/multiline_comment'' 5
                              ''Could not find end of multi-line comment''], lines)
                      else remove_comments_from filename
                             (RemoveMultiLineCommentsFromRange lines b (e + 1)) (e + 1)
      else ([], lines))"
  by pat_completeness auto
termination
proof (relation "measure (\<lambda>(fn, lines, k). length lines - k)", goal_cases)
  case (2 fn lines k b e)
  then have "k \<le> b" using FindStart_ge [of k lines] by simp
  also have "b \<le> e" using 2 FindEnd_ge [of b lines] by simp
  finally show ?case using 2 by simp
qed simp

declare remove_comments_from.simps [simp del]

definition RemoveMultiLineComments :: "string \<Rightarrow> string list \<Rightarrow> act list \<times> string list" where
  "RemoveMultiLineComments filename lines = remove_comments_from filename lines 0"

subsection \<open>CleansedLines\<close>

record cleansed_lines =
  elided :: "string list"
  code_lines :: "string list"   \<comment> \<open>the member \<open>lines\<close> of the source\<close>
  raw_lines :: "string list"
  num_lines :: nat

definition CleansedLines :: "string list \<Rightarrow> cleansed_lines" where
  "CleansedLines lines =
     \<lparr>elided = map (\<lambda>l. CleanseComments (CollapseStrings l)) lines,
      code_lines = map CleanseComments lines,
      raw_lines = lines, num_lines = length lines\<rparr>"

abbreviation NumLines :: "cleansed_lines \<Rightarrow> nat" where "NumLines \<equiv> num_lines"

subsection \<open>The end of an expression\<close>

fun find_end_go :: "nat \<Rightarrow> int \<Rightarrow> char \<Rightarrow> char \<Rightarrow> string \<Rightarrow> int" where
  "find_end_go i depth startchar endchar [] = -1"
| "find_end_go i depth startchar endchar (c # s) =
     (if c = startchar then find_end_go (i + 1) (depth + 1) startchar endchar s
      else if c = endchar
      then (if depth - 1 = 0 then int (i + 1) else find_end_go (i + 1) (depth - 1) startchar endchar s)
      else find_end_go (i + 1) depth startchar endchar s)"

definition FindEndOfExpressionInLine :: "string \<Rightarrow> nat \<Rightarrow> int \<Rightarrow> char \<Rightarrow> char \<Rightarrow> int" where
  "FindEndOfExpressionInLine line startpos depth startchar endchar =
     find_end_go startpos depth startchar endchar (drop startpos line)"

definition closing_char :: "char \<Rightarrow> char option" where
  "closing_char c = (if c = CHR ''('' then Some CHR '')'' else if c = CHR ''['' then Some CHR '']''
     else if c = CHR ''{'' then Some CHR ''}'' else None)"

function close_loop :: "cleansed_lines \<Rightarrow> char \<Rightarrow> char \<Rightarrow> nat \<Rightarrow> int \<Rightarrow> string \<times> nat \<times> int" where
  "close_loop clean startchar endchar linenum num_open =
     (if linenum + 1 < NumLines clean
      then let line = elided clean ! (linenum + 1);
               delta = int (count_list line startchar) - int (count_list line endchar)
           in if num_open + delta \<le> 0
              then (line, linenum + 1, FindEndOfExpressionInLine line 0 num_open startchar endchar)
              else close_loop clean startchar endchar (linenum + 1) (num_open + delta)
      else (elided clean ! linenum, NumLines clean, -1))"
  by pat_completeness auto
termination
  by (relation "measure (\<lambda>(clean, a, b, n, k). NumLines clean - n)") auto

declare close_loop.simps [simp del]

text \<open>\<open>Inl IndexError\<close> when the position is not one of the text.\<close>

definition CloseExpression :: "cleansed_lines \<Rightarrow> nat \<Rightarrow> nat \<Rightarrow> exn + string \<times> nat \<times> int" where
  "CloseExpression clean linenum pos =
     (if NumLines clean \<le> linenum \<or> length (elided clean ! linenum) \<le> pos then Inl IndexError
      else let line = elided clean ! linenum; startchar = line ! pos
           in case closing_char startchar of
                None \<Rightarrow> Inr (line, NumLines clean, -1)
              | Some endchar \<Rightarrow>
                  let end_pos = FindEndOfExpressionInLine line pos 0 startchar endchar;
                      tail = drop pos line
                  in if -1 < end_pos then Inr (line, linenum, end_pos)
                     else Inr (close_loop clean startchar endchar linenum
                            (int (count_list tail startchar) - int (count_list tail endchar))))"

subsection \<open>Facts: comments on one line\<close>

lemma requires_c_comment: "requires ''/*'' (rx_verbose RE_PATTERN_CLEANSE_LINE_C_COMMENTS)"
  by code_simp

lemma CleanseComments_plain:
  "\<not> sublist ''//'' line \<Longrightarrow> \<not> sublist ''/*'' line \<Longrightarrow> CleanseComments line = line"
  by (simp add: CleanseComments_def find_neg_iff sub_none no_search [OF requires_c_comment])

subsection \<open>Facts: comments over several lines\<close>

definition opens_comment :: "string \<Rightarrow> bool" where
  "opens_comment l \<longleftrightarrow> startswith (strip l) ''/*'' \<and> find_from (strip l) ''*/'' 2 < 0"

lemma not_opens_dummy [simp]: "\<not> opens_comment dummy_line"
  by code_simp

lemma FindStart_unfold:
  "FindNextMultiLineCommentStart lines k =
     (if k < length lines
      then if opens_comment (lines ! k) then k else FindNextMultiLineCommentStart lines (k + 1)
      else length lines)"
  unfolding opens_comment_def by (rule FindNextMultiLineCommentStart.simps)

lemma FindStart_spec:
  assumes "k \<le> length lines" and b: "b = FindNextMultiLineCommentStart lines k"
  shows "k \<le> b \<and> b \<le> length lines \<and> (\<forall>i. k \<le> i \<and> i < b \<longrightarrow> \<not> opens_comment (lines ! i)) \<and>
    (b < length lines \<longrightarrow> opens_comment (lines ! b))"
  using assms
proof (induction lines k arbitrary: b rule: FindNextMultiLineCommentStart.induct)
  case (1 lines k)
  show ?case
  proof (cases "k < length lines \<and> \<not> opens_comment (lines ! k)")
    case True
    then have b: "b = FindNextMultiLineCommentStart lines (k + 1)"
      using "1.prems"(2) FindStart_unfold [of lines k] by simp
    have
      IH: "k + 1 \<le> b \<and> b \<le> length lines \<and> (\<forall>i. k + 1 \<le> i \<and> i < b \<longrightarrow> \<not> opens_comment (lines ! i)) \<and>
        (b < length lines \<longrightarrow> opens_comment (lines ! b))"
      by (rule "1.IH") (use True b in \<open>auto simp: opens_comment_def\<close>)
    have "\<not> opens_comment (lines ! i)" if "k \<le> i" "i < b" for i
      using True IH that by (cases "i = k") auto
    with IH show ?thesis by simp
  next
    case False
    then have "b = k"
      using "1.prems"(2) "1.prems"(1) FindStart_unfold [of lines k] by (simp split: if_splits)
    with False "1.prems" show ?thesis by auto
  qed
qed

lemma FindEnd_bound: "k \<le> length lines \<Longrightarrow> FindNextMultiLineCommentEnd lines k \<le> length lines"
proof (induction lines k rule: FindNextMultiLineCommentEnd.induct)
  case (1 lines k)
  then show ?case by (subst FindNextMultiLineCommentEnd.simps) auto
qed

lemma foldl_update_nth:
  "k < length xs \<Longrightarrow> foldl (\<lambda>ls i. ls[i := d]) xs is ! k = (if k \<in> set is then d else xs ! k)"
  by (induction "is" arbitrary: xs) auto

lemma RemoveRange_nth:
  "k < length lines \<Longrightarrow> RemoveMultiLineCommentsFromRange lines b e ! k =
     (if b \<le> k \<and> k < e then dummy_line else lines ! k)"
  by (simp add: RemoveMultiLineCommentsFromRange_def foldl_update_nth)

lemma length_remove_comments_from [simp]: "length (snd (remove_comments_from fn lines k)) = length lines"
proof (induction fn lines k rule: remove_comments_from.induct)
  case (1 fn lines k)
  then show ?case by (subst remove_comments_from.simps) (auto simp: Let_def)
qed

lemma remove_comments_from_nth:
  "i < length lines \<Longrightarrow> snd (remove_comments_from fn lines k) ! i \<in> {lines ! i, dummy_line}"
proof (induction fn lines k rule: remove_comments_from.induct)
  case (1 fn lines k)
  let ?b = "FindNextMultiLineCommentStart lines k"
  let ?e = "FindNextMultiLineCommentEnd lines ?b"
  let ?lines = "RemoveMultiLineCommentsFromRange lines ?b (?e + 1)"
  show ?case
  proof (cases "k < length lines \<and> ?b < length lines \<and> ?e < length lines")
    case True
    then have step: "remove_comments_from fn lines k = remove_comments_from fn ?lines (?e + 1)"
      by (subst remove_comments_from.simps) (simp add: Let_def)
    have "snd (remove_comments_from fn ?lines (?e + 1)) ! i \<in> {?lines ! i, dummy_line}"
      using "1.IH" [of ?b ?e] True "1.prems" by simp
    moreover have "?lines ! i \<in> {lines ! i, dummy_line}"
      using "1.prems" by (simp add: RemoveRange_nth)
    ultimately show ?thesis unfolding step by auto
  next
    case False
    then have "snd (remove_comments_from fn lines k) = lines"
      by (subst remove_comments_from.simps) (auto simp: Let_def)
    then show ?thesis by simp
  qed
qed

text \<open>When no error is reported, no line still opens a comment.\<close>

lemma remove_comments_from_clean:
  "(\<forall>i<k. i < length lines \<longrightarrow> \<not> opens_comment (lines ! i)) \<Longrightarrow>
   remove_comments_from fn lines k = ([], lines') \<Longrightarrow> list_all (\<lambda>l. \<not> opens_comment l) lines'"
proof (induction fn lines k rule: remove_comments_from.induct)
  case (1 fn lines k)
  let ?b = "FindNextMultiLineCommentStart lines k"
  let ?e = "FindNextMultiLineCommentEnd lines ?b"
  let ?lines = "RemoveMultiLineCommentsFromRange lines ?b (?e + 1)"
  show ?case
  proof (cases "k < length lines")
    case False
    with "1.prems" have "lines' = lines" by (subst (asm) remove_comments_from.simps) auto
    with False "1.prems"(1) show ?thesis by (simp add: list_all_length)
  next
    case k: True
    note b = FindStart_spec [of k lines ?b]
    show ?thesis
    proof (cases "?b < length lines")
      case False
      with k "1.prems"(2) have "lines' = lines"
        by (subst (asm) remove_comments_from.simps) (simp add: Let_def)
      moreover have "\<not> opens_comment (lines ! i)" if "i < length lines" for i
        using b k False "1.prems"(1) that by (meson leI less_imp_le_nat order_less_le_trans)
      ultimately show ?thesis by (simp add: list_all_length)
    next
      case True
      with k "1.prems"(2) have e: "?e < length lines"
        and step: "remove_comments_from fn ?lines (?e + 1) = ([], lines')"
        by (subst (asm) remove_comments_from.simps, auto simp: Let_def split: if_splits)+
      have "?b \<le> ?e" using FindEnd_ge [of ?b lines] True by simp
      have "\<not> opens_comment (?lines ! i)" if "i < ?e + 1" "i < length ?lines" for i
        using that b k True "1.prems"(1) by (auto simp: RemoveRange_nth not_le)
           (meson leI less_imp_le_nat)
      with "1.IH" [of ?b ?e] k True e step show ?thesis by simp
    qed
  qed
qed

lemma remove_comments_fixpoint:
  assumes "list_all (\<lambda>l. \<not> opens_comment l) lines"
  shows "remove_comments_from fn lines k = ([], lines)"
proof (cases "k < length lines")
  case True
  then have "FindNextMultiLineCommentStart lines k = length lines"
    using FindStart_spec [of k lines] assms by (metis less_imp_le_nat linorder_le_less_linear list_all_length order_antisym_conv)
  with True show ?thesis by (subst remove_comments_from.simps) (simp add: Let_def)
qed (subst remove_comments_from.simps, simp)

lemma wf_remove_comments_from: "wf_acts (fst (remove_comments_from fn lines k))"
proof (induction fn lines k rule: remove_comments_from.induct)
  case (1 fn lines k)
  then show ?case by (subst remove_comments_from.simps) (auto simp: Let_def)
qed

subsection \<open>Facts: the end of an expression\<close>

text \<open>Opening minus closing characters of a text.\<close>

definition balance :: "char \<Rightarrow> char \<Rightarrow> string \<Rightarrow> int" where
  "balance s e xs = int (count_list xs s) - int (count_list xs e)"

lemma balance_simps [simp]:
  "balance s e [] = 0"
  "balance s e (xs @ ys) = balance s e xs + balance s e ys"
  "s \<noteq> e \<Longrightarrow> balance s e (x # xs) = (if x = s then 1 else if x = e then -1 else 0) + balance s e xs"
  by (auto simp: balance_def)

text \<open>
  The scan of one line stops just behind the first character at which the depth is zero
  again, and reports \<open>-1\<close> when there is none.
\<close>

lemma find_end_go_spec:
  assumes "s \<noteq> e" "0 < d"
  shows "(find_end_go i d s e xs = -1 \<and> (\<forall>j\<le>length xs. 0 < d + balance s e (take j xs))) \<or>
    (\<exists>k<length xs. find_end_go i d s e xs = int (i + k + 1) \<and> d + balance s e (take (Suc k) xs) = 0 \<and>
       xs ! k = e \<and> (\<forall>j\<le>k. 0 < d + balance s e (take j xs)))"
  using assms
proof (induction xs arbitrary: i d)
  case Nil
  then show ?case by simp
next
  case (Cons x xs)
  let ?d = "d + (if x = s then 1 else if x = e then -1 else 0)"
  have take: "d + balance s e (take j (x # xs)) = (if j = 0 then d else ?d + balance s e (take (j - 1) xs))" for j
    using Cons.prems by (cases j) auto
  show ?case
  proof (cases "?d = 0")
    case True
    then have "find_end_go i d s e (x # xs) = int (i + 0 + 1)" "x = e" "x \<noteq> s"
      using Cons.prems by (auto split: if_splits)
    moreover have "0 < length (x # xs) \<and> d + balance s e (take (Suc 0) (x # xs)) = 0 \<and>
        (\<forall>j\<le>0. 0 < d + balance s e (take j (x # xs)))"
      using True Cons.prems unfolding take by simp
    ultimately show ?thesis by (metis nth_Cons_0)
  next
    case False
    then have d: "0 < ?d" using Cons.prems by (auto split: if_splits)
    have step: "find_end_go i d s e (x # xs) = find_end_go (i + 1) ?d s e xs"
      using False Cons.prems by (auto split: if_splits)
    from Cons.IH [OF Cons.prems(1) d, of "i + 1"] consider
      (none) "find_end_go (i + 1) ?d s e xs = -1" "\<forall>j\<le>length xs. 0 < ?d + balance s e (take j xs)"
    | (some) k where "k < length xs" "find_end_go (i + 1) ?d s e xs = int (i + 1 + k + 1)"
        "?d + balance s e (take (Suc k) xs) = 0" "xs ! k = e" "\<forall>j\<le>k. 0 < ?d + balance s e (take j xs)"
      by blast
    then show ?thesis
    proof cases
      case none
      have "\<forall>j\<le>length (x # xs). 0 < d + balance s e (take j (x # xs))"
        unfolding take using none(2) Cons.prems by auto
      with none step show ?thesis by simp
    next
      case some
      have "\<forall>j\<le>Suc k. 0 < d + balance s e (take j (x # xs))"
        unfolding take using some(5) Cons.prems by auto
      moreover have "d + balance s e (take (Suc (Suc k)) (x # xs)) = 0"
        unfolding take using some(3) by simp
      ultimately show ?thesis using some step
        by (intro disjI2 exI [of _ "Suc k"]) simp
    qed
  qed
qed

definition wf_lines :: "cleansed_lines \<Rightarrow> bool" where
  "wf_lines clean \<longleftrightarrow> length (elided clean) = num_lines clean \<and>
     length (code_lines clean) = num_lines clean \<and> length (raw_lines clean) = num_lines clean"

lemma wf_CleansedLines [simp]: "wf_lines (CleansedLines lines)"
  by (simp add: wf_lines_def CleansedLines_def)

text \<open>The text from a position up to a position on the same or a later line.\<close>

definition spanned :: "cleansed_lines \<Rightarrow> nat \<Rightarrow> nat \<Rightarrow> nat \<Rightarrow> nat \<Rightarrow> string" where
  "spanned clean n i m j =
     (if n = m then drop i (take j (elided clean ! n))
      else drop i (elided clean ! n) @ concat (map ((!) (elided clean)) [n + 1..<m]) @ take j (elided clean ! m))"

lemma close_loop_spec:
  assumes "s \<noteq> e" "0 < k" "n < NumLines clean" "wf_lines clean"
    and "close_loop clean s e n k = (line, m, p)"
  shows "(p = -1 \<and> m = NumLines clean) \<or>
    (n < m \<and> m < NumLines clean \<and> line = elided clean ! m \<and> 0 < p \<and> p \<le> int (length line) \<and>
     line ! (nat p - 1) = e \<and>
     k + balance s e (concat (map ((!) (elided clean)) [n + 1..<m]) @ take (nat p) line) = 0)"
  using assms
proof (induction clean s e n k rule: close_loop.induct)
  case (1 clean s e n k)
  let ?line = "elided clean ! (n + 1)"
  let ?delta = "int (count_list ?line s) - int (count_list ?line e)"
  show ?case
  proof (cases "n + 1 < NumLines clean")
    case False
    then show ?thesis using "1.prems"(5) close_loop.simps [of clean s e n k] by simp
  next
    case more: True
    show ?thesis
    proof (cases "k + ?delta \<le> 0")
      case True
      then have r: "line = ?line" "m = n + 1" "p = FindEndOfExpressionInLine ?line 0 k s e"
        using more "1.prems"(5) close_loop.simps [of clean s e n k] by (auto simp: Let_def)
      from True have "\<not> 0 < k + balance s e (take (length ?line) ?line)" by (simp add: balance_def)
      then have "\<exists>j\<le>length ?line. \<not> 0 < k + balance s e (take j ?line)" by blast
      then obtain q where "q < length ?line" "p = int (0 + q + 1)" "?line ! q = e"
          "k + balance s e (take (Suc q) ?line) = 0"
        using find_end_go_spec [OF "1.prems"(1,2), of 0 ?line] r(3)
        unfolding FindEndOfExpressionInLine_def by auto
      moreover from this have "nat p = Suc q" by simp
      ultimately show ?thesis using r(1,2) more by simp
    next
      case False
      then have step: "close_loop clean s e (n + 1) (k + ?delta) = (line, m, p)"
        using more "1.prems"(5) close_loop.simps [of clean s e n k] by (simp add: Let_def)
      have "(p = -1 \<and> m = NumLines clean) \<or>
        (n + 1 < m \<and> m < NumLines clean \<and> line = elided clean ! m \<and> 0 < p \<and> p \<le> int (length line) \<and>
         line ! (nat p - 1) = e \<and>
         k + ?delta + balance s e (concat (map ((!) (elided clean)) [n + 1 + 1..<m]) @ take (nat p) line) = 0)"
        using "1.IH" [OF more refl refl] False "1.prems" more step by simp
      then show ?thesis by (auto simp: upt_conv_Cons balance_def [symmetric])
    qed
  qed
qed

definition CloseExpression_ok :: "cleansed_lines \<Rightarrow> nat \<Rightarrow> nat \<Rightarrow> string \<Rightarrow> nat \<Rightarrow> int \<Rightarrow> bool" where
  "CloseExpression_ok clean n i line m p \<longleftrightarrow>
     (case closing_char (elided clean ! n ! i) of
        None \<Rightarrow> m = NumLines clean \<and> p = -1
      | Some e \<Rightarrow>
          (p = -1 \<and> m = NumLines clean) \<or>
          (n \<le> m \<and> m < NumLines clean \<and> line = elided clean ! m \<and> 0 < p \<and> p \<le> int (length line) \<and>
           line ! (nat p - 1) = e \<and> balance (elided clean ! n ! i) e (spanned clean n i m (nat p)) = 0))"

lemma closing_char_distinct: "closing_char c = Some e \<Longrightarrow> c \<noteq> e"
  by (auto simp: closing_char_def split: if_splits)

lemma FindEnd_at_start:
  assumes "s \<noteq> e" "i < length line" "line ! i = s"
  shows "FindEndOfExpressionInLine line i 0 s e = find_end_go (i + 1) 1 s e (drop (Suc i) line)"
  using assms by (simp add: FindEndOfExpressionInLine_def Cons_nth_drop_Suc [symmetric])

lemma drop_take_Suc: "i < length xs \<Longrightarrow> drop i (take (Suc i + j) xs) = xs ! i # take j (drop (Suc i) xs)"
  by (metis Cons_nth_drop_Suc add_Suc_shift add_diff_cancel_left' drop_take take_Suc_Cons)

lemma CloseExpression_correct:
  assumes wf: "wf_lines clean" and r: "CloseExpression clean n i = Inr (line, m, p)"
  shows "CloseExpression_ok clean n i line m p"
proof -
  let ?l = "elided clean ! n"
  let ?s = "?l ! i"
  from r have n: "n < NumLines clean" and i: "i < length ?l"
    by (auto simp: CloseExpression_def split: if_splits)
  show ?thesis
  proof (cases "closing_char ?s")
    case None
    with r n i show ?thesis by (simp add: CloseExpression_def CloseExpression_ok_def Let_def)
  next
    case (Some e)
    note se = closing_char_distinct [OF Some]
    let ?f = "FindEndOfExpressionInLine ?l i 0 ?s e"
    have f: "?f = find_end_go (i + 1) 1 ?s e (drop (Suc i) ?l)" by (rule FindEnd_at_start [OF se i refl])
    note spec = find_end_go_spec [OF se, of 1 "i + 1" "drop (Suc i) ?l", folded f]
    show ?thesis
    proof (cases "-1 < ?f")
      case True
      with spec obtain k where k: "k < length (drop (Suc i) ?l)" "?f = int (i + 1 + k + 1)"
        "drop (Suc i) ?l ! k = e" "1 + balance ?s e (take (Suc k) (drop (Suc i) ?l)) = 0" by auto
      from True r n i Some have "line = ?l" "m = n" "p = ?f"
        by (auto simp: CloseExpression_def Let_def)
      with k n i se drop_take_Suc [OF i, of "Suc k"] show ?thesis
        by (simp add: CloseExpression_ok_def Some spanned_def add.commute nat_add_distrib)
    next
      case False
      let ?tail = "drop i ?l"
      have pos: "0 < balance ?s e ?tail"
        using False spec i se by (auto simp: Cons_nth_drop_Suc [symmetric])
      from False r n i Some have "close_loop clean ?s e n (balance ?s e ?tail) = (line, m, p)"
        by (simp add: CloseExpression_def Let_def balance_def)
      from close_loop_spec [OF se pos n wf this] show ?thesis
        by (auto simp: CloseExpression_ok_def Some spanned_def)
    qed
  qed
qed

text \<open>
  The bracket it finds on a later line need not be the first that closes the expression:
  the lines in between are only counted as a whole.
\<close>

definition first_close :: "cleansed_lines \<Rightarrow> nat \<Rightarrow> nat \<Rightarrow> nat \<Rightarrow> nat \<Rightarrow> bool" where
  "first_close clean n i m j \<longleftrightarrow>
     (case closing_char (elided clean ! n ! i) of None \<Rightarrow> False
      | Some e \<Rightarrow> balance (elided clean ! n ! i) e (spanned clean n i m j) = 0)"

definition skipped_close_lines :: cleansed_lines where
  "skipped_close_lines = CleansedLines [''foo('', '') + bar('', '')'']"

subsection \<open>What cleansing guarantees\<close>

definition clean_outcome :: "string list \<Rightarrow> act list \<times> string list \<Rightarrow> bool" where
  "clean_outcome lines r \<longleftrightarrow> length (snd r) = length lines \<and>
     list_all2 (\<lambda>l l'. l' = l \<or> l' = dummy_line) lines (snd r) \<and>
     (fst r = [] \<longrightarrow> list_all (\<lambda>l. \<not> opens_comment l) (snd r))"




text \<open>C13: when \<open>CloseExpression\<close> returns a position, it is just behind a matching closing bracket, at or after the line it started from, and the text it spans has as many closing as opening brackets; otherwise it returns the number of lines and \<open>-1\<close>.\<close>

theorem CloseExpression_balanced:
  assumes "CloseExpression (CleansedLines lines) n i = Inr (line, m, p)"
  shows "CloseExpression_ok (CleansedLines lines) n i line m p"
  using assms by (rule CloseExpression_correct [OF wf_CleansedLines])

lemma CloseExpression_balanced_witness:
  "CloseExpression_ok (CleansedLines [''f(a,'', ''  g(b));'']) 0 1 ''  g(b));'' 1 7"
  by (rule CloseExpression_balanced) code_simp


end
