(* ===== verification/Paths.thy ===== *)
theory Paths
  imports Cleanse
begin

text \<open>
  File names: the operations of \<open>posixpath\<close> the source calls (\<open>os.path\<close> on the systems the
  linter runs on), \<open>relpath\<close>, the extension tests, \<open>FileInfo\<close> and the name of a header guard.
  What the file system holds is read from the environment.
\<close>

subsection \<open>posixpath\<close>

definition path_join2 :: "string \<Rightarrow> string \<Rightarrow> string" where
  "path_join2 a b = (if startswith b ''/'' then b
     else if a = [] \<or> endswith a ''/'' then a @ b else a @ ''/'' @ b)"

definition path_join :: "string list \<Rightarrow> string" where
  "path_join ps = (case ps of [] \<Rightarrow> [] | p # qs \<Rightarrow> foldl path_join2 p qs)"

text \<open>The components \<open>normpath\<close> keeps: \<open>new_comps\<close> is held reversed.\<close>

fun norm_comps :: "bool \<Rightarrow> string list \<Rightarrow> string list \<Rightarrow> string list" where
  "norm_comps rooted acc [] = rev acc"
| "norm_comps rooted acc (c # cs) =
     (if c = [] \<or> c = ''.'' then norm_comps rooted acc cs
      else if c \<noteq> ''..'' \<or> (\<not> rooted \<and> acc = []) \<or> (acc \<noteq> [] \<and> hd acc = ''..'')
      then norm_comps rooted (c # acc) cs
      else norm_comps rooted (tl acc) cs)"

definition initial_slashes :: "string \<Rightarrow> nat" where
  "initial_slashes p =
     (if startswith p ''//'' \<and> \<not> startswith p ''///'' then 2
      else if startswith p ''/'' then 1 else 0)"

definition normpath :: "string \<Rightarrow> string" where
  "normpath p =
     (if p = [] then ''.''
      else let n = initial_slashes p;
               q = replicate n (CHR ''/'') @
                     join ''/'' (norm_comps (n \<noteq> 0) [] (split_char (CHR ''/'') p))
           in if q = [] then ''.'' else q)"

definition abspath :: "env \<Rightarrow> string \<Rightarrow> string" where
  "abspath e p = normpath (if startswith p ''/'' then p else path_join2 (getcwd e) p)"

definition path_split :: "string \<Rightarrow> string \<times> string" where
  "path_split p =
     (let i = nat (rfind_char p (CHR ''/'') + 1); head = take i p
      in (if head \<noteq> [] \<and> \<not> list_all (\<lambda>c. c = CHR ''/'') head
          then rstrip_by (\<lambda>c. c = CHR ''/'') head else head, drop i p))"

definition dirname :: "string \<Rightarrow> string" where "dirname p = fst (path_split p)"
definition basename :: "string \<Rightarrow> string" where "basename p = snd (path_split p)"

definition splitext :: "string \<Rightarrow> string \<times> string" where
  "splitext p =
     (let sep = rfind_char p (CHR ''/''); dot = rfind_char p (CHR ''.'')
      in if sep < dot \<and> list_ex (\<lambda>c. c \<noteq> CHR ''.'') (slice (nat (sep + 1)) (nat dot) p)
         then (take (nat dot) p, drop (nat dot) p) else (p, []))"

fun commonprefix :: "'a list \<Rightarrow> 'a list \<Rightarrow> 'a list" where
  "commonprefix (x # xs) (y # ys) = (if x = y then x # commonprefix xs ys else [])"
| "commonprefix _ _ = []"

subsection \<open>relpath and the extensions\<close>

definition relpath :: "env \<Rightarrow> string \<Rightarrow> string \<Rightarrow> exn + string" where
  "relpath e path start =
     (if path = [] then Inl (ValueError ''no path specified'')
      else let start = (if start = [] then getcwd e else start);
               start_list = split_char (CHR ''/'') (abspath e start);
               path_list = split_char (CHR ''/'') (abspath e path);
               i = length (commonprefix start_list path_list);
               rel_list = replicate (length start_list - i) ''..'' @ drop i path_list
           in Inr (path_join rel_list))"

definition HEADER_EXTENSIONS :: "string list" where
  "HEADER_EXTENSIONS = [''h'', ''hh'', ''hpp'', ''hxx'']"

definition SOURCE_EXTENSIONS :: "string list" where
  "SOURCE_EXTENSIONS = [''cc'', ''cpp'', ''cxx'', ''inl'']"

definition ALL_EXTENSIONS :: "string list" where
  "ALL_EXTENSIONS = HEADER_EXTENSIONS @ SOURCE_EXTENSIONS"

definition IsHeaderFileExtension :: "string \<Rightarrow> bool" where
  "IsHeaderFileExtension x \<longleftrightarrow> List.member HEADER_EXTENSIONS x"

definition file_extension :: "string \<Rightarrow> string" where
  "file_extension filename = drop (nat (rfind_char filename (CHR ''.'') + 1)) filename"

definition IsHeaderFile :: "string \<Rightarrow> bool" where
  "IsHeaderFile filename \<longleftrightarrow> IsHeaderFileExtension (file_extension filename)"

definition IsSourceFile :: "string \<Rightarrow> bool" where
  "IsSourceFile filename \<longleftrightarrow> List.member SOURCE_EXTENSIONS (file_extension filename)"

subsection \<open>Facts about directories\<close>

lemma rfind_char_bound: "nat (rfind_char p c + 1) \<le> length p"
proof -
  let ?k = "length (takeWhile (\<lambda>d. d \<noteq> c) (rev p))"
  have "?k \<le> length (rev p)" by (rule length_takeWhile_le)
  then show ?thesis by (auto simp: rfind_char_def Let_def)
qed

lemma prefix_dirname: "prefix (dirname p) p"
proof -
  let ?h = "take (nat (rfind_char p (CHR ''/'') + 1)) p"
  have "prefix ?h p" by (rule take_is_prefix)
  moreover have "prefix (rstrip_by (\<lambda>c. c = CHR ''/'') ?h) ?h" by (rule rstrip_by_prefix)
  ultimately show ?thesis
    unfolding dirname_def path_split_def Let_def by (auto intro: prefix_order.trans)
qed

lemma length_dirname: "dirname p \<noteq> p \<Longrightarrow> length (dirname p) < length p"
  using prefix_dirname [of p] by (metis prefix_length_less prefix_order.le_neq_trans)

lemma path_split_parts: "fst (path_split p) = [] \<Longrightarrow> snd (path_split p) = p"
proof -
  let ?i = "nat (rfind_char p (CHR ''/'') + 1)"
  assume a: "fst (path_split p) = []"
  have "take ?i p = []"
  proof (rule ccontr)
    assume h: "take ?i p \<noteq> []"
    with a have all: "\<not> list_all (\<lambda>c. c = CHR ''/'') (take ?i p)"
      and nil: "rstrip_by (\<lambda>c. c = CHR ''/'') (take ?i p) = []"
      by (auto simp: path_split_def Let_def split: if_splits)
    from nil have "\<forall>c\<in>set (take ?i p). c = CHR ''/''"
      by (simp add: rstrip_by_def)
    with all show False by (simp add: list_all_iff)
  qed
  then show ?thesis by (auto simp: path_split_def Let_def)
qed

subsection \<open>FileInfo\<close>

definition FullName :: "env \<Rightarrow> string \<Rightarrow> string" where
  "FullName e filename = replace (abspath e filename) [bslash] ''/''"

definition has :: "env \<Rightarrow> string \<Rightarrow> string \<Rightarrow> bool" where
  "has e d name \<longleftrightarrow> path_exists e (path_join2 d name)"

text \<open>
  The walk up an SVN checkout: the directory \<open>root_dir\<close> when it stops. At the root of the
  file system \<open>one_up_dir\<close> is its own directory, so the loop need not end.
\<close>

partial_function (option) svn_root :: "env \<Rightarrow> string \<Rightarrow> string \<Rightarrow> string option" where
  "svn_root e root_dir one_up_dir =
     (if has e one_up_dir ''.svn'' then svn_root e (dirname root_dir) (dirname one_up_dir)
      else Some root_dir)"

declare svn_root.simps [code]

definition vcs_root :: "env \<Rightarrow> string \<Rightarrow> bool" where
  "vcs_root e d \<longleftrightarrow> has e d ''.git'' \<or> has e d ''.hg'' \<or> has e d ''.svn''"

function find_vcs_root :: "env \<Rightarrow> string \<Rightarrow> string" where
  "find_vcs_root e root_dir =
     (if root_dir \<noteq> dirname root_dir \<and> \<not> vcs_root e root_dir
      then find_vcs_root e (dirname root_dir) else root_dir)"
  by pat_completeness auto
termination
  by (relation "measure (\<lambda>(e, d). length d)") (auto intro: length_dirname)

declare find_vcs_root.simps [simp del]

text \<open>\<open>None\<close> when the walk does not end.\<close>

definition RepositoryName :: "env \<Rightarrow> string \<Rightarrow> string option" where
  "RepositoryName e filename =
     (let fullname = FullName e filename; project_dir = dirname fullname;
          below = (\<lambda>root. drop (length (commonprefix root project_dir) + 1) fullname)
      in if path_exists e fullname then
           (if has e project_dir ''.svn''
            then map_option below (svn_root e project_dir (dirname project_dir))
            else let root_dir = find_vcs_root e project_dir
                 in if vcs_root e root_dir then Some (below root_dir) else Some fullname)
         else Some fullname)"

function blade_root :: "env \<Rightarrow> string \<Rightarrow> string \<Rightarrow> string" where
  "blade_root e last_src d =
     (if d \<noteq> [] \<and> d \<noteq> ''/'' then
        (if path_isfile e (d @ ''/BLADE_ROOT'') then d
         else let last_src = (if drop (length d - 4) d = bslash # ''src'' then d else last_src)
              in if dirname d = d then (if last_src \<noteq> ''/'' then last_src else [])
                 else blade_root e last_src (dirname d))
      else if last_src \<noteq> ''/'' then last_src else [])"
  by pat_completeness auto
termination
  by (relation "measure (\<lambda>(e, l, d). length d)") (auto intro: length_dirname)

declare blade_root.simps [simp del]

definition FindBladeRootDir :: "env \<Rightarrow> string \<Rightarrow> string" where
  "FindBladeRootDir e filename = blade_root e ''/'' (dirname (abspath e filename))"

definition ProjectScopeName :: "env \<Rightarrow> string \<Rightarrow> exn + string" where
  "ProjectScopeName e filename = relpath e filename (FindBladeRootDir e filename)"

definition Split :: "env \<Rightarrow> string \<Rightarrow> (string \<times> string \<times> string) option" where
  "Split e filename = map_option
     (\<lambda>name. case path_split name of (project, r) \<Rightarrow> (project, splitext r)) (RepositoryName e filename)"

definition BaseName :: "env \<Rightarrow> string \<Rightarrow> string option" where
  "BaseName e filename = map_option (\<lambda>(d, b, x). b) (Split e filename)"

definition Extension :: "env \<Rightarrow> string \<Rightarrow> string option" where
  "Extension e filename = map_option (\<lambda>(d, b, x). x) (Split e filename)"

definition NoExtension :: "env \<Rightarrow> string \<Rightarrow> string option" where
  "NoExtension e filename = map_option (\<lambda>(d, b, x). join ''/'' [d, b]) (Split e filename)"

definition IsSource :: "env \<Rightarrow> string \<Rightarrow> bool option" where
  "IsSource e filename =
     map_option (\<lambda>x. List.member [''c'', ''cc'', ''cpp'', ''cxx''] (tl x)) (Extension e filename)"

subsection \<open>The header guard's name\<close>

definition unflymake :: "string \<Rightarrow> string" where
  "unflymake filename =
     rx_sub (rx ''/`.flymake/([^/]*)$'') (\<lambda>m. ''/'' @ grp m 1)
       (rx_sub (rx ''_flymake`.h$'') (\<lambda>_. ''.h'') filename)"

definition GetHeaderGuardCPPVariable :: "env \<Rightarrow> string \<Rightarrow> exn + string" where
  "GetHeaderGuardCPPVariable e filename =
     map_sum id (\<lambda>name. aupper (rx_sub (rx ''[-.``/`s]'') (\<lambda>_. ''_'') name))
       (ProjectScopeName e (unflymake filename))"

subsection \<open>What FileInfo guarantees\<close>

lemma svn_root_returns:
  assumes "\<And>d. dirname d = d \<Longrightarrow> \<not> has e d ''.svn''"
  shows "\<exists>r. svn_root e a b = Some r"
proof (induction "length b" arbitrary: a b rule: less_induct)
  case less
  show ?case
  proof (cases "has e b ''.svn''")
    case True
    then have "dirname b \<noteq> b" using assms by blast
    then have "\<exists>r. svn_root e (dirname a) (dirname b) = Some r" by (intro less length_dirname)
    then show ?thesis using True by (simp add: svn_root.simps [of e a b])
  qed (simp add: svn_root.simps [of e a b])
qed

lemma svn_root_diverges:
  assumes "svn_root e a b = Some r"
  shows "\<not> (dirname b = b \<and> has e b ''.svn'')"
proof (rule svn_root.raw_induct [where P = "\<lambda>e a b r. \<not> (dirname b = b \<and> has e b ''.svn'')", OF _ assms])
  fix rec :: "env \<Rightarrow> string \<Rightarrow> string \<Rightarrow> string option" and e a b r
  assume IH: "\<And>e a b r. rec e a b = Some r \<Longrightarrow> \<not> (dirname b = b \<and> has e b ''.svn'')"
    and r: "(if has e b ''.svn'' then rec e (dirname a) (dirname b) else Some a) = Some r"
  show "\<not> (dirname b = b \<and> has e b ''.svn'')"
    using IH [of e "dirname a" "dirname b" r] r by (auto split: if_splits)
qed

lemma suffix_below: "suffix (drop k s) s"
  by (rule suffix_drop)



text \<open>An environment in which nothing exists but the files given.\<close>

definition env_of :: "string list \<Rightarrow> string list \<Rightarrow> env" where
  "env_of exist isfile = \<lparr>os_posix = True, stderr_isatty = False, getcwd = ''/w'',
     path_exists = (\<lambda>p. List.member exist p), path_isfile = (\<lambda>p. List.member isfile p),
     read_header = (\<lambda>_. None), read_utf8 = (\<lambda>_. None), read_gbk = (\<lambda>_. None), read_stdin = [],
     linesep = newline, today_year = 2013, dict_order = id\<rparr>"



text \<open>C38: for a file at the root of the file system beside a \<open>.svn\<close>, \<open>RepositoryName\<close> does not return: at the root the walk up stays where it is.\<close>

theorem RepositoryName_diverges:
  "RepositoryName (env_of [''/a.cc'', ''/.svn''] []) ''/a.cc'' = None"
proof -
  let ?e = "env_of [''/a.cc'', ''/.svn''] []"
  have "svn_root ?e ''/'' ''/'' = None"
  proof (cases "svn_root ?e ''/'' ''/''")
    case (Some r)
    moreover have "dirname ''/'' = ''/'' \<and> has ?e ''/'' ''.svn''" by code_simp
    ultimately show ?thesis using svn_root_diverges by blast
  qed
  moreover have "FullName ?e ''/a.cc'' = ''/a.cc''" "dirname ''/a.cc'' = ''/''" "dirname ''/'' = ''/''"
    "has ?e ''/'' ''.svn''" "path_exists ?e ''/a.cc''"
    by code_simp+
  ultimately show ?thesis by (simp add: RepositoryName_def Let_def)
qed

end
