(* ===== verification/Includes.thy ===== *)
theory Includes
  imports Paths
begin

text \<open>
  The headers of a file: \<open>_ScopedIncludeState\<close> with its two order checks, and the stack
  \<open>_IncludeState\<close> of the scopes that preprocessor conditions open.
\<close>

subsection \<open>Kinds of headers, and sections\<close>

datatype header_type = C_SYS_HEADER | CPP_SYS_HEADER | LIKELY_MY_HEADER | POSSIBLE_MY_HEADER | OTHER_HEADER

datatype include_section = INITIAL_SECTION | MY_H_SECTION | C_SECTION | CPP_SECTION | OTHER_H_SECTION

fun section_num :: "include_section \<Rightarrow> nat" where
  "section_num INITIAL_SECTION = 0"
| "section_num MY_H_SECTION = 1"
| "section_num C_SECTION = 2"
| "section_num CPP_SECTION = 3"
| "section_num OTHER_H_SECTION = 4"

lemma section_num_inj: "section_num a = section_num b \<Longrightarrow> a = b"
  by (cases a; cases b) auto

instantiation include_section :: linorder
begin

definition less_eq_include_section :: "include_section \<Rightarrow> include_section \<Rightarrow> bool" where
  "less_eq_include_section a b \<longleftrightarrow> section_num a \<le> section_num b"

definition less_include_section :: "include_section \<Rightarrow> include_section \<Rightarrow> bool" where
  "less_include_section a b \<longleftrightarrow> section_num a < section_num b"

instance
  by standard (auto simp: less_eq_include_section_def less_include_section_def intro: section_num_inj)

end

fun TYPE_NAMES :: "header_type \<Rightarrow> string" where
  "TYPE_NAMES C_SYS_HEADER = ''C system header''"
| "TYPE_NAMES CPP_SYS_HEADER = ''C++ system header''"
| "TYPE_NAMES LIKELY_MY_HEADER = ''header this file implements''"
| "TYPE_NAMES POSSIBLE_MY_HEADER = ''header this file may implement''"
| "TYPE_NAMES OTHER_HEADER = ''other header''"

fun SECTION_NAMES :: "include_section \<Rightarrow> string" where
  "SECTION_NAMES INITIAL_SECTION = ''... nothing. (This can'' @ squote @ ''t be an error.)''"
| "SECTION_NAMES MY_H_SECTION = ''a header this file implements''"
| "SECTION_NAMES C_SECTION = ''C system header''"
| "SECTION_NAMES CPP_SECTION = ''C++ system header''"
| "SECTION_NAMES OTHER_H_SECTION = ''other header''"

subsection \<open>One scope\<close>

text \<open>The dict of the source is \<open>inc_lines\<close>: each header with the line that includes it.\<close>

record scoped_include =
  inc_lines :: "(string \<times> nat) list"
  inc_section :: include_section
  last_header :: string
  last_line :: nat

definition ScopedIncludeState :: scoped_include where
  "ScopedIncludeState = \<lparr>inc_lines = [], inc_section = INITIAL_SECTION, last_header = [], last_line = 0\<rparr>"

definition CanonicalizeAlphabeticalOrder :: "string \<Rightarrow> string" where
  "CanonicalizeAlphabeticalOrder path = ulower (replace (replace path ''-inl.h'' ''.h'') ''-'' ''_'')"

definition CheckIncludeAlphabeticalOrder ::
    "string \<Rightarrow> nat \<Rightarrow> scoped_include \<Rightarrow> (string \<times> string) option \<times> scoped_include" where
  \<open>CheckIncludeAlphabeticalOrder path linenum st =
     (let canonical = CanonicalizeAlphabeticalOrder path;
          has_dir = contains path ''/'';
          prev_has_dir = contains (last_header st) ''/'';
          info =
            (if linenum = last_line st + 1 then
               (if has_dir = prev_has_dir then
                  (if str_less canonical (last_header st)
                   then Some (''build/include_alpha'',
                          ''Include "'' @ path @ ''" not in alphabetical order'')
                   else None)
                else if prev_has_dir then
                  Some (''build/include_order'', ''Include "'' @ path @
                    ''" not in correct order (paths without dir should be put before any others)'')
                else None)
             else None)
      in (info, st\<lparr>last_header := canonical, last_line := linenum\<rparr>))\<close>

text \<open>The section after a header, and whether its order is legal.\<close>

definition next_section :: "header_type \<Rightarrow> include_section \<Rightarrow> include_section option" where
  "next_section t s =
     (case t of
        C_SYS_HEADER \<Rightarrow> if s \<le> C_SECTION then Some C_SECTION else None
      | CPP_SYS_HEADER \<Rightarrow> if s \<le> CPP_SECTION then Some CPP_SECTION else None
      | LIKELY_MY_HEADER \<Rightarrow> if s \<le> MY_H_SECTION then Some MY_H_SECTION else Some OTHER_H_SECTION
      | POSSIBLE_MY_HEADER \<Rightarrow> if s \<le> MY_H_SECTION then Some MY_H_SECTION else Some OTHER_H_SECTION
      | OTHER_HEADER \<Rightarrow> Some OTHER_H_SECTION)"

definition CheckNextIncludeOrder :: "header_type \<Rightarrow> scoped_include \<Rightarrow> string \<times> scoped_include" where
  "CheckNextIncludeOrder t st =
     (case next_section t (inc_section st) of
        None \<Rightarrow> (''Found '' @ TYPE_NAMES t @ '' after '' @ SECTION_NAMES (inc_section st),
                 st\<lparr>last_header := []\<rparr>)
      | Some s \<Rightarrow> ([], if s \<noteq> inc_section st then st\<lparr>inc_section := s, last_header := []\<rparr> else st))"

subsection \<open>The stack of scopes\<close>

text \<open>
  \<open>all_scoped\<close> holds every scope pushed; the stack holds references into it, because a
  scope that is on the stack and in the list is one object of the source.
\<close>

record include_state =
  all_scoped :: "scoped_include list"
  scope_stack :: "nat list"     \<comment> \<open>the last is the top\<close>

definition IncludeState :: include_state where
  "IncludeState = \<lparr>all_scoped = [], scope_stack = []\<rparr>"

definition inc_push :: "scoped_include \<Rightarrow> include_state \<Rightarrow> include_state" where
  "inc_push sc st = \<lparr>all_scoped = all_scoped st @ [sc],
     scope_stack = scope_stack st @ [length (all_scoped st)]\<rparr>"

text \<open>\<open>list.pop\<close>: IndexError on an empty stack.\<close>

definition inc_pop :: "include_state \<Rightarrow> exn + include_state" where
  "inc_pop st = (if scope_stack st = [] then Inl IndexError
                 else Inr (st\<lparr>scope_stack := butlast (scope_stack st)\<rparr>))"

definition inc_top :: "include_state \<Rightarrow> scoped_include" where
  "inc_top st = all_scoped st ! last (scope_stack st)"

definition set_top :: "scoped_include \<Rightarrow> include_state \<Rightarrow> include_state" where
  "set_top sc st = st\<lparr>all_scoped := (all_scoped st)[last (scope_stack st) := sc]\<rparr>"

definition get_all :: "include_state \<Rightarrow> (string \<times> nat) list" where
  "get_all st = foldl (\<lambda>m (h, n). AList.update h n m) [] (concat (map inc_lines (all_scoped st)))"

subsection \<open>The order of the headers of one scope\<close>

text \<open>The messages for a sequence of headers of these kinds.\<close>

fun run_order :: "header_type list \<Rightarrow> scoped_include \<Rightarrow> string list" where
  "run_order [] st = []"
| "run_order (t # ts) st = fst (CheckNextIncludeOrder t st) # run_order ts (snd (CheckNextIncludeOrder t st))"

lemma CheckNextIncludeOrder_section [simp]:
  "inc_section (snd (CheckNextIncludeOrder t st)) =
     (case next_section t (inc_section st) of None \<Rightarrow> inc_section st | Some s \<Rightarrow> s)"
  by (simp add: CheckNextIncludeOrder_def split: option.split)

lemma CheckNextIncludeOrder_message [simp]:
  "fst (CheckNextIncludeOrder t st) = [] \<longleftrightarrow> next_section t (inc_section st) \<noteq> None"
  by (simp add: CheckNextIncludeOrder_def split: option.split)

fun accepts_order :: "include_section \<Rightarrow> header_type list \<Rightarrow> bool" where
  "accepts_order s [] \<longleftrightarrow> True"
| "accepts_order s (t # ts) \<longleftrightarrow> (case next_section t s of None \<Rightarrow> False | Some s' \<Rightarrow> accepts_order s' ts)"

lemma run_order_silent: "list_all (\<lambda>m. m = []) (run_order ts st) \<longleftrightarrow> accepts_order (inc_section st) ts"
  by (induction ts arbitrary: st) (auto split: option.split)

text \<open>A block of headers with kinds in \<open>A\<close>, then a sequence with \<open>R\<close>.\<close>

fun then_seq :: "'a set \<Rightarrow> ('a list \<Rightarrow> bool) \<Rightarrow> 'a list \<Rightarrow> bool" where
  "then_seq A R [] \<longleftrightarrow> R []"
| "then_seq A R (x # xs) \<longleftrightarrow> R (x # xs) \<or> (x \<in> A \<and> then_seq A R xs)"

lemma then_seq_iff: "then_seq A R xs \<longleftrightarrow> (\<exists>a r. xs = a @ r \<and> set a \<subseteq> A \<and> R r)"
proof (induction xs)
  case (Cons x xs)
  have "(\<exists>a r. x # xs = a @ r \<and> set a \<subseteq> A \<and> R r) \<longleftrightarrow>
      R (x # xs) \<or> (x \<in> A \<and> (\<exists>a r. xs = a @ r \<and> set a \<subseteq> A \<and> R r))" (is "?l \<longleftrightarrow> ?r")
  proof
    assume ?l
    then obtain a r where a: "x # xs = a @ r" "set a \<subseteq> A" "R r" by blast
    then show ?r by (cases a) auto
  next
    assume ?r
    then consider "R (x # xs)" | a r where "x \<in> A" "xs = a @ r" "set a \<subseteq> A" "R r" by blast
    then show ?l
    proof cases
      case 1
      then have "x # xs = [] @ x # xs \<and> set [] \<subseteq> A \<and> R (x # xs)" by simp
      then show ?thesis by blast
    next
      case 2
      then have "x # xs = (x # a) @ r \<and> set (x # a) \<subseteq> A \<and> R r" by simp
      then show ?thesis by blast
    qed
  qed
  with Cons.IH show ?case by simp
qed simp

definition own_headers :: "header_type set" where "own_headers = {LIKELY_MY_HEADER, POSSIBLE_MY_HEADER}"

lemmas section_order = less_eq_include_section_def less_include_section_def

definition own_or_other :: "header_type list \<Rightarrow> bool" where
  "own_or_other ts \<longleftrightarrow> set ts \<subseteq> insert OTHER_HEADER own_headers"

lemma own_or_other_simps [simp]:
  "own_or_other []"
  "own_or_other (t # ts) \<longleftrightarrow> t \<in> insert OTHER_HEADER own_headers \<and> own_or_other ts"
  by (simp_all add: own_or_other_def)

lemma accepts_other: "accepts_order OTHER_H_SECTION = own_or_other"
proof
  fix ts
  show "accepts_order OTHER_H_SECTION ts = own_or_other ts"
  proof (induction ts)
    case (Cons t ts)
    then show ?case by (cases t) (auto simp: next_section_def section_order own_headers_def)
  qed simp
qed

lemma then_seq_refine: "R xs \<Longrightarrow> then_seq A R xs"
  by (cases xs) simp_all

lemma accepts_cpp: "accepts_order CPP_SECTION = then_seq {CPP_SYS_HEADER} own_or_other"
proof
  fix ts
  show "accepts_order CPP_SECTION ts = then_seq {CPP_SYS_HEADER} own_or_other ts"
  proof (induction ts)
    case (Cons t ts)
    then show ?case
      by (cases t) (auto simp: next_section_def section_order own_headers_def accepts_other)
  qed simp
qed

lemma accepts_c:
  "accepts_order C_SECTION = then_seq {C_SYS_HEADER} (then_seq {CPP_SYS_HEADER} own_or_other)"
proof
  fix ts
  show "accepts_order C_SECTION ts = then_seq {C_SYS_HEADER} (then_seq {CPP_SYS_HEADER} own_or_other) ts"
  proof (induction ts)
    case (Cons t ts)
    then show ?case
      by (cases t) (auto simp: next_section_def section_order own_headers_def accepts_other accepts_cpp)
  qed simp
qed

lemma accepts_my:
  "accepts_order MY_H_SECTION =
     then_seq own_headers (then_seq {C_SYS_HEADER} (then_seq {CPP_SYS_HEADER} own_or_other))"
  (is "_ = ?L")
proof
  fix ts
  show "accepts_order MY_H_SECTION ts = ?L ts"
  proof (induction ts)
    case (Cons t ts)
    have "?L ts" if "own_or_other ts" using that by (intro then_seq_refine)
    with Cons.IH show ?case
      by (cases t) (auto simp: next_section_def section_order own_headers_def accepts_other
        accepts_cpp accepts_c)
  qed simp
qed

lemma accepts_initial: "accepts_order INITIAL_SECTION ts \<longleftrightarrow> accepts_order MY_H_SECTION ts"
  by (cases ts) (auto simp: next_section_def section_order split: header_type.split)



subsection \<open>The stack\<close>

definition wf_include :: "include_state \<Rightarrow> bool" where
  "wf_include st \<longleftrightarrow> list_all (\<lambda>i. i < length (all_scoped st)) (scope_stack st) \<and>
     distinct (scope_stack st) \<and> list_all (\<lambda>sc. distinct (map fst (inc_lines sc))) (all_scoped st)"

lemma wf_IncludeState [simp]: "wf_include IncludeState"
  by (simp add: wf_include_def IncludeState_def)

lemma wf_inc_push: "wf_include st \<Longrightarrow> distinct (map fst (inc_lines sc)) \<Longrightarrow> wf_include (inc_push sc st)"
  by (force simp: wf_include_def inc_push_def list_all_iff)

lemma wf_inc_pop: "wf_include st \<Longrightarrow> inc_pop st = Inr st' \<Longrightarrow> wf_include st'"
  by (auto simp: wf_include_def inc_pop_def list_all_iff distinct_butlast dest!: in_set_butlastD split: if_splits)

lemma wf_set_top: "wf_include st \<Longrightarrow> distinct (map fst (inc_lines sc)) \<Longrightarrow> wf_include (set_top sc st)"
  by (auto simp: wf_include_def set_top_def list_all_iff dest!: set_update_subset_insert [THEN subsetD])

lemma wf_inc_top: "wf_include st \<Longrightarrow> scope_stack st \<noteq> [] \<Longrightarrow> distinct (map fst (inc_lines (inc_top st)))"
  by (auto simp: wf_include_def inc_top_def list_all_iff)

lemma keys_foldl_update:
  "set (map fst (foldl (\<lambda>m (h, n). AList.update h n m) m xs)) = set (map fst m) \<union> set (map fst xs)"
proof (induction xs arbitrary: m)
  case (Cons x xs)
  obtain h n where x: "x = (h, n)" by (cases x)
  have "set (map fst (AList.update h n m)) = insert h (set (map fst m))" by (simp add: dom_update)
  with Cons.IH [of "AList.update h n m"] show ?case by (simp add: x)
qed simp

lemma get_all_keys: "set (map fst (get_all st)) = (\<Union>sc\<in>set (all_scoped st). set (map fst (inc_lines sc)))"
  unfolding get_all_def keys_foldl_update by auto

end
