(* ===== verification/IncludeCheck.thy ===== *)
theory IncludeCheck
  imports Includes
begin

text \<open>
  The checks of \<open>#include\<close> lines (\<open>_ClassifyInclude\<close>, \<open>CheckIncludeLine\<close>), which drive the
  include state, and \<open>CheckForIncludeWhatYouUse\<close>, which reads it when the file is done.
\<close>

subsection \<open>Tables\<close>

definition STL_HEADERS :: "string list" where
  "STL_HEADERS =
   [''algobase.h'', ''algorithm'', ''alloc.h'', ''atomic'', ''bitset'', ''deque'',
    ''exception'', ''function.h'', ''functional'', ''future'', ''hash_map'', ''hash_map.h'',
    ''hash_set'', ''hash_set.h'', ''iterator'', ''list'', ''list.h'', ''map'', ''memory'',
    ''mutex'', ''new'', ''pair.h'', ''pthread_alloc'', ''queue'', ''set'', ''set.h'',
    ''sstream'', ''stack'', ''stl_alloc.h'', ''stl_relops.h'', ''type_traits.h'', ''utility'',
    ''vector'', ''vector.h'']"

definition CPP_HEADERS :: "string list" where
  "CPP_HEADERS =
   [''algo.h'', ''builtinbuf.h'', ''bvector.h'', ''cassert'', ''cctype'', ''cerrno'',
    ''cfloat'', ''ciso646'', ''climits'', ''clocale'', ''cmath'', ''complex'', ''complex.h'',
    ''csetjmp'', ''csignal'', ''cstdarg'', ''cstddef'', ''cstdio'', ''cstdlib'', ''cstring'',
    ''ctime'', ''cwchar'', ''cwctype'', ''defalloc.h'', ''deque.h'', ''editbuf.h'',
    ''exception'', ''fstream'', ''fstream.h'', ''hashtable.h'', ''heap.h'', ''indstream.h'',
    ''iomanip'', ''iomanip.h'', ''ios'', ''iosfwd'', ''iostream'', ''iostream.h'', ''istream'',
    ''istream.h'', ''iterator.h'', ''limits'', ''map.h'', ''multimap.h'', ''multiset.h'',
    ''numeric'', ''ostream'', ''ostream.h'', ''parsestream.h'', ''pfstream.h'', ''PlotFile.h'',
    ''procbuf.h'', ''pthread_alloc.h'', ''rope'', ''rope.h'', ''ropeimpl.h'', ''SFile.h'',
    ''slist'', ''slist.h'', ''stack.h'', ''stdexcept'', ''stdiostream.h'', ''streambuf.h'',
    ''stream.h'', ''strfile.h'', ''string'', ''strstream'', ''strstream.h'', ''tempbuf.h'',
    ''tree.h'', ''typeinfo'', ''valarray'']"

definition HEADERS_CONTAINING_TEMPLATES :: "(string \<times> string list) list" where
  "HEADERS_CONTAINING_TEMPLATES =
  [(''<deque>'', [''deque'']),
   (''<functional>'', [''unary_function'', ''binary_function'', ''plus'', ''minus'', ''multiplies'', ''divides'',
        ''modulus'', ''negate'', ''equal_to'', ''not_equal_to'', ''greater'', ''less'',
        ''greater_equal'', ''less_equal'', ''logical_and'', ''logical_or'', ''logical_not'',
        ''unary_negate'', ''not1'', ''binary_negate'', ''not2'', ''bind1st'', ''bind2nd'',
        ''pointer_to_unary_function'', ''pointer_to_binary_function'', ''ptr_fun'', ''mem_fun_t'',
        ''mem_fun'', ''mem_fun1_t'', ''mem_fun1_ref_t'', ''mem_fun_ref_t'', ''const_mem_fun_t'',
        ''const_mem_fun1_t'', ''const_mem_fun_ref_t'', ''const_mem_fun1_ref_t'', ''mem_fun_ref'']),
   (''<limits>'', [''numeric_limits'']),
   (''<list>'', [''list'']),
   (''<map>'', [''map'', ''multimap'']),
   (''<memory>'', [''allocator'']),
   (''<queue>'', [''queue'', ''priority_queue'']),
   (''<set>'', [''set'', ''multiset'']),
   (''<stack>'', [''stack'']),
   (''<string>'', [''char_traits'', ''basic_string'']),
   (''<utility>'', [''pair'']),
   (''<vector>'', [''vector'']),
   (''<ext/hash_map>'', [''__gnu_cxx::hash_map'', ''__gnu_cxx::hash_multimap'']),
   (''<ext/hash_set>'', [''__gnu_cxx::hash_set'', ''__gnu_cxx::hash_multiset'']),
   (''<ext/slist>'', [''__gnu_cxx::slist''])]"

definition algorithm_templates :: "string list" where
  "algorithm_templates = [''std::copy'', ''std::max'', ''std::min'', ''std::min_element'',
     ''std::sort'', ''std::swap'', ''std::transform'']"

text \<open>\<open>_re_pattern_algorithm_header\<close> and \<open>_re_pattern_templates\<close>: pattern, name, header.\<close>

definition re_pattern_algorithm_header :: "(string \<times> string \<times> string) list" where
  "re_pattern_algorithm_header =
     map (\<lambda>t. (''[^>.]`b'' @ t @ ''(<.*?>)?`([^`)]'', t, ''<algorithm>'')) algorithm_templates"

definition re_pattern_templates :: "(string \<times> string \<times> string) list" where
  "re_pattern_templates = concat (map (\<lambda>(header, ts).
     map (\<lambda>t. (''(`<|`b)'' @ t @ ''`s*`<'', t @ ''<>'', header)) ts) HEADERS_CONTAINING_TEMPLATES)"

definition RE_PATTERN_STRING :: string where "RE_PATTERN_STRING = ''`bstring`b''"

definition RE_PATTERN_INCLUDE_NEW_STYLE :: string where
  \<open>RE_PATTERN_INCLUDE_NEW_STYLE = ''#include +"[^/]+`.h"''\<close>

definition RE_PATTERN_CONDITION_DIRECTIVE :: string where
  "RE_PATTERN_CONDITION_DIRECTIVE = ''^`s*#`s*(?:if|ifdef|ifndef|elif|else|endif).*$''"

definition RE_PATTERN_ENDIF_DIRECTIVE :: string where
  "RE_PATTERN_ENDIF_DIRECTIVE = ''^`s*#`s*endif.*$''"

definition RE_PATTERN_ELIF_OR_ELSE_DIRECTIVE :: string where
  "RE_PATTERN_ELIF_OR_ELSE_DIRECTIVE = ''^`s*#`s*(?:elif|else).*$''"

definition RE_FIRST_COMPONENT :: string where "RE_FIRST_COMPONENT = ''^[^-_.]+''"

subsection \<open>Classifying a header\<close>

definition common_suffixes :: "string list" where
  "common_suffixes = [''test.cc'', ''test.cpp'', ''regtest.cc'', ''unittest.cc'', ''inl.h'', ''impl.h'', ''internal.h'']"

text \<open>The loop over the suffixes: the first that fits behind a dash or underscore is dropped.\<close>

fun drop_suffix :: "string list \<Rightarrow> string \<Rightarrow> string option" where
  "drop_suffix [] filename = None"
| "drop_suffix (suf # ss) filename =
     (let n = length filename; k = length suf
      in if endswith filename suf \<and> k < n \<and> List.member ''-_'' (filename ! (n - k - 1))
         then Some (take (n - k - 1) filename) else drop_suffix ss filename)"

definition DropCommonSuffixes :: "string \<Rightarrow> string" where
  "DropCommonSuffixes filename =
     (case drop_suffix common_suffixes filename of Some s \<Rightarrow> s | None \<Rightarrow> fst (splitext filename))"

definition IsTestFilename :: "string \<Rightarrow> bool" where
  "IsTestFilename filename \<longleftrightarrow> endswith filename ''_test.cpp'' \<or> endswith filename ''_test.cc'' \<or>
     endswith filename ''_unittest.cc'' \<or> endswith filename ''_regtest.cc''"

definition is_cpp_h :: "string \<Rightarrow> bool" where
  "is_cpp_h inc \<longleftrightarrow> List.member STL_HEADERS inc \<or> List.member CPP_HEADERS inc \<or>
     matches ''^((ext|tr1)/)?[a-z_]+$'' inc"

text \<open>A header that is not a system header, against the file's name in the repository.\<close>

definition classify_user_include :: "string \<Rightarrow> string \<Rightarrow> header_type" where
  "classify_user_include repository_name inc =
     (let (target_dir, target_base) = path_split (DropCommonSuffixes repository_name);
          (include_dir, include_base) = path_split (DropCommonSuffixes inc)
      in if target_base = include_base \<and>
            (include_dir = target_dir \<or> include_dir = normpath (target_dir @ ''/../public''))
         then LIKELY_MY_HEADER
         else case (Match RE_FIRST_COMPONENT target_base, Match RE_FIRST_COMPONENT include_base) of
                (Some t, Some i) \<Rightarrow> if group t 0 = group i 0 then POSSIBLE_MY_HEADER else OTHER_HEADER
              | _ \<Rightarrow> OTHER_HEADER)"

definition ClassifyInclude :: "env \<Rightarrow> string \<Rightarrow> string \<Rightarrow> bool \<Rightarrow> exn + header_type" where
  "ClassifyInclude e filename inc is_system =
     (if is_system then Inr (if is_cpp_h inc then CPP_SYS_HEADER else C_SYS_HEADER)
      else case RepositoryName e filename of
             None \<Rightarrow> Inl Diverges
           | Some name \<Rightarrow> Inr (classify_user_include name inc))"

subsection \<open>An include line\<close>

definition include_path_errors :: "string \<Rightarrow> int \<Rightarrow> string \<Rightarrow> act list" where
  \<open>include_path_errors fn n inc =
     (let err = (\<lambda>text. Err fn n ''build/include'' 4 (''include "'' @ inc @ ''" '' @ text))
      in emit_if (startswith inc ''/'') [err ''is a absolute path''] @
         emit_if (contains inc [bslash]) [err (''contains "'' @ [bslash] @ ''", should be "/"'')] @
         emit_if (contains inc ''..'') [err ''contains "..", do not using relative path''] @
         emit_if (startswith inc ''./'') [err ''should start from the root of source code tree.''])\<close>

text \<open>A header new to the scope: it is entered, and its order is checked twice.\<close>

definition order_errors :: "env \<Rightarrow> string \<Rightarrow> nat \<Rightarrow> string \<Rightarrow> header_type \<Rightarrow> scoped_include \<Rightarrow> act list \<times> scoped_include" where
  "order_errors e fn linenum inc kind sc =
     (let (message, sc) = CheckNextIncludeOrder kind sc;
          order = emit_if (message \<noteq> [])
            [case BaseName e fn of
               None \<Rightarrow> Raise Diverges
             | Some b \<Rightarrow> Err fn (int linenum) ''build/include_order'' 4
                 (message @ ''. Should be: '' @ b @ ''.h, c system, c++ system, other.'')];
          (info, sc) = CheckIncludeAlphabeticalOrder inc linenum sc;
          alpha = (case info of None \<Rightarrow> [] | Some (cat, msg) \<Rightarrow> [Err fn (int linenum) cat 4 msg])
      in (order @ alpha, sc))"

definition add_include :: "env \<Rightarrow> string \<Rightarrow> nat \<Rightarrow> string \<Rightarrow> bool \<Rightarrow> scoped_include \<Rightarrow> act list \<times> scoped_include" where
  \<open>add_include e fn linenum inc is_system sc =
     (case map_of (inc_lines sc) inc of
        Some l \<Rightarrow> ([Err fn (int linenum) ''build/include'' 4
            (''"'' @ inc @ ''" already included at '' @ fn @ '':'' @ dec (int l))], sc)
      | None \<Rightarrow>
          let sc = sc\<lparr>inc_lines := AList.update inc linenum (inc_lines sc)\<rparr>
          in case ClassifyInclude e fn inc is_system of
               Inl x \<Rightarrow> ([Raise x], sc)
             | Inr kind \<Rightarrow> order_errors e fn linenum inc kind sc)\<close>

definition stream_errors :: "string \<Rightarrow> int \<Rightarrow> string \<Rightarrow> act list" where
  "stream_errors fn n line =
     (case Match RE_PATTERN_INCLUDE line of None \<Rightarrow> []
      | Some m \<Rightarrow>
          emit_if (matches ''(f|ind|io|i|o|parse|pf|stdio|str|)?stream$'' (grp m 2) \<and> \<not> IsTestFilename fn)
            [Err fn n ''readability/streams'' 3 ''Streams are highly discouraged.''])"

text \<open>A preprocessor condition opens, replaces or closes a scope.\<close>

definition condition_directive :: "string \<Rightarrow> include_state \<Rightarrow> exn + include_state" where
  "condition_directive line st =
     (if found RE_PATTERN_ENDIF_DIRECTIVE line then inc_pop st
      else if found RE_PATTERN_ELIF_OR_ELSE_DIRECTIVE line
      then map_sum id (inc_push ScopedIncludeState) (inc_pop st)
      else Inr (inc_push ScopedIncludeState st))"

definition CheckIncludeLine ::
    "env \<Rightarrow> string \<Rightarrow> cleansed_lines \<Rightarrow> nat \<Rightarrow> include_state \<Rightarrow> act list \<times> include_state" where
  \<open>CheckIncludeLine e fn clean linenum st =
     (let line = code_lines clean ! linenum; n = int linenum
      in if found RE_PATTERN_CONDITION_DIRECTIVE line
         then (case condition_directive line st of Inl x \<Rightarrow> ([Raise x], st) | Inr st' \<Rightarrow> ([], st'))
         else
           let st = (if scope_stack st = [] then inc_push ScopedIncludeState st else st);
               style = emit_if (found RE_PATTERN_INCLUDE_NEW_STYLE line)
                 [Err fn n ''build/include'' 4 ''Include the directory when naming .h files''];
               (acts, st) =
                 (case Search RE_PATTERN_INCLUDE line of None \<Rightarrow> ([], st)
                  | Some m \<Rightarrow>
                      let (acts, sc) = add_include e fn linenum (grp m 2) (grp m 1 = ''<'') (inc_top st)
                      in (include_path_errors fn n (grp m 2) @ acts, set_top sc st))
           in (style @ acts @ stream_errors fn n line, st))\<close>

subsection \<open>Include what you use\<close>

definition strip_affix :: "string \<Rightarrow> string list \<Rightarrow> string" where
  "strip_affix name sufs = (case filter (endswith name) sufs of [] \<Rightarrow> name
     | s # _ \<Rightarrow> take (length name - length s) name)"

definition drop_public_internal :: "string \<Rightarrow> string" where
  "drop_public_internal name = replace (replace name ''/public/'' ''/'') ''/internal/'' ''/''"

text \<open>The slice up to minus the length of the header's name is empty when that length is zero.\<close>

definition FilesBelongToSameModule :: "string \<Rightarrow> string \<Rightarrow> bool \<times> string" where
  "FilesBelongToSameModule filename_cc filename_h =
     (if \<not> endswith filename_cc ''.cc'' then (False, [])
      else let cc = drop_public_internal
                      (strip_affix (strip_affix filename_cc [''.cc'']) [''_unittest'', ''_test''])
           in if \<not> endswith filename_h ''.h'' then (False, [])
              else let h = drop_public_internal (strip_affix (strip_affix filename_h [''.h'']) [''-inl''])
                   in if endswith cc h
                      then (True, if h = [] then [] else take (length cc - length h) cc)
                      else (False, []))"

text \<open>
  The copy of the include state: the headers, each with the line or with the header file
  it was found in. \<open>setdefault\<close> keeps an entry that is there.
\<close>

datatype included_at = AtLine nat | AtHeader string

definition set_default :: "'k \<Rightarrow> 'v \<Rightarrow> ('k \<times> 'v) list \<Rightarrow> ('k \<times> 'v) list" where
  "set_default k v m = (if map_of m k = None then m @ [(k, v)] else m)"

fun add_header_lines :: "string \<Rightarrow> nat \<Rightarrow> string list \<Rightarrow> (string \<times> included_at) list \<Rightarrow> (string \<times> included_at) list" where
  "add_header_lines filename linenum [] m = m"
| "add_header_lines filename linenum (line # lines) m =
     add_header_lines filename (linenum + 1) lines
       (case Search RE_PATTERN_INCLUDE (CleanseComments line) of
          None \<Rightarrow> m
        | Some h \<Rightarrow> set_default (grp h 2) (AtHeader (filename @ '':'' @ dec (int linenum))) m)"

definition UpdateIncludeState :: "env \<Rightarrow> string \<Rightarrow> (string \<times> included_at) list \<Rightarrow> bool \<times> (string \<times> included_at) list" where
  "UpdateIncludeState e filename m =
     (case read_header e filename of None \<Rightarrow> (False, m)
      | Some lines \<Rightarrow> (True, add_header_lines filename 1 lines m))"

text \<open>\<open>required\<close>: a header, the last line that needs it, and the name found there.\<close>

type_synonym required = "(string \<times> nat \<times> string) list"

definition require_patterns :: "(string \<times> string \<times> string) list \<Rightarrow> nat \<Rightarrow> string \<Rightarrow> required \<Rightarrow> required" where
  "require_patterns ps linenum line req =
     foldl (\<lambda>req (pattern, template, header).
        if found pattern line then AList.update header (linenum, template) req else req) req ps"

definition require_line :: "nat \<Rightarrow> string \<Rightarrow> required \<Rightarrow> required" where
  "require_line linenum line req =
     (if line = [] \<or> hd line = CHR ''#'' then req
      else let req = (case Search RE_PATTERN_STRING line of None \<Rightarrow> req
             | Some m \<Rightarrow> let head_part = take (m_start m) line
                 in if endswith head_part ''std::'' \<or> \<not> endswith head_part ''::''
                    then AList.update ''<string>'' (linenum, ''string'') req else req);
               req = require_patterns re_pattern_algorithm_header linenum line req
           in if contains line ''<'' then require_patterns re_pattern_templates linenum line req else req)"

fun require_lines :: "nat \<Rightarrow> string list \<Rightarrow> required \<Rightarrow> required" where
  "require_lines n [] req = req"
| "require_lines n (l # ls) req = require_lines (n + 1) ls (require_line n l req)"

text \<open>The loop over a copy of the headers: whether the file's own header was read.\<close>

fun search_own_header :: "env \<Rightarrow> string \<Rightarrow> string list \<Rightarrow> bool \<Rightarrow> (string \<times> included_at) list \<Rightarrow> bool \<times> (string \<times> included_at) list" where
  "search_own_header e abs_filename [] seen m = (seen, m)"
| "search_own_header e abs_filename (header # hs) seen m =
     (let (same_module, common_path) = FilesBelongToSameModule abs_filename header
      in if same_module
         then let (read, m) = UpdateIncludeState e (common_path @ header) m
              in search_own_header e abs_filename hs (seen \<or> read) m
         else search_own_header e abs_filename hs seen m)"

definition strip_header :: "string \<Rightarrow> string" where
  \<open>strip_header h = strip_by (\<lambda>c. List.member ''<>"'' c) h\<close>

definition CheckForIncludeWhatYouUse :: "env \<Rightarrow> string \<Rightarrow> cleansed_lines \<Rightarrow> (string \<times> nat) list \<Rightarrow> act list" where
  "CheckForIncludeWhatYouUse e fn clean includes =
     (let req = require_lines 0 (elided clean) [];
          m = map (\<lambda>(h, n). (h, AtLine n)) includes;
          abs_filename = rx_sub (rx ''_flymake`.cc$'') (\<lambda>_. ''.cc'') (FullName e fn);
          (header_found, m) = search_own_header e abs_filename (dict_order e (map fst m)) False m
      in if IsSourceFile fn \<and> \<not> header_found then []
         else concat (map (\<lambda>h.
                case map_of req h of None \<Rightarrow> []
                | Some (linenum, template) \<Rightarrow>
                    emit_if (map_of m (strip_header h) = None)
                      [Err fn (int linenum) ''build/include_what_you_use'' 4
                         (''Add #include '' @ h @ '' for '' @ template)])
              (dict_order e (map fst req))))"

subsection \<open>make_pair\<close>

definition CheckMakePairUsesDeduction :: "string \<Rightarrow> cleansed_lines \<Rightarrow> nat \<Rightarrow> act list" where
  "CheckMakePairUsesDeduction fn clean linenum =
     emit_if (found ''`bmake_pair`s*<'' (raw_lines clean ! linenum))
       [Err fn (int linenum) ''build/explicit_make_pair'' 4
          (''For C++11-compatibility, omit template arguments from make_pair'' @
           '' OR use pair directly OR if appropriate, construct a pair directly'')]"

subsection \<open>Facts: include lines\<close>

lemma wf_include_path_errors [act_simps]: "wf_acts (include_path_errors fn n inc)"
  by (simp add: include_path_errors_def Let_def)

lemma CheckIncludeAlphabeticalOrder_info:
  "fst (CheckIncludeAlphabeticalOrder p n sc) = Some (cat, msg) \<Longrightarrow> known_category cat"
  by (auto simp: CheckIncludeAlphabeticalOrder_def Let_def split: if_splits)

lemma CheckIncludeAlphabeticalOrder_lines [simp]:
  "inc_lines (snd (CheckIncludeAlphabeticalOrder p n sc)) = inc_lines sc"
  by (simp add: CheckIncludeAlphabeticalOrder_def Let_def)

lemma CheckNextIncludeOrder_lines [simp]: "inc_lines (snd (CheckNextIncludeOrder t sc)) = inc_lines sc"
  by (simp add: CheckNextIncludeOrder_def split: option.split)

lemma order_errors_facts [simp]:
  "wf_acts (fst (order_errors e fn n inc kind sc))"
  "inc_lines (snd (order_errors e fn n inc kind sc)) = inc_lines sc"
  "Raise IndexError \<notin> set (fst (order_errors e fn n inc kind sc))"
  by (auto simp: order_errors_def split_def Let_def dest: CheckIncludeAlphabeticalOrder_info
      split: option.split)

lemma ClassifyInclude_Inl: "ClassifyInclude e fn inc b = Inl x \<Longrightarrow> x = Diverges"
  by (auto simp: ClassifyInclude_def split: if_splits option.splits)

lemma add_include_facts:
  "wf_acts (fst (add_include e fn n inc b sc))"
  "Raise IndexError \<notin> set (fst (add_include e fn n inc b sc))"
  "distinct (map fst (inc_lines sc)) \<Longrightarrow> distinct (map fst (inc_lines (snd (add_include e fn n inc b sc))))"
  by (auto simp: add_include_def Let_def distinct_update dest: ClassifyInclude_Inl
      split: option.split sum.split)

lemma wf_stream_errors [act_simps]: "wf_acts (stream_errors fn n line)"
  by (simp add: stream_errors_def split: option.split)

lemma wf_CheckIncludeLine [act_simps, simp]: "wf_acts (fst (CheckIncludeLine e fn clean n st))"
  by (auto simp: CheckIncludeLine_def condition_directive_def inc_pop_def Let_def split_def
      wf_include_path_errors wf_stream_errors add_include_facts split: option.split sum.split)

lemma wf_include_CheckIncludeLine:
  assumes "wf_include st" shows "wf_include (snd (CheckIncludeLine e fn clean n st))"
proof -
  define st1 where "st1 = (if scope_stack st = [] then inc_push ScopedIncludeState st else st)"
  have push: "wf_include (inc_push ScopedIncludeState s)" if "wf_include s" for s
    using that by (rule wf_inc_push) (simp add: ScopedIncludeState_def)
  then have st1: "wf_include st1" using assms by (simp add: st1_def)
  have "scope_stack st1 \<noteq> []" by (simp add: st1_def inc_push_def)
  then have top: "distinct (map fst (inc_lines (inc_top st1)))" using st1 by (intro wf_inc_top)
  have cond: "wf_include s" if "condition_directive line st = Inr s" for line s
    using that assms by (auto simp: condition_directive_def push map_sum_def dest: wf_inc_pop
      split: if_splits sum.splits)
  show ?thesis
    using cond st1 wf_set_top [OF st1 add_include_facts(3) [OF top]] assms
    unfolding CheckIncludeLine_def Let_def st1_def [symmetric]
    by (auto simp: split_def split: option.split sum.split)
qed

lemma stream_no_raise [simp]: "Raise x \<notin> set (stream_errors fn n line)"
  by (auto simp: stream_errors_def split: option.splits)

lemma path_no_raise [simp]: "Raise x \<notin> set (include_path_errors fn n inc)"
  by (auto simp: include_path_errors_def Let_def)

text \<open>C35: checking a line raises \<open>IndexError\<close> exactly when it is an \<open>#endif\<close>, \<open>#elif\<close> or \<open>#else\<close> and no scope is open, as in a file with an unmatched one.\<close>

theorem CheckIncludeLine_IndexError:
  "Raise IndexError \<in> set (fst (CheckIncludeLine e fn clean n st)) \<longleftrightarrow>
     scope_stack st = [] \<and> found RE_PATTERN_CONDITION_DIRECTIVE (code_lines clean ! n) \<and>
     (found RE_PATTERN_ENDIF_DIRECTIVE (code_lines clean ! n) \<or>
      found RE_PATTERN_ELIF_OR_ELSE_DIRECTIVE (code_lines clean ! n))"
proof (cases "found RE_PATTERN_CONDITION_DIRECTIVE (code_lines clean ! n)")
  case True
  let ?l = "code_lines clean ! n"
  have iff: "condition_directive ?l st = Inl IndexError \<longleftrightarrow> scope_stack st = [] \<and>
      (found RE_PATTERN_ENDIF_DIRECTIVE ?l \<or> found RE_PATTERN_ELIF_OR_ELSE_DIRECTIVE ?l)"
    by (simp add: condition_directive_def inc_pop_def)
  have "fst (CheckIncludeLine e fn clean n st) =
      (case condition_directive ?l st of Inl x \<Rightarrow> [Raise x] | Inr st' \<Rightarrow> [])"
    using True by (simp add: CheckIncludeLine_def split: sum.split)
  then show ?thesis
    using True iff by (auto split: sum.splits)
next
  case False
  then show ?thesis
    by (auto simp: CheckIncludeLine_def Let_def split_def add_include_facts split: option.split)
qed

lemma CheckIncludeLine_IndexError_witness:
  "Raise IndexError \<in> set (fst (CheckIncludeLine (env_of [] []) ''a.cc'' (CleansedLines [''// c'', ''#endif'']) 1 IncludeState))"
proof -
  have "code_lines (CleansedLines [''// c'', ''#endif'']) ! 1 = ''#endif''" by code_simp
  moreover have "found RE_PATTERN_CONDITION_DIRECTIVE ''#endif''" "found RE_PATTERN_ENDIF_DIRECTIVE ''#endif''"
    by code_simp+
  ultimately show ?thesis
    unfolding CheckIncludeLine_IndexError by (simp add: IncludeState_def)
qed

subsection \<open>Facts: modules\<close>

text \<open>What the two names are compared by: the path without extension, test suffix and public/internal parts.\<close>

definition module_of_cc :: "string \<Rightarrow> string" where
  "module_of_cc f = drop_public_internal (strip_affix (strip_affix f [''.cc'']) [''_unittest'', ''_test''])"

definition module_of_h :: "string \<Rightarrow> string" where
  "module_of_h f = drop_public_internal (strip_affix (strip_affix f [''.h'']) [''-inl''])"



subsection \<open>Facts: include what you use\<close>

text \<open>A line needs a header for a name.\<close>

definition needs :: "string \<Rightarrow> string \<Rightarrow> string \<Rightarrow> bool" where
  "needs h t line \<longleftrightarrow>
     (h = ''<string>'' \<and> t = ''string'' \<and> found RE_PATTERN_STRING line) \<or>
     (\<exists>p. (p, t, h) \<in> set (re_pattern_algorithm_header @ re_pattern_templates) \<and> found p line)"

definition required_from :: "string list \<Rightarrow> nat \<Rightarrow> required \<Rightarrow> bool" where
  "required_from lines n req \<longleftrightarrow>
     (\<forall>h l t. map_of req h = Some (l, t) \<longrightarrow> l < n \<and> needs h t (lines ! l))"

lemma required_update:
  "required_from lines (Suc n) req \<Longrightarrow> needs h t (lines ! n) \<Longrightarrow>
     required_from lines (Suc n) (AList.update h (n, t) req)"
  by (auto simp: required_from_def update_conv')

lemma require_patterns_from:
  assumes "required_from lines (Suc n) req"
    and "set ps \<subseteq> set (re_pattern_algorithm_header @ re_pattern_templates)"
  shows "required_from lines (Suc n) (require_patterns ps n (lines ! n) req)"
  using assms
proof (induction ps arbitrary: req)
  case (Cons x ps)
  obtain p t h where x: "x = (p, t, h)" by (cases x)
  have "required_from lines (Suc n) (if found p (lines ! n) then AList.update h (n, t) req else req)"
  proof (cases "found p (lines ! n)")
    case True
    moreover have "(p, t, h) \<in> set (re_pattern_algorithm_header @ re_pattern_templates)"
      using Cons.prems(2) x by auto
    ultimately have "needs h t (lines ! n)" unfolding needs_def by blast
    with True required_update [OF Cons.prems(1)] show ?thesis by simp
  next
    case False
    with Cons.prems(1) show ?thesis by simp
  qed
  with Cons show ?case by (simp add: require_patterns_def x)
qed (simp add: require_patterns_def)

lemma require_line_from:
  assumes "required_from lines n req"
  shows "required_from lines (Suc n) (require_line n (lines ! n) req)"
proof -
  have "required_from lines (Suc n) req" using assms by (force simp: required_from_def)
  then show ?thesis
    unfolding require_line_def Let_def
    by (auto intro!: require_patterns_from required_update simp: needs_def split: option.split)
qed

lemma require_lines_from:
  "required_from (pre @ ls) (length pre) req \<Longrightarrow>
     required_from (pre @ ls) (length (pre @ ls)) (require_lines (length pre) ls req)"
proof (induction ls arbitrary: pre req)
  case (Cons l ls)
  from require_line_from [OF Cons.prems]
  have "required_from ((pre @ [l]) @ ls) (length (pre @ [l])) (require_line (length pre) l req)" by simp
  from Cons.IH [OF this] show ?case by simp
qed simp

lemma set_default_keys: "fst ` set m \<subseteq> fst ` set (set_default k v m)"
  by (auto simp: set_default_def)

lemma add_header_lines_keys: "fst ` set m \<subseteq> fst ` set (add_header_lines f n ls m)"
proof (induction ls arbitrary: n m)
  case (Cons l ls)
  let ?m = "case Search RE_PATTERN_INCLUDE (CleanseComments l) of None \<Rightarrow> m
    | Some h \<Rightarrow> set_default (grp h 2) (AtHeader (f @ '':'' @ dec (int n))) m"
  have "fst ` set m \<subseteq> fst ` set ?m" by (simp add: set_default_keys split: option.split)
  also have "\<dots> \<subseteq> fst ` set (add_header_lines f (n + 1) ls ?m)" by (rule Cons.IH)
  finally show ?case by simp
qed simp

lemma UpdateIncludeState_keys: "fst ` set m \<subseteq> fst ` set (snd (UpdateIncludeState e f m))"
  using add_header_lines_keys [of m f 1] by (simp add: UpdateIncludeState_def split: option.split)

lemma search_own_header_keys: "fst ` set m \<subseteq> fst ` set (snd (search_own_header e a hs b m))"
proof (induction hs arbitrary: b m)
  case (Cons h hs)
  let ?f = "snd (FilesBelongToSameModule a h) @ h"
  show ?case
    using Cons.IH [of m b] order.trans [OF UpdateIncludeState_keys [of m e ?f] Cons.IH]
    by (simp add: split_def Let_def)
qed simp



lemma wf_CheckForIncludeWhatYouUse [act_simps]: "wf_acts (CheckForIncludeWhatYouUse e fn clean inc)"
  by (auto simp: CheckForIncludeWhatYouUse_def Let_def split_def list_all_concat list_all_mapI
      list_all_iff split: option.split)

lemma wf_CheckMakePair [act_simps]: "wf_acts (CheckMakePairUsesDeduction fn clean n)"
  by (simp add: CheckMakePairUsesDeduction_def)

end
