(* ===== verification/FileChecks.thy ===== *)
theory FileChecks
  imports IncludeCheck
begin

text \<open>
  The checks of whole files (copyright, header guard, replacement characters, the last
  newline) and the line checks that keep no state and are called by \<open>ProcessLine\<close> directly.
\<close>

subsection \<open>Copyright\<close>

definition CheckForCopyright :: "env \<Rightarrow> string \<Rightarrow> string list \<Rightarrow> act list" where
  \<open>CheckForCopyright e fn lines =
     emit_if (\<not> list_ex (\<lambda>l. rx_search (icase (rx ''Copyright'')) l \<noteq> None) (slice 1 11 lines))
       [Err fn 1 ''legal/copyright'' 5
          (''No copyright, suggest: "Copyright (c) '' @ dec (today_year e) @
           '', Tencent Inc. All rights reserved."'')]\<close>

subsection \<open>The header guard\<close>

record guard_scan =
  ifndef :: "string option"
  ifndef_linenum :: nat
  guard_define :: "string option"
  endif :: "string option"
  endif_linenum :: nat

definition guard_start :: guard_scan where
  "guard_start = \<lparr>ifndef = None, ifndef_linenum = 0, guard_define = None, endif = None, endif_linenum = 0\<rparr>"

definition guard_line :: "nat \<Rightarrow> string \<Rightarrow> guard_scan \<Rightarrow> guard_scan" where
  "guard_line linenum line g =
     (let g = (case split_ws line of
            a # b # _ \<Rightarrow>
              (let g = (if ifndef g = None \<and> a = ''#ifndef''
                        then g\<lparr>ifndef := Some b, ifndef_linenum := linenum\<rparr> else g)
               in if guard_define g = None \<and> a = ''#define'' then g\<lparr>guard_define := Some b\<rparr> else g)
          | _ \<Rightarrow> g)
      in if startswith line ''#endif'' then g\<lparr>endif := Some line, endif_linenum := linenum\<rparr> else g)"

fun scan_guard :: "nat \<Rightarrow> string list \<Rightarrow> guard_scan \<Rightarrow> guard_scan" where
  "scan_guard n [] g = g"
| "scan_guard n (l # ls) g = scan_guard (n + 1) ls (guard_line n l g)"

text \<open>The pattern for the last line holds the name as it is, unescaped: it may not compile.\<close>

definition endif_line :: "string \<Rightarrow> string \<Rightarrow> exn + bool" where
  "endif_line cppvar line =
     (case re_compile (bs ''#endif`s+//`s+'' @ cppvar) of
        None \<Rightarrow> Inl ReError | Some r \<Rightarrow> Inr (rx_match r line \<noteq> None))"

definition guard_err :: "string \<Rightarrow> nat \<Rightarrow> string \<Rightarrow> act" where
  "guard_err fn n msg = Err fn (int n) ''build/header_guard'' 5 msg"

definition guard_end_errors :: "string \<Rightarrow> string list \<Rightarrow> string \<Rightarrow> guard_scan \<Rightarrow> act list" where
  \<open>guard_end_errors fn lines cppvar g =
     (case endif g of
        None \<Rightarrow> [guard_err fn (length lines - 1) (''No "#endif // '' @ cppvar @ ''" found'')]
      | Some line \<Rightarrow>
          if guard_define g \<noteq> ifndef g
          then [guard_err fn 0 (''#ifndef and #define don'' @ squote @
                  ''t match, suggested CPP variable is: '' @ cppvar)]
          else case endif_line cppvar line of
                 Inl x \<Rightarrow> [Raise x]
               | Inr True \<Rightarrow> []
               | Inr False \<Rightarrow> ParseNolintSuppressions fn (lines ! endif_linenum g) (int (endif_linenum g)) @
                   [guard_err fn (endif_linenum g) (''#endif line should be "#endif // '' @ cppvar @ ''"'')])\<close>

definition CheckForHeaderGuard :: "env \<Rightarrow> string \<Rightarrow> string list \<Rightarrow> act list" where
  "CheckForHeaderGuard e fn lines =
     (case GetHeaderGuardCPPVariable e fn of
        Inl x \<Rightarrow> [Raise x]
      | Inr cppvar \<Rightarrow>
          let g = scan_guard 0 lines guard_start
          in case ifndef g of
               None \<Rightarrow> [guard_err fn 0 (''No #ifndef header guard found, suggested CPP variable is: '' @ cppvar)]
             | Some guard \<Rightarrow>
                 if guard_define g = None
                 then [guard_err fn 0 (''No #define header guard found, suggested CPP variable is: '' @ cppvar)]
                 else emit_if (\<not> startswith guard cppvar)
                        (ParseNolintSuppressions fn (lines ! ifndef_linenum g) (int (ifndef_linenum g)) @
                         [guard_err fn (ifndef_linenum g)
                            (''#ifndef header guard has wrong style, suggested is: '' @ cppvar)]) @
                      guard_end_errors fn lines cppvar g)"

subsection \<open>Text of the file\<close>

text \<open>The lines as code points: the replacement character is 0xFFFD.\<close>

definition CheckForUnicodeReplacementCharacters :: "string \<Rightarrow> nat list list \<Rightarrow> act list" where
  "CheckForUnicodeReplacementCharacters fn lines =
     concat (map (\<lambda>(linenum, line). emit_if (List.member line 65533)
       [Err fn (int linenum) ''readability/utf8'' 5
          ''Line contains invalid UTF-8 (or Unicode replacement character).''])
       (enumerate 0 lines))"

definition code_points :: "string \<Rightarrow> nat list" where "code_points s = map (\<lambda>c. nat (code c)) s"

definition CheckForNewlineAtEOF :: "string \<Rightarrow> string list \<Rightarrow> act list" where
  "CheckForNewlineAtEOF fn lines =
     emit_if (length lines < 3 \<or> lines ! (length lines - 2) \<noteq> [])
       [Err fn (int (length lines) - 2) ''whitespace/ending_newline'' 5
          ''Could not find a newline character at the end of the file.'']"

subsection \<open>Line checks\<close>

definition CheckForMultilineCommentsAndStrings :: "string \<Rightarrow> cleansed_lines \<Rightarrow> nat \<Rightarrow> act list" where
  \<open>CheckForMultilineCommentsAndStrings fn clean linenum =
     (let line = replace (elided clean ! linenum) (bs ''``'') [];
          n = int linenum
      in emit_if (count_sub line ''*/'' < count_sub line ''/*'')
           [Err fn n ''readability/multiline_comment'' 5
             (''Complex multi-line /*...*/-style comment found. '' @
              ''Lint may give bogus warnings.  '' @
              ''Consider replacing these with //-style comments, '' @
              ''with #if 0...#endif, '' @
              ''or with more clearly structured multi-line comments.'')] @
         emit_if (odd (int (count_sub line ''"'') - int (count_sub line (bs ''`"''))))
           [Err fn n ''readability/multiline_string'' 5
             (''Multi-line string ("...") found.  This lint script doesn'' @ squote @ ''t '' @
              ''do well with such strings, and may give bogus warnings.  They'' @ squote @ ''re '' @
              ''ugly and unnecessary, and you should use concatenation instead".'')])\<close>

definition threading_list :: "(string \<times> string) list" where
  "threading_list =
    [(''asctime('', ''asctime_r(''), (''ctime('', ''ctime_r(''), (''getgrgid('', ''getgrgid_r(''),
     (''getgrnam('', ''getgrnam_r(''), (''getlogin('', ''getlogin_r(''), (''getpwnam('', ''getpwnam_r(''),
     (''getpwuid('', ''getpwuid_r(''), (''gmtime('', ''gmtime_r(''), (''localtime('', ''localtime_r(''),
     (''rand('', ''rand_r(''), (''readdir('', ''readdir_r(''), (''strtok('', ''strtok_r(''),
     (''ttyname('', ''ttyname_r('')]"

text \<open>The first occurrence is a call of the function itself: nothing joins it to the left.\<close>

definition unsafe_call :: "string \<Rightarrow> string \<Rightarrow> bool" where
  "unsafe_call line f \<longleftrightarrow>
     (let ix = find line f
      in 0 \<le> ix \<and> (ix = 0 \<or> (let c = line ! nat (ix - 1) in \<not> ualnum c \<and> \<not> List.member ''_.>'' c)))"

definition CheckPosixThreading :: "string \<Rightarrow> cleansed_lines \<Rightarrow> nat \<Rightarrow> act list" where
  "CheckPosixThreading fn clean linenum =
     concat (map (\<lambda>(single, safe). emit_if (unsafe_call (elided clean ! linenum) single)
       [Err fn (int linenum) ''runtime/threadsafe_fn'' 2
          (''Consider using '' @ safe @ ''...) instead of '' @ single @
           ''...) for improved thread safety.'')]) threading_list)"

definition RE_PATTERN_INVALID_INCREMENT :: string where
  "RE_PATTERN_INVALID_INCREMENT = ''^`s*`*`w+(`+`+|--);''"

definition CheckInvalidIncrement :: "string \<Rightarrow> cleansed_lines \<Rightarrow> nat \<Rightarrow> act list" where
  "CheckInvalidIncrement fn clean linenum =
     emit_if (matches RE_PATTERN_INVALID_INCREMENT (elided clean ! linenum))
       [Err fn (int linenum) ''runtime/invalid_increment'' 5
          ''Changing pointer instead of value (or unused value of operator*).'']"

subsection \<open>Facts\<close>

lemma wf_CheckForCopyright [act_simps]: "wf_acts (CheckForCopyright e fn lines)"
  by (simp add: CheckForCopyright_def)

lemma relpath_Inl: "relpath e p s = Inl x \<Longrightarrow> expected_exn x"
  by (auto simp: relpath_def Let_def split: if_splits)

lemma check_CheckForHeaderGuard: "list_all check_act (CheckForHeaderGuard e fn lines)"
proof -
  have v: "expected_exn x" if "GetHeaderGuardCPPVariable e fn = Inl x" for x
    using that relpath_Inl
    by (auto simp: GetHeaderGuardCPPVariable_def ProjectScopeName_def map_sum_def split: sum.splits)
  have n: "list_all check_act (ParseNolintSuppressions fn raw n)" for raw n
    by (rule acts_of_wf(1) [OF wf_ParseNolintSuppressions])
  have "list_all check_act (guard_end_errors fn lines v g)" for v g
    by (auto simp: guard_end_errors_def guard_err_def endif_line_def n check_act_def
        split: option.split sum.split bool.split)
  with v show ?thesis
    by (auto simp: CheckForHeaderGuard_def Let_def guard_err_def n check_act_def
        split: option.split sum.split)
qed

lemma wf_CheckForUnicode [act_simps]: "wf_acts (CheckForUnicodeReplacementCharacters fn ls)"
  by (simp add: CheckForUnicodeReplacementCharacters_def list_all_concat list_all_mapI split_def)
     (simp add: list_all_iff)

lemma wf_CheckForNewlineAtEOF [act_simps]: "wf_acts (CheckForNewlineAtEOF fn ls)"
  by (simp add: CheckForNewlineAtEOF_def)

lemma wf_CheckForMultiline [act_simps]: "wf_acts (CheckForMultilineCommentsAndStrings fn clean n)"
  by (simp add: CheckForMultilineCommentsAndStrings_def Let_def)

lemma wf_CheckPosixThreading [act_simps]: "wf_acts (CheckPosixThreading fn clean n)"
  by (simp add: CheckPosixThreading_def threading_list_def)

lemma wf_CheckInvalidIncrement [act_simps]: "wf_acts (CheckInvalidIncrement fn clean n)"
  by (simp add: CheckInvalidIncrement_def)

end
