(* ===== verification/RegexGroups.thy ===== *)
theory RegexGroups
  imports RegexFacts
begin

text \<open>
  Where the groups of a match lie: how much text a pattern consumes at least, how much of it
  before a group starts, and which groups take part in every match. The loops of the source
  that continue with the text of a group end because that text is shorter than the line.
\<close>

primrec min_width :: "rx \<Rightarrow> nat" where
  "min_width REmpty = 0"
| "min_width (RSet neg cs) = 1"
| "min_width RAny = 1"
| "min_width RBol = 0"
| "min_width REol = 0"
| "min_width RWordB = 0"
| "min_width (RSeq a b) = min_width a + min_width b"
| "min_width (RAlt a b) = min (min_width a) (min_width b)"
| "min_width (RStar g a) = 0"
| "min_width (RGrp k a) = min_width a"
| "min_width (RLook pos a) = 0"
| "min_width (RBack k) = 0"

primrec has_group :: "nat \<Rightarrow> rx \<Rightarrow> bool" where
  "has_group k REmpty = False"
| "has_group k (RSet neg cs) = False"
| "has_group k RAny = False"
| "has_group k RBol = False"
| "has_group k REol = False"
| "has_group k RWordB = False"
| "has_group k (RSeq a b) = (has_group k a \<or> has_group k b)"
| "has_group k (RAlt a b) = (has_group k a \<or> has_group k b)"
| "has_group k (RStar g a) = has_group k a"
| "has_group k (RGrp j a) = (k = j \<or> has_group k a)"
| "has_group k (RLook pos a) = False"
| "has_group k (RBack j) = False"

text \<open>A lower bound of the text consumed before group \<open>k\<close> starts.\<close>

primrec before :: "nat \<Rightarrow> rx \<Rightarrow> nat" where
  "before k REmpty = 0"
| "before k (RSet neg cs) = 0"
| "before k RAny = 0"
| "before k RBol = 0"
| "before k REol = 0"
| "before k RWordB = 0"
| "before k (RSeq a b) =
     (if has_group k a then (if has_group k b then 0 else before k a) else min_width a + before k b)"
| "before k (RAlt a b) =
     (if has_group k a then (if has_group k b then min (before k a) (before k b) else before k a)
      else before k b)"
| "before k (RStar g a) = 0"
| "before k (RGrp j a) = (if k = j then 0 else before k a)"
| "before k (RLook pos a) = 0"
| "before k (RBack j) = 0"

text \<open>A lower bound of the text consumed after group \<open>k\<close> ends.\<close>

primrec after :: "nat \<Rightarrow> rx \<Rightarrow> nat" where
  "after k REmpty = 0"
| "after k (RSet neg cs) = 0"
| "after k RAny = 0"
| "after k RBol = 0"
| "after k REol = 0"
| "after k RWordB = 0"
| "after k (RSeq a b) =
     (if has_group k a then (if has_group k b then 0 else after k a + min_width b) else after k b)"
| "after k (RAlt a b) =
     (if has_group k a then (if has_group k b then min (after k a) (after k b) else after k a)
      else after k b)"
| "after k (RStar g a) = 0"
| "after k (RGrp j a) = (if k = j then 0 else after k a)"
| "after k (RLook pos a) = 0"
| "after k (RBack j) = 0"

text \<open>Group \<open>k\<close> takes part in every match.\<close>

primrec always :: "nat \<Rightarrow> rx \<Rightarrow> bool" where
  "always k REmpty = False"
| "always k (RSet neg cs) = False"
| "always k RAny = False"
| "always k RBol = False"
| "always k REol = False"
| "always k RWordB = False"
| "always k (RSeq a b) = (always k a \<or> always k b)"
| "always k (RAlt a b) = (always k a \<and> always k b)"
| "always k (RStar g a) = False"
| "always k (RGrp j a) = (k = j \<or> always k a)"
| "always k (RLook pos a) = False"
| "always k (RBack j) = False"

lemma min_width_le: "(s, t) \<in> den r \<Longrightarrow> length (text_past s) + min_width r \<le> length (text_past t)"
proof (induction r arbitrary: s t)
  case (RSeq a b)
  from RSeq.prems obtain u where "(s, u) \<in> den a" "(u, t) \<in> den b" by auto
  then show ?case using RSeq.IH(1) [of s u] RSeq.IH(2) [of u t] by simp
next
  case (RAlt a b)
  from RAlt.prems have "(s, t) \<in> den a \<or> (s, t) \<in> den b" by simp
  then show ?case using RAlt.IH(1) [of s t] RAlt.IH(2) [of s t] by auto
next
  case (RStar g a)
  from RStar.prems have "advances s t" by (rule den_advances)
  then show ?case by (simp add: advances_length)
next
  case (RGrp k a)
  from RGrp.prems obtain u where "(s, u) \<in> den a" "text_past t = text_past u" by auto
  then show ?case using RGrp.IH [of s u] by simp
next
  case (RBack k)
  from RBack.prems have "advances s t" by (rule den_advances)
  then show ?case by (simp add: advances_length)
qed (auto simp: eats_def)

definition cap_within :: "rx \<Rightarrow> mstate \<Rightarrow> mstate \<Rightarrow> bool" where
  "cap_within r s t \<longleftrightarrow> (\<forall>k i j. (k, i, j) \<in> set (caps_of t) \<longrightarrow> (k, i, j) \<in> set (caps_of s) \<or>
     (has_group k r \<and> length (text_past s) + before k r \<le> i \<and> i \<le> j \<and>
      j + after k r \<le> length (text_past t)))"

lemma cap_within_refl: "caps_of t = caps_of s \<Longrightarrow> cap_within r s t"
  by (simp add: cap_within_def)

lemma den_caps: "(s, t) \<in> den r \<Longrightarrow> cap_within r s t"
proof (induction r arbitrary: s t)
  case (RSeq a b)
  from RSeq.prems obtain u where u: "(s, u) \<in> den a" "(u, t) \<in> den b" by auto
  have "length (text_past s) + min_width a \<le> length (text_past u)" by (rule min_width_le [OF u(1)])
  moreover have "length (text_past u) + min_width b \<le> length (text_past t)"
    by (rule min_width_le [OF u(2)])
  ultimately show ?case
    using RSeq.IH(1) [OF u(1)] RSeq.IH(2) [OF u(2)] unfolding cap_within_def
    by (simp del: split_paired_All) fastforce
next
  case (RAlt a b)
  then have "(s, t) \<in> den a \<or> (s, t) \<in> den b" by simp
  then consider "cap_within a s t" | "cap_within b s t" using RAlt.IH [of s t] by blast
  then show ?case unfolding cap_within_def by cases (fastforce simp: min_le_iff_disj)+
next
  case (RStar g a)
  from RStar.prems have "(s, t) \<in> (den a \<inter> progress)\<^sup>*" by simp
  then show ?case
  proof (induction rule: rtrancl_induct)
    case base
    show ?case by (simp add: cap_within_refl)
  next
    case (step u t)
    have "length (text_past s) \<le> length (text_past u)"
      using step(1) den_advances [of s u "RStar g a"] by (simp add: advances_length)
    moreover have "length (text_past u) \<le> length (text_past t)"
      using step(2) den_advances [of u t a] by (simp add: advances_length)
    moreover have "cap_within a u t" using step(2) RStar.IH by auto
    ultimately show ?case using step.IH unfolding cap_within_def by fastforce
  qed
next
  case (RGrp k a)
  then obtain u where u: "(s, u) \<in> den a"
    and t: "t = (text_past u, text_left u, (k, length (text_past s), length (text_past u)) # caps_of u)"
    by auto
  have "length (text_past s) \<le> length (text_past u)"
    using den_advances [OF u] by (simp add: advances_length)
  then show ?case using RGrp.IH [OF u] t unfolding cap_within_def by fastforce
qed (auto intro: cap_within_refl simp: eats_def)

lemma caps_mono: "(s, t) \<in> den r \<Longrightarrow> fst ` set (caps_of s) \<subseteq> fst ` set (caps_of t)"
proof (induction r arbitrary: s t)
  case (RSeq a b)
  from RSeq.prems obtain u where "(s, u) \<in> den a" "(u, t) \<in> den b" by auto
  then show ?case using RSeq.IH(1) [of s u] RSeq.IH(2) [of u t] by blast
next
  case (RAlt a b)
  from RAlt.prems have "(s, t) \<in> den a \<or> (s, t) \<in> den b" by simp
  then show ?case using RAlt.IH(1) [of s t] RAlt.IH(2) [of s t] by blast
next
  case (RStar g a)
  from RStar.prems have "(s, t) \<in> (den a \<inter> progress)\<^sup>*" by simp
  then show ?case by (induction rule: rtrancl_induct) (use RStar.IH in blast)+
next
  case (RGrp k a)
  from RGrp.prems obtain u where u: "(s, u) \<in> den a" "fst ` set (caps_of t) = insert k (fst ` set (caps_of u))"
    by auto
  then show ?case using RGrp.IH [OF u(1)] by blast
qed (auto simp: eats_def)

lemma always_caps: "always k r \<Longrightarrow> (s, t) \<in> den r \<Longrightarrow> k \<in> fst ` set (caps_of t)"
proof (induction r arbitrary: s t)
  case (RSeq a b)
  from RSeq.prems obtain u where "(s, u) \<in> den a" "(u, t) \<in> den b" by auto
  then show ?case
    using RSeq.IH(1) [of s u] RSeq.IH(2) [of u t] RSeq.prems(1) caps_mono [of u t b]
    by (auto simp only: always.simps)
next
  case (RAlt a b)
  from RAlt.prems have "(s, t) \<in> den a \<or> (s, t) \<in> den b" by simp
  then show ?case using RAlt.IH(1) [of s t] RAlt.IH(2) [of s t] RAlt.prems(1) by auto
next
  case (RGrp j a)
  from RGrp.prems(2) obtain u where u: "(s, u) \<in> den a" "fst ` set (caps_of t) = insert j (fst ` set (caps_of u))"
    by auto
  then show ?case using RGrp.IH [OF _ u(1)] RGrp.prems(1) by auto
qed simp_all

lemma cap_lookup_in: "cap_lookup k cs = Some (i, j) \<Longrightarrow> (k, i, j) \<in> set cs"
  by (induction k cs rule: cap_lookup.induct) (auto split: if_splits)

lemma cap_lookup_None: "cap_lookup k cs = None \<longleftrightarrow> k \<notin> fst ` set cs"
  by (induction k cs rule: cap_lookup.induct) auto

subsection \<open>Groups of a match\<close>

lemma rx_match_den:
  assumes "rx_match r s = Some m"
  shows "\<exists>t. (([], s, []), t) \<in> den r \<and> m = mk_match 0 t"
  using assms by (auto simp: rx_match_def outs_iff_den [symmetric] split: list.splits
      simp del: split_paired_Ex)

lemma rx_search_den:
  assumes "rx_search r s = Some m"
  shows "\<exists>t. (at_pos s (m_start m), t) \<in> den r \<and> m = mk_match (m_start m) t"
proof -
  from rx_search_Some(2) [OF assms] obtain t ts
    where "outs r (at_pos s (m_start m)) = t # ts" "m = mk_match (m_start m) t" by blast
  moreover from this have "(at_pos s (m_start m), t) \<in> den r" by (simp flip: outs_iff_den)
  ultimately show ?thesis by blast
qed

lemma match_min_width:
  assumes "rx_match r s = Some m" shows "min_width r \<le> length s"
proof -
  from rx_match_den [OF assms] obtain t where t: "(([], s, []), t) \<in> den r" by blast
  have "subject t = s" using advances_subject [OF den_advances [OF t]] by (simp add: subject_def)
  then have "length (text_past t) \<le> length s"
    by (metis subject_def length_append length_rev le_add1)
  with min_width_le [OF t] show ?thesis by simp
qed

text \<open>The text of a group that starts behind other text is shorter than the line.\<close>

lemma match_group_shorter:
  assumes m: "rx_match r s = Some m" and k: "0 < k" "0 < before k r" "0 < min_width r"
  shows "length (grp m k) < length s"
proof -
  from rx_match_den [OF m] obtain t where t: "(([], s, []), t) \<in> den r" "m = mk_match 0 t" by blast
  have sub: "subject t = s" using advances_subject [OF den_advances [OF t(1)]] by (simp add: subject_def)
  have s: "0 < length s" using match_min_width [OF m] k(3) by linarith
  show ?thesis
  proof (cases "cap_lookup k (caps_of t)")
    case None
    then show ?thesis using s k(1) t(2) by (simp add: grp_def group_def span_def mk_match_def)
  next
    case (Some ij)
    obtain i j where ij: "ij = (i, j)" by (cases ij)
    with Some have "(k, i, j) \<in> set (caps_of t)" by (simp add: cap_lookup_in)
    with den_caps [OF t(1)] have "before k r \<le> i" "i \<le> j" "j \<le> length (text_past t)"
      by (force simp: cap_within_def)+
    moreover have "length (text_past t) \<le> length s"
      using sub by (metis subject_def length_append length_rev le_add1)
    ultimately have "j - i < length s" using k(2) s by linarith
    moreover have "grp m k = slice i j s"
      using Some k(1) t(2) sub by (simp add: grp_def group_def span_def mk_match_def ij)
    ultimately show ?thesis by (simp add: slice_def)
  qed
qed

lemma search_group_shorter:
  assumes m: "rx_search r s = Some m" and k: "0 < k" "0 < before k r + after k r" "0 < min_width r"
  shows "length (grp m k) < length s"
proof -
  from rx_search_den [OF m] obtain t where t: "(at_pos s (m_start m), t) \<in> den r" "m = mk_match (m_start m) t"
    by blast
  have sub: "subject t = s" using advances_subject [OF den_advances [OF t(1)]] by simp
  have past: "length (text_past t) \<le> length s"
    using sub by (metis subject_def length_append length_rev le_add1)
  have s: "0 < length s" using min_width_le [OF t(1)] k(3) past by linarith
  have caps: "m_caps m = caps_of t" "m_string m = s" using t(2) sub
    by (metis mk_match_def rmatch.select_convs(4)) (metis mk_match_def rmatch.select_convs(1) sub t(2))
  show ?thesis
  proof (cases "cap_lookup k (caps_of t)")
    case None
    then show ?thesis using s k(1) caps by (simp add: grp_def group_def span_def)
  next
    case (Some ij)
    obtain i j where ij: "ij = (i, j)" by (cases ij)
    with Some have "(k, i, j) \<in> set (caps_of t)" by (simp add: cap_lookup_in)
    with den_caps [OF t(1)] have "before k r \<le> i" "i \<le> j" "j + after k r \<le> length (text_past t)"
      by (force simp: cap_within_def at_pos_def)+
    then have "j - i < length s" using k(2) past s by linarith
    moreover have "grp m k = slice i j s"
      using Some k(1) caps by (simp add: grp_def group_def span_def ij)
    ultimately show ?thesis by (simp add: slice_def)
  qed
qed

lemma Search_group_shorter:
  "Search p s = Some m \<Longrightarrow> 0 < k \<Longrightarrow> 0 < before k (rx p) + after k (rx p) \<and> 0 < min_width (rx p) \<Longrightarrow>
     length (grp m k) < length s"
  using search_group_shorter [of "rx p" s m k] by (simp add: Search_def)

lemma Match_group_shorter:
  "Match p s = Some m \<Longrightarrow> 0 < k \<Longrightarrow> 0 < before k (rx p) \<and> 0 < min_width (rx p) \<Longrightarrow>
     length (grp m k) < length s"
  using match_group_shorter [of "rx p" s m k] by (simp add: Match_def)

lemma match_group_always:
  assumes "rx_match r s = Some m" "always k r" shows "group m k \<noteq> None"
proof -
  from rx_match_den [OF assms(1)] obtain t where t: "(([], s, []), t) \<in> den r" "m = mk_match 0 t" by blast
  from always_caps [OF assms(2) t(1)] have "cap_lookup k (caps_of t) \<noteq> None"
    by (simp add: cap_lookup_None)
  with t(2) show ?thesis by (auto simp: group_def span_def mk_match_def)
qed

lemma search_group_always:
  assumes "rx_search r s = Some m" "always k r" shows "group m k \<noteq> None"
proof -
  from rx_search_den [OF assms(1)] obtain t
    where t: "(at_pos s (m_start m), t) \<in> den r" "m = mk_match (m_start m) t" by blast
  from always_caps [OF assms(2) t(1)] have "cap_lookup k (caps_of t) \<noteq> None"
    by (simp add: cap_lookup_None)
  moreover have "m_caps m = caps_of t" using t(2) by (metis mk_match_def rmatch.select_convs(4))
  ultimately show ?thesis by (auto simp: group_def span_def)
qed

lemma den_seqE: "(s, t) \<in> den (RSeq a b) \<Longrightarrow> (\<And>u. (s, u) \<in> den a \<Longrightarrow> (u, t) \<in> den b \<Longrightarrow> R) \<Longrightarrow> R"
  unfolding den.simps(7) by blast

lemma den_grpE: "(s, t) \<in> den (RGrp k a) \<Longrightarrow> (\<And>u. (s, u) \<in> den a \<Longrightarrow>
    t = (text_past u, text_left u, (k, length (text_past s), length (text_past u)) # caps_of u) \<Longrightarrow> R) \<Longrightarrow> R"
  unfolding den.simps(10) by blast

subsection \<open>Runs of characters\<close>

lemma eats_append: "eats (v @ w) s t \<longleftrightarrow> (\<exists>u. eats v s u \<and> eats w u t)"
proof
  assume "eats (v @ w) s t"
  then have "eats v s (rev v @ text_past s, w @ text_left t, caps_of s) \<and>
      eats w (rev v @ text_past s, w @ text_left t, caps_of s) t"
    by (auto simp: eats_def)
  then show "\<exists>u. eats v s u \<and> eats w u t" by blast
next
  assume "\<exists>u. eats v s u \<and> eats w u t"
  then show "eats (v @ w) s t" by (auto simp: eats_def)
qed

text \<open>A repeated character class consumes a run of its characters.\<close>

lemma star_class_iff:
  assumes a: "den a = {(s, t). \<exists>c. P c \<and> eats [c] s t}"
  shows "(s, t) \<in> den (RStar g a) \<longleftrightarrow> (\<exists>w. list_all P w \<and> eats w s t)"
proof
  assume "(s, t) \<in> den (RStar g a)"
  then have "(s, t) \<in> (den a \<inter> progress)\<^sup>*" by simp
  then show "\<exists>w. list_all P w \<and> eats w s t"
  proof (induction rule: rtrancl_induct)
    case base
    have "list_all P [] \<and> eats [] s s" by simp
    then show ?case by blast
  next
    case (step u t)
    from step(2) a obtain c where "P c" "eats [c] u t" by auto
    moreover from step.IH obtain w where "list_all P w" "eats w s u" by blast
    ultimately have "list_all P (w @ [c]) \<and> eats (w @ [c]) s t" by (auto simp: eats_def)
    then show ?case by blast
  qed
next
  assume "\<exists>w. list_all P w \<and> eats w s t"
  then obtain w where "list_all P w" "eats w s t" by blast
  then show "(s, t) \<in> den (RStar g a)"
  proof (induction w arbitrary: s)
    case (Cons c w)
    from Cons.prems(2) obtain r where r: "text_left s = c # r" "eats w (c # text_past s, r, caps_of s) t"
      by (auto simp: eats_Cons)
    let ?u = "(c # text_past s, r, caps_of s)"
    have "eats [c] s ?u" using r(1) by (simp add: eats_def)
    then have "(s, ?u) \<in> den a \<inter> progress" using a r(1) Cons.prems(1) by (auto simp: progress_def)
    moreover have "(?u, t) \<in> den (RStar g a)" using Cons.IH [of ?u] r(2) Cons.prems(1) by simp
    ultimately show ?case by (simp add: converse_rtrancl_into_rtrancl)
  qed simp
qed

lemma star_set_iff:
  "(s, t) \<in> den (RStar g (RSet neg cs)) \<longleftrightarrow> (\<exists>w. list_all (in_set neg cs) w \<and> eats w s t)"
  by (rule star_class_iff) simp

lemma star_any_iff:
  "(s, t) \<in> den (RStar g RAny) \<longleftrightarrow> (\<exists>w. list_all (\<lambda>c. code c \<noteq> 10) w \<and> eats w s t)"
  by (rule star_class_iff) simp

lemma rx_match_None: "rx_match r s = None \<longleftrightarrow> (\<nexists>t. (([], s, []), t) \<in> den r)"
  unfolding rx_match_def outs_iff_den [symmetric]
  by (cases "outs r ([], s, [])") (auto simp del: split_paired_Ex)

subsection \<open>The first character of a set\<close>

text \<open>
  The patterns \<open>^[^...]*([...])(.*)$\<close> of the loops that walk over a line: the text up to the
  first character with \<open>P\<close>, that character as group 1, and what follows it as group 2.
\<close>

definition first_of :: "rx \<Rightarrow> rx \<Rightarrow> rx" where
  "first_of a b = RSeq RBol (RSeq (RStar True a) (RSeq (RGrp 1 (RSeq b REmpty))
     (RSeq (RGrp 2 (RSeq (RStar True RAny) REmpty)) (RSeq REol REmpty))))"

lemma den_first_of: "den (first_of a b) =
    den RBol O den (RStar True a) O den (RGrp 1 b) O den (RGrp 2 (RStar True RAny)) O den REol"
  unfolding first_of_def by (simp only: den.simps(1,7,10) R_O_Id)

lemma first_of_den:
  assumes a: "den a = {(s, t). \<exists>c. \<not> P c \<and> eats [c] s t}" and b: "den b = {(s, t). \<exists>c. P c \<and> eats [c] s t}"
    and nl: "CHR 0x0A \<notin> set line"
  shows "(([], line, []), t) \<in> den (first_of a b) \<longleftrightarrow>
    (\<exists>p c r. line = p @ c # r \<and> list_all (\<lambda>c. \<not> P c) p \<and> P c \<and>
       t = (rev line, [], [(2, length p + 1, length line), (1, length p, length p + 1)]))"
  (is "_ \<longleftrightarrow> ?R")
proof
  assume "(([], line, []), t) \<in> den (first_of a b)"
  then obtain o1 u v z where chain: "(([], line, []), o1) \<in> den RBol"
      "(o1, u) \<in> den (RStar True a)" "(u, v) \<in> den (RGrp 1 b)"
      "(v, z) \<in> den (RGrp 2 (RStar True RAny))" "(z, t) \<in> den REol"
    unfolding den_first_of by (elim relcompE) (simp only: prod.inject)
  from chain(1) have "o1 = ([], line, [])" by simp
  with chain(2) obtain w where w: "list_all (\<lambda>c. \<not> P c) w" "eats w ([], line, []) u"
    unfolding star_class_iff [OF a] by blast
  from chain(3) obtain y c where c: "P c" "eats [c] u y"
    "v = (text_past y, text_left y, (1, length (text_past u), length (text_past y)) # caps_of y)"
    unfolding den.simps(10) b by blast
  from chain(4) obtain q x where x: "eats x v q"
    "z = (text_past q, text_left q, (2, length (text_past v), length (text_past q)) # caps_of q)"
    unfolding den.simps(10) star_any_iff by blast
  from chain(5) have z: "t = z" "text_left z = [] \<or> text_left z = [CHR 0x0A]" by auto
  have u: "line = w @ text_left u" "text_past u = rev w" "caps_of u = []" using w(2) by (auto simp: eats_def)
  have y: "text_left u = c # text_left y" "text_past y = c # rev w" "caps_of y = []"
    using c(2) u by (auto simp: eats_def)
  have q: "text_left y = x @ text_left q" "text_past q = rev x @ c # rev w"
    "caps_of q = [(1, length w, length w + 1)]"
    using x(1) y u(2) unfolding c(3) by (auto simp: eats_def)
  have line: "line = w @ c # x @ text_left q" using u(1) y(1) q(1) by simp
  moreover have "text_left q = [] \<or> text_left q = [CHR 0x0A]" using z(2) x(2) by simp
  ultimately have nil: "text_left q = []" using nl by auto
  have "text_past v = c # rev w" using c(3) y(2) by simp
  then have "t = (rev line, [], [(2, length w + 1, length line), (1, length w, length w + 1)])"
    using z(1) q(2,3) line nil unfolding x(2) by simp
  with line nil w(1) c(1) show ?R by auto
next
  assume ?R
  then obtain p c r where R: "line = p @ c # r" "list_all (\<lambda>c. \<not> P c) p" "P c"
    "t = (rev line, [], [(2, length p + 1, length line), (1, length p, length p + 1)])" by blast
  have "code d \<noteq> 10" if "d \<in> set line" for d
  proof
    assume "code d = 10"
    then have "d = CHR 0x0A" by (simp add: char_eq_code code_def)
    with that nl show False by simp
  qed
  then have r: "list_all (\<lambda>c. code c \<noteq> 10) r" using R(1) by (simp add: list_all_iff)
  define u v y :: mstate where "u = (rev p, c # r, [])" and "v = (c # rev p, r, [(1, length p, length p + 1)])"
    and "y = (rev r @ c # rev p, [], [(1, length p, length p + 1)])"
  have "(([], line, []), ([], line, [])) \<in> den RBol" by simp
  moreover have "eats p ([], line, []) u" using R(1) by (simp add: eats_def u_def)
  then have "(([], line, []), u) \<in> den (RStar True a)"
    unfolding star_class_iff [OF a] using R(2) by blast
  moreover have "eats [c] u (c # rev p, r, [])" by (simp add: eats_def u_def)
  then have "(u, v) \<in> den (RGrp 1 b)"
    unfolding den.simps(10) b u_def v_def using R(3) by auto
  moreover have "eats r v y" by (simp add: eats_def v_def y_def)
  then have "(v, y) \<in> den (RStar True RAny)" unfolding star_any_iff using r by blast
  then have "(v, t) \<in> den (RGrp 2 (RStar True RAny))"
    unfolding den.simps(10) using R(1,4) by (auto simp: v_def y_def)
  moreover have "(t, t) \<in> den REol" using R(4) by simp
  ultimately show "(([], line, []), t) \<in> den (first_of a b)"
    unfolding den_first_of by blast
qed

lemma first_of_match:
  assumes a: "den a = {(s, t). \<exists>c. \<not> P c \<and> eats [c] s t}" and b: "den b = {(s, t). \<exists>c. P c \<and> eats [c] s t}"
    and n: "CHR 0x0A \<notin> set line"
  shows "(rx_match (first_of a b) line = None \<and> list_all (\<lambda>c. \<not> P c) line) \<or>
    (\<exists>m p c r. rx_match (first_of a b) line = Some m \<and> line = p @ c # r \<and> list_all (\<lambda>c. \<not> P c) p \<and>
       P c \<and> grp m 1 = [c] \<and> grp m 2 = r)"
proof (cases "rx_match (first_of a b) line")
  case None
  have "\<not> P c" if "c \<in> set line" for c
  proof
    assume "P c"
    with that obtain p c r where "line = p @ c # r" "P c" "\<forall>d\<in>set p. \<not> P d"
      using split_list_first_prop [of line P] by blast
    with first_of_den [OF a b n] have "\<exists>t. (([], line, []), t) \<in> den (first_of a b)"
      unfolding list_all_iff by blast
    with None show False by (simp add: rx_match_None)
  qed
  with None show ?thesis by (simp add: list_all_iff)
next
  case (Some m)
  then obtain t where t: "(([], line, []), t) \<in> den (first_of a b)" "m = mk_match 0 t"
    using rx_match_den by blast
  from t(1) first_of_den [OF a b n] obtain p c r where R: "line = p @ c # r" "list_all (\<lambda>c. \<not> P c) p"
    "P c" "t = (rev line, [], [(2, length p + 1, length line), (1, length p, length p + 1)])" by blast
  then have "grp m 1 = [c] \<and> grp m 2 = r"
    using t(2) by (simp add: grp_def group_def span_def mk_match_def subject_def slice_def)
  with Some R show ?thesis by blast
qed

text \<open>A search for a pattern that starts with a caret is a match.\<close>

lemma search_anchored: "rx_search (RSeq RBol r) s = rx_match (RSeq RBol r) s"
proof -
  have none: "outs (RSeq RBol r) (c # p, x, cs) = []" for c p x cs by simp
  have "search_from (RSeq RBol r) (c # p) x = None" for c p x
    by (induction x arbitrary: c p) (simp_all only: search_from.simps [of "RSeq RBol r"] none list.case)
  then show ?thesis
    by (simp add: rx_search_def rx_match_def search_from.simps [of "RSeq RBol r" "[]"] mk_match_def
        split: list.split)
qed

end
