(* ===== verification/Nesting.thy ===== *)
theory Nesting
  imports FileChecks RegexGroups
begin

text \<open>
  The parser of blocks: \<open>_BlockInfo\<close>, \<open>_ClassInfo\<close>, \<open>_NamespaceInfo\<close>, \<open>_PreprocessorInfo\<close>
  and \<open>_NestingState\<close>. The two stacks of the source are lists whose head is the top. The
  source copies a stack whenever it saves one, so stacks are values here.
\<close>

subsection \<open>Blocks\<close>

datatype asm_state = NO_ASM | INSIDE_ASM | END_ASM | BLOCK_ASM

record class_info =
  class_name :: string
  class_start :: nat
  is_derived :: bool
  access :: string
  class_last_line :: nat

datatype block_kind = PlainBlock | ClassBlock class_info | NamespaceBlock string nat

record block =
  seen_open_brace :: bool
  open_parentheses :: int
  inline_asm :: asm_state
  kind :: block_kind

definition BlockInfo :: "bool \<Rightarrow> block_kind \<Rightarrow> block" where
  "BlockInfo seen k = \<lparr>seen_open_brace = seen, open_parentheses = 0, inline_asm = NO_ASM, kind = k\<rparr>"

definition MATCH_ASM :: string where
  "MATCH_ASM = ''^`s*(?:asm|_asm|__asm|__asm__)(?:`s+(volatile|__volatile__))?`s*[{(]''"

definition brace_delta :: "string \<Rightarrow> int" where
  "brace_delta line = int (count_list line (CHR ''{'')) - int (count_list line (CHR ''}''))"

text \<open>The loop that looks for the end of a class: 0 when there is none.\<close>

fun class_end :: "nat \<Rightarrow> int \<Rightarrow> string list \<Rightarrow> nat" where
  "class_end i depth [] = 0"
| "class_end i depth (line # lines) =
     (let depth = depth + brace_delta line
      in if depth = 0 then i else class_end (i + 1) depth lines)"

definition ClassInfo :: "string \<Rightarrow> string \<Rightarrow> cleansed_lines \<Rightarrow> nat \<Rightarrow> block" where
  "ClassInfo name class_or_struct clean linenum =
     BlockInfo False (ClassBlock \<lparr>class_name = name, class_start = linenum, is_derived = False,
       access = (if class_or_struct = ''struct'' then ''public'' else ''private''),
       class_last_line = class_end linenum 0 (drop linenum (elided clean))\<rparr>)"

definition NamespaceInfo :: "string option \<Rightarrow> nat \<Rightarrow> block" where
  "NamespaceInfo name linenum =
     BlockInfo False (NamespaceBlock (case name of None \<Rightarrow> [] | Some s \<Rightarrow> s) linenum)"

definition isClass :: "block \<Rightarrow> bool" where
  "isClass b \<longleftrightarrow> (case kind b of ClassBlock _ \<Rightarrow> True | _ \<Rightarrow> False)"

definition isNamespace :: "block \<Rightarrow> bool" where
  "isNamespace b \<longleftrightarrow> (case kind b of NamespaceBlock _ _ \<Rightarrow> True | _ \<Rightarrow> False)"

definition CheckBegin :: "string \<Rightarrow> block \<Rightarrow> block" where
  "CheckBegin line b = (case kind b of
      ClassBlock c \<Rightarrow> if found ''(^|[^:]):($|[^:])'' line then b\<lparr>kind := ClassBlock (c\<lparr>is_derived := True\<rparr>)\<rparr> else b
    | _ \<Rightarrow> b)"

text \<open>The comment behind the end of a namespace; its name is escaped in the pattern.\<close>

definition matches_end_comment :: "string \<Rightarrow> string \<Rightarrow> bool" where
  "matches_end_comment name line \<longleftrightarrow>
     (case re_compile (bs ''};*`s*(//|/`*).*`bnamespace`s+'' @ re_escape name @ bs ''[`*/`.```s]*$'') of
        None \<Rightarrow> False | Some r \<Rightarrow> rx_match r line \<noteq> None)"

definition namespace_end :: "string \<Rightarrow> string \<Rightarrow> nat \<Rightarrow> string \<Rightarrow> nat \<Rightarrow> act list" where
  \<open>namespace_end fn line linenum name start =
     (if linenum < start + 10 \<and> \<not> matches ''};*`s*(//|/`*).*`bnamespace`b'' line then []
      else if name \<noteq> [] then
        emit_if (\<not> matches_end_comment name line)
          [Err fn (int linenum) ''readability/namespace'' 5
             (''Namespace should be terminated with "// namespace '' @ name @ ''"'')]
      else
        emit_if (\<not> matches ''};*`s*(//|/`*).*`bnamespace[`*/`.```s]*$'' line)
          [Err fn (int linenum) ''readability/namespace'' 5
             ''Namespace should be terminated with "// namespace"''])\<close>

definition CheckEnd :: "string \<Rightarrow> cleansed_lines \<Rightarrow> nat \<Rightarrow> block \<Rightarrow> act list" where
  "CheckEnd fn clean linenum b = (case kind b of
      NamespaceBlock name start \<Rightarrow> namespace_end fn (raw_lines clean ! linenum) linenum name start
    | _ \<Rightarrow> [])"

subsection \<open>Preprocessor conditions\<close>

record pp_info =
  stack_before_if :: "block list"
  stack_before_else :: "block list"
  seen_else :: bool

definition PreprocessorInfo :: "block list \<Rightarrow> pp_info" where
  "PreprocessorInfo st = \<lparr>stack_before_if = st, stack_before_else = [], seen_else = False\<rparr>"

record nesting =
  blocks :: "block list"
  pp_stack :: "pp_info list"

definition NestingState :: nesting where "NestingState = \<lparr>blocks = [], pp_stack = []\<rparr>"

definition SeenOpenBrace :: "block list \<Rightarrow> bool" where
  "SeenOpenBrace st \<longleftrightarrow> (case st of [] \<Rightarrow> True | b # _ \<Rightarrow> seen_open_brace b)"

definition InNamespaceBody :: "nesting \<Rightarrow> bool" where
  "InNamespaceBody st \<longleftrightarrow> (case blocks st of [] \<Rightarrow> False | b # _ \<Rightarrow> isNamespace b)"

datatype directive = IfDir | ElseDir | EndifDir | NoDir

definition directive_of :: "string \<Rightarrow> directive" where
  "directive_of line =
     (if matches ''^`s*#`s*(if|ifdef|ifndef)`b'' line then IfDir
      else if matches ''^`s*#`s*(else|elif)`b'' line then ElseDir
      else if matches ''^`s*#`s*endif`b'' line then EndifDir else NoDir)"

definition pp_step :: "directive \<Rightarrow> nesting \<Rightarrow> nesting" where
  "pp_step d st =
     (case d of
        IfDir \<Rightarrow> st\<lparr>pp_stack := PreprocessorInfo (blocks st) # pp_stack st\<rparr>
      | ElseDir \<Rightarrow>
          (case pp_stack st of [] \<Rightarrow> st
           | p # ps \<Rightarrow>
               let p = (if seen_else p then p else p\<lparr>seen_else := True, stack_before_else := blocks st\<rparr>)
               in \<lparr>blocks = stack_before_if p, pp_stack = p # ps\<rparr>)
      | EndifDir \<Rightarrow>
          (case pp_stack st of [] \<Rightarrow> st
           | p # ps \<Rightarrow> \<lparr>blocks = (if seen_else p then stack_before_else p else blocks st), pp_stack = ps\<rparr>)
      | NoDir \<Rightarrow> st)"

definition UpdatePreprocessor :: "string \<Rightarrow> nesting \<Rightarrow> nesting" where
  "UpdatePreprocessor line st = pp_step (directive_of line) st"

subsection \<open>One line\<close>

definition paren_delta :: "string \<Rightarrow> int" where
  "paren_delta line = int (count_list line (CHR ''('')) - int (count_list line (CHR '')''))"

definition update_parens :: "string \<Rightarrow> block \<Rightarrow> block" where
  "update_parens line b =
     (let d = paren_delta line; b = b\<lparr>open_parentheses := open_parentheses b + d\<rparr>
      in if inline_asm b = NO_ASM \<or> inline_asm b = END_ASM
         then (if d \<noteq> 0 \<and> open_parentheses b = 1 \<and> matches MATCH_ASM line
               then b\<lparr>inline_asm := INSIDE_ASM\<rparr> else b\<lparr>inline_asm := NO_ASM\<rparr>)
         else if inline_asm b = INSIDE_ASM \<and> open_parentheses b = 0
         then b\<lparr>inline_asm := END_ASM\<rparr> else b)"

definition on_top :: "(block \<Rightarrow> block) \<Rightarrow> block list \<Rightarrow> block list" where
  "on_top f st = (case st of [] \<Rightarrow> [] | b # bs' \<Rightarrow> f b # bs')"

definition RE_NAMESPACE :: string where
  "RE_NAMESPACE = ''^`s*namespace`b`s*([:`w]+)?(.*)$''"

definition RE_CLASS :: string where
  "RE_CLASS = ''`s*(template`s*<[`w`s<>,:]*>`s*)?'' @
     ''(class|struct)`s+([A-Z_]+`s+)*(`w+(?:::`w+)*)'' @ ''(([^=>]|<[^<>]*>)*)$''"

definition RE_BRACE :: string where
  "RE_BRACE = ''^[^{;)}]*([{;)}])(.*)$''"

lemma namespace_rest_shorter: "Match RE_NAMESPACE line = Some m \<Longrightarrow> length (grp m 2) < length line"
  by (rule Match_group_shorter [of RE_NAMESPACE]) (simp, simp, code_simp)

lemma brace_rest_shorter: "Match RE_BRACE line = Some m \<Longrightarrow> length (grp m 2) < length line"
  by (rule Match_group_shorter [of RE_BRACE]) (simp, simp, code_simp)

text \<open>The namespaces declared at the start of a line, and what is left of the line.\<close>

function namespace_loop :: "nat \<Rightarrow> string \<Rightarrow> block list \<Rightarrow> string \<times> block list" where
  "namespace_loop linenum line st =
     (case Match RE_NAMESPACE line of None \<Rightarrow> (line, st)
      | Some m \<Rightarrow>
          let b = NamespaceInfo (group m 1) linenum; line = grp m 2; i = find line ''{''
          in if i \<noteq> -1 then namespace_loop linenum (drop (nat (i + 1)) line) (b\<lparr>seen_open_brace := True\<rparr> # st)
             else namespace_loop linenum line (b # st))"
  by pat_completeness auto
termination
  by (relation "measure (\<lambda>(n, line, st). length line)")
     (auto dest!: namespace_rest_shorter simp: less_imp_diff_less)

declare namespace_loop.simps [simp del]

definition push_class :: "cleansed_lines \<Rightarrow> nat \<Rightarrow> string \<Rightarrow> block list \<Rightarrow> string \<times> block list" where
  "push_class clean linenum line st =
     (case Match RE_CLASS line of
        Some m \<Rightarrow> if st = [] \<or> open_parentheses (hd st) = 0
                  then (grp m 5, ClassInfo (grp m 4) (grp m 2) clean linenum # st) else (line, st)
      | None \<Rightarrow> (line, st))"

definition update_access :: "string \<Rightarrow> block \<Rightarrow> block" where
  "update_access line b = (case kind b of
      ClassBlock c \<Rightarrow> (case Match ''`s*(public|private|protected)`s*:'' line of
          None \<Rightarrow> b | Some m \<Rightarrow> b\<lparr>kind := ClassBlock (c\<lparr>access := grp m 1\<rparr>)\<rparr>)
    | _ \<Rightarrow> b)"

text \<open>One brace, semicolon or closing parenthesis; \<open>asm\<close>: the line matches the start of a block of assembly.\<close>

definition brace_step :: "string \<Rightarrow> cleansed_lines \<Rightarrow> nat \<Rightarrow> bool \<Rightarrow> char \<Rightarrow> block list \<Rightarrow> act list \<times> block list" where
  "brace_step fn clean linenum asm token st =
     (if token = CHR ''{''
      then ([], if \<not> SeenOpenBrace st then on_top (seen_open_brace_update (\<lambda>_. True)) st
                else (BlockInfo True PlainBlock)\<lparr>inline_asm := (if asm then BLOCK_ASM else NO_ASM)\<rparr> # st)
      else if token = CHR '';'' \<or> token = CHR '')''
      then ([], if \<not> SeenOpenBrace st then tl st else st)
      else (case st of [] \<Rightarrow> ([], []) | b # st' \<Rightarrow> (CheckEnd fn clean linenum b, st')))"

function brace_loop :: "string \<Rightarrow> cleansed_lines \<Rightarrow> nat \<Rightarrow> string \<Rightarrow> block list \<Rightarrow> act list \<times> block list" where
  "brace_loop fn clean linenum line st =
     (case Match RE_BRACE line of None \<Rightarrow> ([], st)
      | Some m \<Rightarrow>
          let (acts, st) = brace_step fn clean linenum (matches MATCH_ASM line) (hd (grp m 1)) st;
              (acts', st) = brace_loop fn clean linenum (grp m 2) st
          in (acts @ acts', st))"
  by pat_completeness auto
termination
  by (relation "measure (\<lambda>(fn, clean, n, line, st). length line)") (auto dest!: brace_rest_shorter)

declare brace_loop.simps [simp del]

definition update_blocks :: "string \<Rightarrow> cleansed_lines \<Rightarrow> nat \<Rightarrow> string \<Rightarrow> block list \<Rightarrow> act list \<times> block list" where
  "update_blocks fn clean linenum line st =
     (let st = on_top (update_parens line) st;
          (line, st) = namespace_loop linenum line st;
          (line, st) = push_class clean linenum line st;
          st = (if SeenOpenBrace st then st else on_top (CheckBegin (elided clean ! linenum)) st);
          st = on_top (update_access line) st
      in brace_loop fn clean linenum line st)"

definition Update :: "string \<Rightarrow> cleansed_lines \<Rightarrow> nat \<Rightarrow> nesting \<Rightarrow> act list \<times> nesting" where
  "Update fn clean linenum st =
     (let line = elided clean ! linenum;
          st = UpdatePreprocessor line st;
          (acts, bs') = update_blocks fn clean linenum line (blocks st)
      in (acts, st\<lparr>blocks := bs'\<rparr>))"

fun InnermostClass :: "block list \<Rightarrow> class_info option" where
  "InnermostClass [] = None"
| "InnermostClass (b # st) = (case kind b of ClassBlock c \<Rightarrow> Some c | _ \<Rightarrow> InnermostClass st)"

definition CheckClassFinished :: "string \<Rightarrow> nesting \<Rightarrow> act list" where
  "CheckClassFinished fn st =
     concat (map (\<lambda>b. case kind b of
         ClassBlock c \<Rightarrow> [Err fn (int (class_start c)) ''build/class'' 5
             (''Failed to find complete declaration of class '' @ class_name c)]
       | _ \<Rightarrow> []) (rev (blocks st)))"

subsection \<open>Facts: actions\<close>

lemma wf_CheckEnd [act_simps]: "wf_acts (CheckEnd fn clean n b)"
  by (simp add: CheckEnd_def namespace_end_def split: block_kind.split)

lemma wf_brace_step [act_simps]: "wf_acts (fst (brace_step fn clean n asm c st))"
  by (simp add: brace_step_def wf_CheckEnd split: list.split)

lemma wf_brace_loop [act_simps]: "wf_acts (fst (brace_loop fn clean n line st))"
proof (induction fn clean n line st rule: brace_loop.induct)
  case (1 fn clean n line st)
  show ?case
  proof (cases "Match RE_BRACE line")
    case None
    then show ?thesis by (simp add: brace_loop.simps [of fn clean n line])
  next
    case (Some m)
    let ?r = "brace_step fn clean n (matches MATCH_ASM line) (hd (grp m 1)) st"
    have "wf_acts (fst (brace_loop fn clean n (grp m 2) (snd ?r)))"
      by (rule "1.IH" [OF Some, of ?r "fst ?r"]) simp_all
    then show ?thesis
      using Some wf_brace_step by (simp add: brace_loop.simps [of fn clean n line] split_def Let_def)
  qed
qed

lemma wf_Update [act_simps, simp]: "wf_acts (fst (Update fn clean n st))"
  by (simp add: Update_def update_blocks_def split_def Let_def wf_brace_loop)

lemma wf_CheckClassFinished [act_simps]: "wf_acts (CheckClassFinished fn st)"
  unfolding CheckClassFinished_def list_all_concat_map by (simp split: block_kind.split)

subsection \<open>Preprocessor branches\<close>

text \<open>
  A run of lines as the parser of conditions sees it: each line goes to
  \<open>UpdatePreprocessor\<close>, and what the parser of blocks then does with it is any function.
\<close>

datatype pp_event = PpLine string | Parse "block list \<Rightarrow> block list"

fun pp_run :: "pp_event list \<Rightarrow> nesting \<Rightarrow> nesting" where
  "pp_run [] st = st"
| "pp_run (PpLine l # es) st = pp_run es (UpdatePreprocessor l st)"
| "pp_run (Parse f # es) st = pp_run es (st\<lparr>blocks := f (blocks st)\<rparr>)"

text \<open>
  Runs whose conditions are matched, with what they do to the stack of blocks: of a
  condition, what its first branch does.
\<close>

inductive matched :: "pp_event list \<Rightarrow> (block list \<Rightarrow> block list) \<Rightarrow> bool"
  and branches :: "pp_event list \<Rightarrow> bool" where
  m_nil: "matched [] id"
| m_parse: "matched [Parse f] f"
| m_text: "directive_of l = NoDir \<Longrightarrow> matched [PpLine l] id"
| m_append: "matched es f \<Longrightarrow> matched es' g \<Longrightarrow> matched (es @ es') (g \<circ> f)"
| m_if: "directive_of l = IfDir \<Longrightarrow> matched es f \<Longrightarrow> branches es' \<Longrightarrow> directive_of l' = EndifDir \<Longrightarrow>
     matched (PpLine l # es @ es' @ [PpLine l']) f"
| b_nil: "branches []"
| b_else: "directive_of l = ElseDir \<Longrightarrow> matched es f \<Longrightarrow> branches es' \<Longrightarrow> branches (PpLine l # es @ es')"

lemma pp_run_append: "pp_run (es @ es') st = pp_run es' (pp_run es st)"
  by (induction es st rule: pp_run.induct) simp_all

text \<open>
  A run with a branch on top, when it reaches the end of its branches, still holds the
  stack the first branch ended with.
\<close>

definition holds_branch :: "block list \<Rightarrow> block list \<Rightarrow> pp_info list \<Rightarrow> nesting \<Rightarrow> bool" where
  "holds_branch s0 s1 ps st \<longleftrightarrow>
     (\<exists>p. pp_stack st = p # ps \<and> stack_before_if p = s0 \<and>
        (if seen_else p then stack_before_else p = s1 else blocks st = s1))"

lemma holds_branch_else:
  assumes "holds_branch s0 s1 ps st" "directive_of l = ElseDir"
  obtains p where "UpdatePreprocessor l st = st\<lparr>blocks := s0, pp_stack := p # ps\<rparr>"
    "stack_before_if p = s0" "stack_before_else p = s1" "seen_else p"
proof -
  from assms(1) obtain q where q: "pp_stack st = q # ps" "stack_before_if q = s0"
    "if seen_else q then stack_before_else q = s1 else blocks st = s1"
    by (auto simp: holds_branch_def)
  let ?p = "if seen_else q then q else q\<lparr>seen_else := True, stack_before_else := blocks st\<rparr>"
  have "UpdatePreprocessor l st = st\<lparr>blocks := s0, pp_stack := ?p # ps\<rparr>"
    using assms(2) q by (simp add: UpdatePreprocessor_def pp_step_def Let_def)
  then show thesis by (rule that) (use q in auto)
qed

lemma matched_run:
  "matched es f \<Longrightarrow> pp_run es st = st\<lparr>blocks := f (blocks st)\<rparr>"
  "branches es \<Longrightarrow> holds_branch s0 s1 ps st \<Longrightarrow> holds_branch s0 s1 ps (pp_run es st)"
proof (induction arbitrary: st and s0 s1 ps st rule: matched_branches.inducts)
  case (m_if l es f es' l' st)
  let ?st1 = "pp_run es (UpdatePreprocessor l st)"
  have "?st1 = st\<lparr>blocks := f (blocks st), pp_stack := PreprocessorInfo (blocks st) # pp_stack st\<rparr>"
    using m_if by (simp add: UpdatePreprocessor_def pp_step_def)
  then have "holds_branch (blocks st) (f (blocks st)) (pp_stack st) ?st1"
    by (simp add: holds_branch_def PreprocessorInfo_def)
  then have "holds_branch (blocks st) (f (blocks st)) (pp_stack st) (pp_run es' ?st1)"
    by (rule m_if.IH(2))
  then show ?case using m_if.hyps
    by (auto simp: pp_run_append UpdatePreprocessor_def pp_step_def holds_branch_def split: if_splits)
next
  case (b_else l es f es' s0 s1 ps st)
  obtain p where p: "UpdatePreprocessor l st = st\<lparr>blocks := s0, pp_stack := p # ps\<rparr>"
    "stack_before_if p = s0" "stack_before_else p = s1" "seen_else p"
    using b_else.prems b_else.hyps(1) by (rule holds_branch_else)
  then have "pp_run es (UpdatePreprocessor l st) = st\<lparr>blocks := f s0, pp_stack := p # ps\<rparr>"
    by (simp add: b_else.IH(1))
  with p have "holds_branch s0 s1 ps (pp_run es (UpdatePreprocessor l st))"
    by (simp add: holds_branch_def)
  with b_else.IH(2) show ?case by (simp add: pp_run_append)
qed (simp_all add: UpdatePreprocessor_def pp_step_def pp_run_append)

text \<open>C8: however the parser of blocks treats the lines in between, a run of lines with matched preprocessor conditions leaves the saved conditions as they were and acts on the stack of blocks as if only the first branch of every condition were there.\<close>

theorem preprocessor_first_branch:
  assumes "matched es f"
  shows "pp_run es st = st\<lparr>blocks := f (blocks st)\<rparr>"
  using assms by (rule matched_run)

lemma preprocessor_first_branch_witness:
  "\<forall>b c. pp_run [PpLine ''#ifdef A'', Parse (Cons b), PpLine ''#else'', Parse (Cons c), PpLine ''#endif''] NestingState =
     NestingState\<lparr>blocks := [b]\<rparr>"
proof (intro allI)
  fix b c
  have d: "directive_of ''#ifdef A'' = IfDir" "directive_of ''#else'' = ElseDir"
    "directive_of ''#endif'' = EndifDir"
    by code_simp+
  have "branches (PpLine ''#else'' # [Parse (Cons c)] @ [])"
    by (rule b_else [OF d(2) m_parse b_nil])
  with d have "matched (PpLine ''#ifdef A'' # [Parse (Cons b)] @ [PpLine ''#else'', Parse (Cons c)] @ [PpLine ''#endif'']) (Cons b)"
    by (intro m_if) (simp_all add: m_parse)
  from preprocessor_first_branch [OF this, of NestingState]
  show "pp_run [PpLine ''#ifdef A'', Parse (Cons b), PpLine ''#else'', Parse (Cons c), PpLine ''#endif''] NestingState =
     NestingState\<lparr>blocks := [b]\<rparr>"
    by (simp add: NestingState_def)
qed

subsection \<open>Braces\<close>

definition is_brace :: "char \<Rightarrow> bool" where
  "is_brace c \<longleftrightarrow> c = CHR ''{'' \<or> c = CHR '';'' \<or> c = CHR '')'' \<or> c = CHR ''}''"

definition brace_set :: "bool \<Rightarrow> rx" where
  "brace_set neg = RSet neg [CChar CHR ''{'', CChar CHR '';'', CChar CHR '')'', CChar CHR ''}'']"

lemma rx_RE_BRACE: "rx RE_BRACE = first_of (brace_set True) (brace_set False)"
  by code_simp

lemma den_brace_set:
  "den (brace_set True) = {(s, t). \<exists>c. \<not> is_brace c \<and> eats [c] s t}"
  "den (brace_set False) = {(s, t). \<exists>c. is_brace c \<and> eats [c] s t}"
  by (auto simp: brace_set_def in_set_def is_brace_def)

text \<open>On a line without a newline, the pattern finds the first brace and what follows it.\<close>

lemmas brace_match = first_of_match [OF den_brace_set, folded rx_RE_BRACE, folded Match_def]

text \<open>The abstract stack: which of the blocks has its opening brace. One brace changes it so:\<close>

definition shape_step :: "char \<Rightarrow> bool list \<Rightarrow> bool list" where
  "shape_step c st =
     (if c = CHR ''{'' then (if st \<noteq> [] \<and> \<not> hd st then True # tl st else True # st)
      else if c = CHR ''}'' then tl st
      else if st \<noteq> [] \<and> \<not> hd st then tl st else st)"

definition shape :: "block list \<Rightarrow> bool list" where "shape st = map seen_open_brace st"

lemma shape_brace_step:
  "is_brace c \<Longrightarrow> shape (snd (brace_step fn clean n asm c st)) = shape_step c (shape st)"
  by (cases st) (auto simp: brace_step_def shape_def shape_step_def SeenOpenBrace_def on_top_def
      BlockInfo_def is_brace_def)

text \<open>C9: the loop of \<open>Update\<close> over a line, which finds braces by matching a pattern against the rest of the line, changes the stack as the line's braces, semicolons and closing parentheses do one after the other.\<close>

theorem brace_loop_refines:
  assumes "CHR 0x0A \<notin> set line"
  shows "shape (snd (brace_loop fn clean n line st)) = fold shape_step (filter is_brace line) (shape st)"
  using assms
proof (induction fn clean n line st rule: brace_loop.induct)
  case (1 fn clean n line st)
  from brace_match [OF "1.prems"] show ?case
  proof (elim disjE exE conjE)
    assume "Match RE_BRACE line = None" "list_all (\<lambda>c. \<not> is_brace c) line"
    moreover from this have "filter is_brace line = []" by (simp add: list_all_iff filter_empty_conv)
    ultimately show ?thesis by (simp add: brace_loop.simps [of fn clean n line])
  next
    fix m p c r
    assume m: "Match RE_BRACE line = Some m" "grp m 1 = [c]" "grp m 2 = r"
      and line: "line = p @ c # r" "list_all (\<lambda>c. \<not> is_brace c) p" "is_brace c"
    let ?r = "brace_step fn clean n (matches MATCH_ASM line) c st"
    have "filter is_brace line = c # filter is_brace r"
      using line by (simp add: list_all_iff filter_empty_conv)
    moreover have "shape (snd (brace_loop fn clean n r (snd ?r))) =
        fold shape_step (filter is_brace r) (shape (snd ?r))"
      using "1.IH" [OF m(1), of ?r "fst ?r" "snd ?r"] "1.prems" line(1) m(2,3) by simp
    moreover have "snd (brace_loop fn clean n line st) = snd (brace_loop fn clean n r (snd ?r))"
      using m by (simp add: brace_loop.simps [of fn clean n line] split_def Let_def)
    ultimately show ?thesis by (simp add: shape_brace_step line(3))
  qed
qed

lemma brace_loop_refines_witness:
  "\<forall>fn clean. shape (snd (brace_loop fn clean 3 ''void f() { if (x) { y(); }'' [])) = [True]"
proof (intro allI)
  fix fn clean
  have "fold shape_step (filter is_brace ''void f() { if (x) { y(); }'') (shape []) = [True]"
    by code_simp
  then show "shape (snd (brace_loop fn clean 3 ''void f() { if (x) { y(); }'' [])) = [True]"
    by (subst brace_loop_refines) simp_all
qed

text \<open>When the file is done, one error is reported for every class still on the stack, and none otherwise.\<close>

lemma CheckClassFinished_exact:
  "CheckClassFinished fn st =
     map (\<lambda>c. Err fn (int (class_start c)) ''build/class'' 5
            (''Failed to find complete declaration of class '' @ class_name c))
         (map (\<lambda>b. the (InnermostClass [b])) (filter isClass (rev (blocks st))))"
proof -
  have "concat (map (\<lambda>b. case kind b of
         ClassBlock c \<Rightarrow> [f c] | _ \<Rightarrow> []) bs') = map f (map (\<lambda>b. the (InnermostClass [b])) (filter isClass bs'))"
    for f :: "class_info \<Rightarrow> act" and bs'
    by (induction bs') (auto simp: isClass_def split: block_kind.split)
  then show ?thesis by (simp add: CheckClassFinished_def)
qed

end
