(* ===== verification/Functions.thy ===== *)
theory Functions
  imports Nesting "HOL-Library.Log_Nat"
begin

text \<open>
  The length of functions: \<open>_FunctionState\<close> and \<open>CheckForFunctionLengths\<close>.
\<close>

subsection \<open>The state\<close>

record function_state =
  in_a_function :: bool
  lines_in_function :: nat
  current_function :: string

definition FunctionState :: function_state where
  "FunctionState = \<lparr>in_a_function = False, lines_in_function = 0, current_function = []\<rparr>"

definition NORMAL_TRIGGER :: nat where "NORMAL_TRIGGER = 250"
definition TEST_TRIGGER :: nat where "TEST_TRIGGER = 400"

definition Begin :: "string \<Rightarrow> function_state \<Rightarrow> function_state" where
  "Begin name st = \<lparr>in_a_function = True, lines_in_function = 0, current_function = name\<rparr>"

definition Count :: "function_state \<Rightarrow> function_state" where
  "Count st = (if in_a_function st then st\<lparr>lines_in_function := Suc (lines_in_function st)\<rparr> else st)"

definition End :: "function_state \<Rightarrow> function_state" where
  "End st = st\<lparr>in_a_function := False\<rparr>"

definition base_trigger :: "function_state \<Rightarrow> nat" where
  "base_trigger st = (if matches ''T(EST|est)'' (current_function st) then TEST_TRIGGER else NORMAL_TRIGGER)"

text \<open>
  The trigger is \<open>base * 2 ** verbosity\<close>, a fraction when the verbosity is negative: whether
  the lines exceed it, and the whole number the message prints.
\<close>

definition exceeds_trigger :: "int \<Rightarrow> nat \<Rightarrow> nat \<Rightarrow> bool" where
  "exceeds_trigger v base n \<longleftrightarrow> (if 0 \<le> v then base * 2 ^ nat v < n else base < n * 2 ^ nat (- v))"

definition shown_trigger :: "int \<Rightarrow> nat \<Rightarrow> nat" where
  "shown_trigger v base = (if 0 \<le> v then base * 2 ^ nat v else base div 2 ^ nat (- v))"

text \<open>
  \<open>int(math.log(lines / base, 2))\<close>, with the whole division of Python 2; \<open>log(0)\<close> is an
  error. Only levels up to 5 are told apart, and up to there the floating-point logarithm is exact.
\<close>

definition Check :: "int \<Rightarrow> string \<Rightarrow> nat \<Rightarrow> function_state \<Rightarrow> act list" where
  "Check v fn linenum st =
     (let base = base_trigger st; n = lines_in_function st
      in if exceeds_trigger v base n
         then (if n div base = 0 then [Raise (ValueError ''math domain error'')]
               else [Err fn (int linenum) ''readability/fn_size'' (min 5 (int (floorlog 2 (n div base)) - 1))
                 (''Small and focused functions are preferred: '' @ current_function st @ '' has '' @
                  dec (int n) @ '' non-comment lines (error triggered by exceeding '' @
                  dec (int (shown_trigger v base)) @ '' lines).'')])
         else [])"

subsection \<open>One line\<close>

definition IsBlankLine :: "string \<Rightarrow> bool" where
  "IsBlankLine line \<longleftrightarrow> line = [] \<or> isspace line"

datatype body = Declaration | Body string | NoBody

text \<open>The lines from the one that starts a function; \<open>Body\<close> gives them joined.\<close>

fun find_body :: "string \<Rightarrow> string list \<Rightarrow> body" where
  "find_body joined [] = NoBody"
| "find_body joined (line # lines) =
     (let joined = joined @ '' '' @ lstrip line
      in if found ''(;|})'' line then Declaration
         else if found ''{'' line then Body joined
         else find_body joined lines)"

definition RE_FUNCTION_START :: string where
  "RE_FUNCTION_START = ''(`w(`w|::|`*|`&|`s)*)`(''"

text \<open>Whether the line starts a function: \<open>Inl\<close> when the name has no word.\<close>

definition starts_function :: "string \<Rightarrow> exn + bool" where
  "starts_function line =
     (case Match RE_FUNCTION_START line of None \<Rightarrow> Inr False
      | Some m \<Rightarrow>
          (case split_ws (grp m 1) of [] \<Rightarrow> Inl IndexError
           | w # ws \<Rightarrow>
               let name = last (w # ws)
               in Inr (name = ''TEST'' \<or> name = ''TEST_F'' \<or> \<not> matches ''[A-Z_]+$'' name)))"

definition RE_FUNCTION_NAME :: string where "RE_FUNCTION_NAME = ''((`w|:)*)`(''"

text \<open>The name to report: the parameters of a TEST macro belong to it.\<close>

definition full_name :: "string \<Rightarrow> string \<Rightarrow> string" where
  "full_name function joined =
     (if matches ''TEST'' function
      then (case Search ''(`(.*`))'' joined of None \<Rightarrow> function | Some m \<Rightarrow> function @ grp m 1)
      else function @ ''()'')"

definition CheckForFunctionLengths ::
    "int \<Rightarrow> string \<Rightarrow> cleansed_lines \<Rightarrow> nat \<Rightarrow> function_state \<Rightarrow> act list \<times> function_state" where
  "CheckForFunctionLengths v fn clean linenum st =
     (let line = code_lines clean ! linenum
      in case starts_function line of
           Inl x \<Rightarrow> ([Raise x], st)
         | Inr True \<Rightarrow>
             (case find_body [] (drop linenum (code_lines clean)) of
                Declaration \<Rightarrow> ([], st)
              | NoBody \<Rightarrow> ([Err fn (int linenum) ''readability/fn_size'' 5
                   ''Lint failed to find start of function body.''], st)
              | Body joined \<Rightarrow>
                  (case Search RE_FUNCTION_NAME line of
                     None \<Rightarrow> ([Raise AttributeError], st)
                   | Some m \<Rightarrow> ([], Begin (full_name (grp m 1) joined) st)))
         | Inr False \<Rightarrow>
             if matches ''^`}`s*$'' line then (Check v fn linenum st, End st)
             else if \<not> matches ''^`s*$'' line then ([], Count st)
             else ([], st))"

subsection \<open>TODO comments\<close>

definition RE_PATTERN_TODO :: string where
  "RE_PATTERN_TODO = ''^//(`s*)TODO(`(.+?`))?:?(`s|$)?''"

definition CheckComment :: "string \<Rightarrow> string \<Rightarrow> nat \<Rightarrow> act list" where
  \<open>CheckComment comment fn linenum =
     (case Match RE_PATTERN_TODO comment of None \<Rightarrow> []
      | Some m \<Rightarrow>
          let n = int linenum; username = group m 2; middle = group m 3
          in emit_if (1 < length (grp m 1))
               [Err fn n ''whitespace/todo'' 2 ''Too many spaces before TODO''] @
             emit_if (username = None)
               [Err fn n ''readability/todo'' 2
                 ''Missing username in TODO; it should look like "// TODO(yourname): Stuff."''] @
             emit_if (middle \<noteq> Some '' '' \<and> middle \<noteq> Some [])
               [Err fn n ''whitespace/todo'' 2 ''TODO(yourname) should be followed by a space''])\<close>

subsection \<open>Facts: the groups of the patterns take part\<close>

lemma word_not_space: "word_char c \<Longrightarrow> \<not> uspace c"
  by (auto simp: word_char_def uspace_def aspace_def aalpha_def adigit_def in_range_def)

lemma split_ws_not_Nil: "c \<in> set s \<Longrightarrow> \<not> uspace c \<Longrightarrow> split_ws s \<noteq> []"
  by (auto simp: split_ws_Nil_iff list_all_iff)

lemma rx_FUNCTION_START: "\<exists>a. rx RE_FUNCTION_START =
    RSeq (RGrp 1 (RSeq (RSet False [CWord True]) a)) (RSeq (RSet False [CChar CHR ''('']) REmpty)"
  by (intro exI, code_simp)

lemma start_name_word:
  assumes "Match RE_FUNCTION_START line = Some m"
  shows "split_ws (grp m 1) \<noteq> [] \<and> CHR ''('' \<in> set line"
proof -
  obtain a where rx: "rx RE_FUNCTION_START =
      RSeq (RGrp 1 (RSeq (RSet False [CWord True]) a)) (RSeq (RSet False [CChar CHR ''('']) REmpty)"
    using rx_FUNCTION_START by blast
  from assms obtain t where t: "(([], line, []), t) \<in> den (rx RE_FUNCTION_START)" "m = mk_match 0 t"
    unfolding Match_def using rx_match_den by blast
  from t(1) obtain u where su: "(([], line, []), u) \<in> den (RGrp 1 (RSeq (RSet False [CWord True]) a))"
    and ut: "(u, t) \<in> den (RSeq (RSet False [CChar CHR ''('']) REmpty)"
    unfolding rx by (rule den_seqE)
  from su obtain q where q: "(([], line, []), q) \<in> den (RSeq (RSet False [CWord True]) a)"
    and u: "u = (text_past q, text_left q, (1, 0, length (text_past q)) # caps_of q)"
    by (rule den_grpE) simp
  from ut have ut: "eats ''('' u t" by (auto simp: in_set_def)
  from q obtain w where w: "(([], line, []), w) \<in> den (RSet False [CWord True])" "(w, q) \<in> den a"
    unfolding den.simps(7) by blast
  from w(1) obtain c where c: "word_char c" "eats [c] ([], line, []) w"
    unfolding den.simps(2) by (auto simp: in_set_def)
  then have line: "line = c # text_left w" "text_past w = [c]" by (auto simp: eats_def)
  from den_consumed [OF w(2)] obtain x where x: "consumed w q x" by blast
  have past: "text_past q = rev x @ [c]" "line = c # x @ text_left q"
    using x line by (auto simp: consumed_def)
  have sub: "subject t = line"
    using advances_subject [OF den_advances [OF t(1)]] by (simp add: subject_def)
  have "caps_of t = (1, 0, length (text_past q)) # caps_of q" using ut u by (simp add: eats_def)
  then have "grp m 1 = take (Suc (length x)) line"
    using t(2) sub past(1) by (simp add: grp_def group_def Regex.span_def mk_match_def slice_def)
  then have "c \<in> set (grp m 1)" using past(2) by simp
  moreover have "CHR ''('' \<in> set line" using ut u past(2) by (auto simp: eats_def)
  ultimately show ?thesis using split_ws_not_Nil word_not_space c(1) by blast
qed

lemma rx_FUNCTION_NAME: "\<exists>a. rx RE_FUNCTION_NAME =
    RSeq (RGrp 1 (RSeq (RStar True a) REmpty)) (RSeq (RSet False [CChar CHR ''('']) REmpty)"
  by (intro exI, code_simp)

lemma function_name_found:
  assumes "CHR ''('' \<in> set line" shows "Search RE_FUNCTION_NAME line \<noteq> None"
proof -
  obtain a where rx: "rx RE_FUNCTION_NAME = RSeq (RGrp 1 (RSeq (RStar True a) REmpty)) (RSeq (RSet False [CChar CHR ''('']) REmpty)"
    using rx_FUNCTION_NAME by blast
  from assms obtain p r where line: "line = p @ CHR ''('' # r" by (auto dest: split_list)
  let ?s = "at_pos line (length p)"
  have s: "?s = (rev p, CHR ''('' # r, [])" using line by (simp add: at_pos_def)
  have "(?s, ?s) \<in> den (RSeq (RStar True a) REmpty)" by auto
  then have "(?s, (rev p, CHR ''('' # r, [(1, length p, length p)])) \<in> den (RGrp 1 (RSeq (RStar True a) REmpty))"
    unfolding den.simps(10) s by force
  moreover have "((rev p, CHR ''('' # r, [(1, length p, length p)]), (CHR ''('' # rev p, r, [(1, length p, length p)]))
      \<in> den (RSeq (RSet False [CChar CHR ''('']) REmpty)"
    by (auto simp: in_set_def eats_def)
  ultimately have "(?s, (CHR ''('' # rev p, r, [(1, length p, length p)])) \<in> den (rx RE_FUNCTION_NAME)"
    unfolding rx den.simps(7) by blast
  then have "occurs (rx RE_FUNCTION_NAME) line (length p) (Suc (length p))"
    using line by (auto simp: occurs_def simp del: split_paired_Ex intro!: exI [of _ "(CHR ''('' # rev p, r, [(1, length p, length p)])"])
  then show ?thesis unfolding Search_def using rx_searcher.srch_none by blast
qed

subsection \<open>What the check guarantees\<close>

lemma Check_raises: "Raise x \<in> set (Check v fn n st) \<Longrightarrow> v < 0 \<and> x = ValueError ''math domain error''"
proof -
  assume r: "Raise x \<in> set (Check v fn n st)"
  then have ex: "exceeds_trigger v (base_trigger st) (lines_in_function st)"
    and z: "lines_in_function st div base_trigger st = 0" and x: "x = ValueError ''math domain error''"
    by (auto simp: Check_def Let_def split: if_splits)
  have "0 < base_trigger st" by (simp add: base_trigger_def TEST_TRIGGER_def NORMAL_TRIGGER_def)
  with z have lt: "lines_in_function st < base_trigger st" by (simp add: div_eq_0_iff)
  have "v < 0"
  proof (rule ccontr)
    assume "\<not> v < 0"
    with ex have "base_trigger st * 2 ^ nat v < lines_in_function st" by (simp add: exceeds_trigger_def)
    moreover have "base_trigger st * 1 \<le> base_trigger st * 2 ^ nat v" by (intro mult_le_mono2) simp
    ultimately show False using lt by simp
  qed
  with x show ?thesis by simp
qed

lemma function_lengths_raise:
  assumes "Raise x \<in> set (fst (CheckForFunctionLengths v fn clean n st))"
  shows "v < 0 \<and> x = ValueError ''math domain error''"
proof -
  let ?line = "code_lines clean ! n"
  have s: "starts_function ?line \<noteq> Inl e" for e
    using start_name_word [of ?line] by (auto simp: starts_function_def Let_def split: option.splits list.splits)
  have f: "Search RE_FUNCTION_NAME ?line \<noteq> None" if "starts_function ?line = Inr True"
    using that start_name_word [of ?line] by (intro function_name_found)
      (auto simp: starts_function_def split: option.splits list.splits)
  show ?thesis
  proof (cases "starts_function ?line")
    case (Inl e)
    with s show ?thesis by blast
  next
    case (Inr b)
    show ?thesis
    proof (cases b)
      case True
      then obtain m where "Search RE_FUNCTION_NAME ?line = Some m" using f Inr by auto
      with True Inr assms show ?thesis
        by (simp add: CheckForFunctionLengths_def Let_def split: body.splits)
    next
      case False
      with Inr assms have "Raise x \<in> set (Check v fn n st)"
        by (simp add: CheckForFunctionLengths_def Let_def split: if_splits)
      then show ?thesis by (rule Check_raises)
    qed
  qed
qed

text \<open>C24: with a verbosity that is not negative, checking the length of functions never raises: the name of a function is always found, and the logarithm is of a positive number; with a negative one the only exception is that of the logarithm.\<close>

theorem CheckForFunctionLengths_raises:
  assumes "Raise x \<in> set (fst (CheckForFunctionLengths v fn clean n st))"
  shows "v < 0 \<and> x = ValueError ''math domain error''"
  using assms by (rule function_lengths_raise)

definition long_function :: "nat \<Rightarrow> function_state" where
  "long_function n = \<lparr>in_a_function = True, lines_in_function = n, current_function = ''f()''\<rparr>"

lemma CheckForFunctionLengths_raises_witness:
  "(-1 :: int) < 0 \<and> ValueError ''math domain error'' = ValueError ''math domain error''"
proof (rule CheckForFunctionLengths_raises)
  show "Raise (ValueError ''math domain error'')
      \<in> set (fst (CheckForFunctionLengths (-1) ''a.cc'' (CleansedLines [''}'']) 0 (long_function 200)))"
    by code_simp
qed

text \<open>C25: with a verbosity from 0 to 5 a function that is reported for its length is reported with a confidence from the verbosity to 5, so the verbosity does not hide it.\<close>

theorem Check_level:
  assumes "0 \<le> v" "v \<le> 5" "a \<in> set (Check v fn n st)"
  shows "\<exists>level msg. a = Err fn (int n) ''readability/fn_size'' level msg \<and> v \<le> level \<and> level \<le> 5"
proof -
  let ?b = "base_trigger st"
  have b: "0 < ?b" by (simp add: base_trigger_def TEST_TRIGGER_def NORMAL_TRIGGER_def)
  have noraise: "\<And>x. a \<noteq> Raise x" using Check_raises [of _ v fn n st] assms by force
  then obtain msg where ex: "exceeds_trigger v ?b (lines_in_function st)"
    and a: "a = Err fn (int n) ''readability/fn_size'' (min 5 (int (floorlog 2 (lines_in_function st div ?b)) - 1)) msg"
    using assms(3) by (auto simp: Check_def Let_def split: if_splits)
  from ex assms(1) have "?b * 2 ^ nat v < lines_in_function st" by (simp add: exceeds_trigger_def)
  then have "2 ^ nat v \<le> lines_in_function st div ?b"
    using b by (simp add: less_eq_div_iff_mult_less_eq mult.commute)
  then have "floorlog 2 (2 ^ nat v) \<le> floorlog 2 (lines_in_function st div ?b)"
    by (rule floorlog_mono)
  moreover have "floorlog 2 (2 ^ nat v) = nat v + 1"
    using floorlog_power [of 1 2 "nat v"] by (simp add: floorlog_def)
  ultimately have "v \<le> min 5 (int (floorlog 2 (lines_in_function st div ?b)) - 1)"
    using assms(1,2) by linarith
  with a show ?thesis by auto
qed

lemma Check_level_witness:
  "\<exists>level msg. hd (Check 0 ''a.cc'' 7 (long_function 600)) = Err ''a.cc'' (int 7) ''readability/fn_size'' level msg \<and>
     0 \<le> level \<and> level \<le> 5"
  by (rule Check_level [where v = 0 and st = "long_function 600" and n = 7]) (simp, simp, code_simp)


text \<open>A line inside a body that is only counted, and whether it counts.\<close>

definition plain_line :: "string \<Rightarrow> bool" where
  "plain_line line \<longleftrightarrow> starts_function line = Inr False \<and> \<not> matches ''^`}`s*$'' line"

definition counts :: "string \<Rightarrow> bool" where "counts line \<longleftrightarrow> \<not> matches ''^`s*$'' line"

definition check_lines :: "int \<Rightarrow> string \<Rightarrow> cleansed_lines \<Rightarrow> nat list \<Rightarrow> function_state \<Rightarrow> function_state" where
  "check_lines v fn clean ns st = fold (\<lambda>n st. snd (CheckForFunctionLengths v fn clean n st)) ns st"

text \<open>C16: inside a function, over lines that neither start a function nor close one, the state counts exactly the lines that are not blank.\<close>

theorem function_lines_counted:
  assumes "list_all (\<lambda>n. plain_line (code_lines clean ! n)) ns" and "in_a_function st"
  shows "check_lines v fn clean ns st =
    st\<lparr>lines_in_function := lines_in_function st + length (filter (\<lambda>n. counts (code_lines clean ! n)) ns)\<rparr>"
  using assms
proof (induction ns arbitrary: st)
  case (Cons n ns)
  have "snd (CheckForFunctionLengths v fn clean n st) =
      (if counts (code_lines clean ! n) then st\<lparr>lines_in_function := Suc (lines_in_function st)\<rparr> else st)"
    using Cons.prems by (simp add: CheckForFunctionLengths_def Let_def plain_line_def counts_def Count_def)
  with Cons.IH [of "snd (CheckForFunctionLengths v fn clean n st)"] Cons.prems show ?case
    by (simp add: check_lines_def)
qed (simp add: check_lines_def)

lemma function_lines_counted_witness:
  "check_lines 0 ''a.cc'' (CleansedLines [''  x = 1;'', '''', ''  y();'']) [0, 1, 2] (long_function 5) = long_function 7"
proof -
  have "list_all (\<lambda>n. plain_line (code_lines (CleansedLines [''  x = 1;'', '''', ''  y();'']) ! n)) [0, 1, 2]"
    "filter (\<lambda>n. counts (code_lines (CleansedLines [''  x = 1;'', '''', ''  y();'']) ! n)) [0, 1, 2] = [0, 2]"
    by code_simp+
  with function_lines_counted [of _ "[0, 1, 2]" "long_function 5"] show ?thesis by (simp add: long_function_def)
qed

lemma starts_function_name:
  assumes "starts_function line = Inr True" obtains m where "Search RE_FUNCTION_NAME line = Some m"
proof -
  have "CHR ''('' \<in> set line"
    using assms start_name_word [of line] by (auto simp: starts_function_def split: option.splits)
  then show thesis using function_name_found that by blast
qed

lemma wf_CheckForFunctionLengths [act_simps, simp]:
  "wf_acts (fst (CheckForFunctionLengths v fn clean n st))"
proof (cases "starts_function (code_lines clean ! n)")
  case (Inl x)
  then have "expected_exn x"
    by (auto simp: starts_function_def Let_def split: option.splits list.splits)
  with Inl show ?thesis by (simp add: CheckForFunctionLengths_def)
next
  case (Inr b)
  have check: "wf_acts (Check v fn n st)"
    by (simp add: Check_def Let_def floorlog_def)
  show ?thesis
  proof (cases b)
    case True
    with Inr have "starts_function (code_lines clean ! n) = Inr True" by simp
    then obtain m where "Search RE_FUNCTION_NAME (code_lines clean ! n) = Some m"
      by (rule starts_function_name)
    with True Inr show ?thesis by (simp add: CheckForFunctionLengths_def Let_def split: body.split)
  next
    case False
    with Inr check show ?thesis by (simp add: CheckForFunctionLengths_def Let_def)
  qed
qed

lemma wf_CheckComment [act_simps]: "wf_acts (CheckComment c fn n)"
  by (simp add: CheckComment_def Let_def split: option.split)

end
