(* ===== verification/Spacing.thy ===== *)
theory Spacing
  imports Functions
begin

text \<open>
  \<open>CheckSpacing\<close> and what it calls: blank lines, comments, operators, parentheses and
  braces, function calls, the search for matching angle brackets; and \<open>CheckSectionSpacing\<close>.
  Each group of tests of the long function of the source is a definition of its own.
\<close>

subsection \<open>Function calls\<close>

definition control_patterns :: "string list" where
  "control_patterns = [''`bif`s*`((.*)`)`s*{'', ''`bfor`s*`((.*)`)`s*{'',
     ''`bwhile`s*`((.*)`)`s*[{;]'', ''`bswitch`s*`((.*)`)`s*{'']"

text \<open>The inside of the parentheses of the first control statement that fits, or the line.\<close>

fun inside_control :: "string list \<Rightarrow> string \<Rightarrow> string" where
  "inside_control [] line = line"
| "inside_control (p # ps) line =
     (case Search p line of Some m \<Rightarrow> grp m 1 | None \<Rightarrow> inside_control ps line)"

definition CheckSpacingForFunctionCall :: "string \<Rightarrow> string \<Rightarrow> nat \<Rightarrow> act list" where
  "CheckSpacingForFunctionCall fn line linenum =
     (let fncall = inside_control control_patterns line;
          err = (\<lambda>conf msg. Err fn (int linenum) ''whitespace/parens'' conf msg)
      in if \<not> found ''`b(if|for|while|switch|return|new|delete|catch)`b'' fncall \<and>
            \<not> found '' `([^)]+`)`([^)]*(`)|,$)'' fncall \<and>
            \<not> found ''<(.+,)?[ `w]+ `([^)]*(`)|,$)(,.+)?>'' fncall \<and>
            \<not> found '' `([^)]+`)`[[^`]]+`]'' fncall
         then
           (if found ''`w`s*`(`s(?!`s*``$)'' fncall
            then [err 4 ''Extra space after ( in function call'']
            else emit_if (found ''`(`s+(?!(`s*``)|`()'' fncall) [err 2 ''Extra space after ('']) @
           emit_if (found ''`w`s+`('' fncall \<and> \<not> found ''#`s*define|typedef'' fncall \<and>
                    \<not> found ''`w`s+`((`w+::)?`*`w+`)`('' fncall)
             [err 4 ''Extra space before ( in function call''] @
           emit_if (found ''[^)]`s+`)`s*[^{`s]'' fncall \<and> \<not> found ''^`s+`)'' fncall)
             [err 2 ''Extra space before )'']
         else [])"

subsection \<open>Angle brackets\<close>

definition RE_NEXT_BRACKET :: string where
  "RE_NEXT_BRACKET = ''^[^<>(),;`[`]]*([<>(),;`[`]])(.*)$''"

definition RE_PREV_BRACKET :: string where
  "RE_PREV_BRACKET = ''^(.*)([<>(),;`[`]])[^<>(),;`[`]]*$''"

lemma next_bracket_shorter: "Search RE_NEXT_BRACKET line = Some m \<Longrightarrow> length (grp m 2) < length line"
  by (rule Search_group_shorter [of RE_NEXT_BRACKET]) (simp, simp, code_simp)

lemma prev_bracket_shorter: "Search RE_PREV_BRACKET line = Some m \<Longrightarrow> length (grp m (Suc 0)) < length line"
  by (rule Search_group_shorter [of RE_PREV_BRACKET]) (simp, simp, code_simp)

text \<open>The stack of open brackets is a list whose head is the top.\<close>

function find_next_bracket :: "string list \<Rightarrow> nat \<Rightarrow> string \<Rightarrow> string \<Rightarrow> bool" where
  "find_next_bracket el linenum line stack =
     (case Search RE_NEXT_BRACKET line of
        Some m \<Rightarrow>
          let op = hd (grp m 1); line = grp m 2
          in if hd stack = CHR ''<'' then
               (if List.member ''<(['' op then find_next_bracket el linenum line (op # stack)
                else if op = CHR ''>'' then
                  (if tl stack = [] then True else find_next_bracket el linenum line (tl stack))
                else op = CHR '','')
             else if List.member ''<(['' op then find_next_bracket el linenum line (op # stack)
             else if List.member '')]'' op then find_next_bracket el linenum line (tl stack)
             else find_next_bracket el linenum line stack
      | None \<Rightarrow>
          if length el \<le> linenum + 1 then True
          else find_next_bracket el (linenum + 1) (el ! (linenum + 1)) stack)"
  by pat_completeness auto
termination
  by (relation "measures [\<lambda>(el, n, line, st). length el - n, \<lambda>(el, n, line, st). length line]")
     (auto dest!: next_bracket_shorter)

function find_prev_bracket :: "string list \<Rightarrow> nat \<Rightarrow> string \<Rightarrow> string \<Rightarrow> bool" where
  "find_prev_bracket el linenum line stack =
     (case Search RE_PREV_BRACKET line of
        Some m \<Rightarrow>
          let op = hd (grp m 2); line = grp m 1
          in if hd stack = CHR ''>'' then
               (if List.member ''>)]'' op then find_prev_bracket el linenum line (op # stack)
                else if op = CHR ''<'' then
                  (if tl stack = [] then True else find_prev_bracket el linenum line (tl stack))
                else op = CHR '','')
             else if List.member ''>)]'' op then find_prev_bracket el linenum line (op # stack)
             else if List.member ''(['' op then find_prev_bracket el linenum line (tl stack)
             else find_prev_bracket el linenum line stack
      | None \<Rightarrow>
          if linenum = 0 then False
          else find_prev_bracket el (linenum - 1) (el ! (linenum - 1)) stack)"
  by pat_completeness auto
termination
  by (relation "measures [\<lambda>(el, n, line, st). n, \<lambda>(el, n, line, st). length line]")
     (auto dest!: prev_bracket_shorter)

declare find_next_bracket.simps [simp del]
declare find_prev_bracket.simps [simp del]

definition FindNextMatchingAngleBracket :: "cleansed_lines \<Rightarrow> nat \<Rightarrow> string \<Rightarrow> bool" where
  "FindNextMatchingAngleBracket clean linenum init_suffix =
     find_next_bracket (elided clean) linenum init_suffix ''<''"

definition FindPreviousMatchingAngleBracket :: "cleansed_lines \<Rightarrow> nat \<Rightarrow> string \<Rightarrow> bool" where
  "FindPreviousMatchingAngleBracket clean linenum init_prefix =
     find_prev_bracket (elided clean) linenum init_prefix ''>''"

subsection \<open>Blank lines\<close>

text \<open>\<open>xs[i - 1]\<close>: the last element when \<open>i\<close> is 0.\<close>

definition prev_item :: "'a list \<Rightarrow> nat \<Rightarrow> 'a" where
  "prev_item xs i = (if i = 0 then last xs else xs ! (i - 1))"

text \<open>The head of an initializer list, above lines indented by six; the count is of lines left.\<close>

fun init_list_head :: "string list \<Rightarrow> nat \<Rightarrow> bool" where
  "init_list_head el 0 = False"
| "init_list_head el (Suc k) =
     (if matches '' {6}`w'' (el ! k) then init_list_head el k else take 5 (el ! k) = ''    :'')"

fun namespace_above :: "string list \<Rightarrow> string \<Rightarrow> nat \<Rightarrow> bool" where
  "namespace_above el line 0 = False"
| "namespace_above el line (Suc m) =
     (if IsBlankLine line
      then (if contains (el ! m) ''namespace'' then True else namespace_above el (el ! m) m)
      else False)"

definition block_start_exception :: "string list \<Rightarrow> nat \<Rightarrow> string \<Rightarrow> bool" where
  \<open>block_start_exception el linenum prev_line =
     (let prev_prev = (if 2 < linenum then el ! (linenum - 2) else []);
          m_num = (if 2 < linenum then linenum - 2 else 1);
          header = (if matches '' {6}`w'' prev_line then init_list_head el (linenum - 1)
                    else matches '' {4}`w[^`(]*`)`s*(const`s*)?(`{`s*$|:)'' prev_line \<or>
                         matches '' {4}:'' prev_line)
      in if find prev_prev ''namespace'' \<noteq> -1 \<or> find prev_prev ''extern "C"'' \<noteq> 0 then True
         else header \<or> namespace_above el prev_prev m_num)\<close>

definition block_start_errors :: "string \<Rightarrow> cleansed_lines \<Rightarrow> nat \<Rightarrow> act list" where
  "block_start_errors fn clean linenum =
     (let prev_line = prev_item (elided clean) linenum; b = rfind_char prev_line (CHR ''{'')
      in emit_if (b \<noteq> -1 \<and> \<not> contains (drop (nat b) prev_line) ''}'' \<and>
                  \<not> contains (take (nat b) prev_line) ''namespace'' \<and>
                  \<not> block_start_exception (elided clean) linenum prev_line)
           [Err fn (int linenum) ''whitespace/blank_line'' 2
              ''Blank line at the start of a code block.  Is this needed?''])"

text \<open>
  Backwards from a line, whether the block that ends below it is a namespace. The count is
  of lines left, \<open>kh\<close> the closing braces not yet matched.
\<close>

fun ends_namespace :: "string list \<Rightarrow> nat \<Rightarrow> int \<Rightarrow> bool" where
  "ends_namespace raw 0 kh = False"
| "ends_namespace raw (Suc k) kh =
     (let line = raw ! k; kh = kh - brace_delta line
      in if kh = 0 then
           (if matches ''`s*namespace[^{]*{'' line then True
            else if matches ''`s*{'' line then contains (prev_item raw k) ''namespace''
            else ends_namespace raw k kh)
         else ends_namespace raw k kh)"

definition block_end_errors :: "string \<Rightarrow> cleansed_lines \<Rightarrow> nat \<Rightarrow> act list" where
  "block_end_errors fn clean linenum =
     (if linenum + 1 < NumLines clean
      then let next_line = raw_lines clean ! (linenum + 1)
           in emit_if (next_line \<noteq> [] \<and> matches ''`s*}'' next_line \<and>
                       \<not> contains next_line ''namespace'' \<and> \<not> contains next_line ''} else '' \<and>
                       \<not> ends_namespace (raw_lines clean) (Suc linenum) 1)
                [Err fn (int linenum) ''whitespace/blank_line'' 3
                   ''Blank line at the end of a code block.  Is this needed?'']
      else [])"

definition blank_line_errors :: "string \<Rightarrow> cleansed_lines \<Rightarrow> nat \<Rightarrow> nesting \<Rightarrow> act list" where
  \<open>blank_line_errors fn clean linenum nest =
     (if IsBlankLine (raw_lines clean ! linenum) \<and> \<not> InNamespaceBody nest
      then block_start_errors fn clean linenum @ block_end_errors fn clean linenum @
           (case Match ''`s*(public|protected|private):'' (prev_item (elided clean) linenum) of
              None \<Rightarrow> []
            | Some m \<Rightarrow> [Err fn (int linenum) ''whitespace/blank_line'' 3
                 (''Do not leave a blank line after "'' @ grp m 1 @ '':"'')])
      else [])\<close>

subsection \<open>Comments\<close>

definition comment_exception :: "string \<Rightarrow> bool" where
  "comment_exception text \<longleftrightarrow> found ''[=/-]{4,}`s*$'' text \<or> found ''^/$'' text \<or>
     found ''^/< '' text \<or> found ''^/+ '' text \<or> found ''^/@'' text"

definition comment_errors :: "string \<Rightarrow> string \<Rightarrow> nat \<Rightarrow> act list" where
  \<open>comment_errors fn line linenum =
     (let commentpos = find line ''//''; p = nat commentpos; head_part = take p line
      in if commentpos \<noteq> -1 \<and> even (int (count_sub head_part ''"'') - int (count_sub head_part (bs ''`"'')))
         then emit_if (\<not> matches ''^`s*{ //'' line \<and> 1 \<le> p \<and> \<not> aspace (line ! (p - 1)))
                [Err fn (int linenum) ''whitespace/comments'' 2
                   ''At least one space is best between code and comments''] @
              emit_if (p + 2 < length line \<and> line ! (p + 2) \<noteq> CHR '' '' \<and>
                       \<not> comment_exception (drop (p + 2) line))
                [Err fn (int linenum) ''whitespace/comments'' 4
                   ''Should have a space between // and comment''] @
              CheckComment (drop p line) fn linenum
         else [])\<close>

subsection \<open>Operators\<close>

definition drop_operator :: "string \<Rightarrow> string" where
  "drop_operator line = rx_sub (rx ''operator(==|!=|<|<<|<=|>=|>>|>)`('') (\<lambda>_. bs ''operator`('') line"

definition assign_errors :: "string \<Rightarrow> string \<Rightarrow> nat \<Rightarrow> act list" where
  "assign_errors fn line linenum =
     (let err = Err fn (int linenum) ''whitespace/operators'' 4 ''Missing spaces around =''
      in emit_if (found ''`s=[`w.]'' line \<or> found ''[`w.]=`s'' line) [err] @
         emit_if (found ''[`w.]=[`w.]'' line \<and> \<not> found ''`b(if|while) '' line) [err])"

text \<open>The first of the patterns that is found.\<close>

fun Search_first :: "string list \<Rightarrow> string \<Rightarrow> rmatch option" where
  "Search_first [] line = None"
| "Search_first (p # ps) line = (case Search p line of Some m \<Rightarrow> Some m | None \<Rightarrow> Search_first ps line)"

definition comparison_match :: "string \<Rightarrow> rmatch option" where
  "comparison_match line =
     (case Search_first [''[^<>=!`s](==|!=|<=|>=)[^<>=!`s]'', ''`s(==|!=|<=|>=)[^<>=!`s]'',
             ''[^<>=!`s](==|!=|<=|>=)`s''] line of
        Some m \<Rightarrow> Some m
      | None \<Rightarrow>
          if found ''<[^<]*,`s*$'' line then None
          else Search_first [''[^<>=!`s](<)[^<>=!`s]([^>]|->)*$'', ''[^<>=!]`s(<)[^<>=!`s]([^>]|->)*$'',
                 ''[^<>=!`s](<)`s[^<>=!]([^>]|->)*$''] line)"

definition comparison_errors :: "string \<Rightarrow> string \<Rightarrow> nat \<Rightarrow> act list" where
  "comparison_errors fn line linenum =
     (case comparison_match line of None \<Rightarrow> []
      | Some m \<Rightarrow> [Err fn (int linenum) ''whitespace/operators'' 3 (''Missing spaces around '' @ grp m 1)])"

definition angle_errors :: "string \<Rightarrow> cleansed_lines \<Rightarrow> string \<Rightarrow> nat \<Rightarrow> act list" where
  "angle_errors fn clean line linenum =
     (let reduced = replace line ''->'' [];
          err = (\<lambda>op. Err fn (int linenum) ''whitespace/operators'' 3 (''Missing spaces around '' @ op))
      in (case Search ''[^`s<]<([^`s=<].*)'' reduced of None \<Rightarrow> []
          | Some m \<Rightarrow> emit_if (\<not> FindNextMatchingAngleBracket clean linenum (grp m 1)) [err ''<'']) @
         (case Search ''^(.*[^`s>])>[^`s=>]'' reduced of None \<Rightarrow> []
          | Some m \<Rightarrow> emit_if (\<not> FindPreviousMatchingAngleBracket clean linenum (grp m 1)) [err ''>'']))"

definition shift_errors :: "string \<Rightarrow> cleansed_lines \<Rightarrow> string \<Rightarrow> nat \<Rightarrow> act list" where
  "shift_errors fn clean line linenum =
     (let err = Err fn (int linenum) ''whitespace/operators'' 3;
          other = (if \<not> matches ''#.*include'' line then angle_errors fn clean line linenum else [])
      in (case Search ''(`S)(?:L|UL|ULL|l|ul|ull)?<<(`S)'' line of
            Some m \<Rightarrow> if \<not> (isdigit (grp m 1) \<and> isdigit (grp m 2)) then [err ''Missing spaces around <<'']
                      else other
          | None \<Rightarrow> other) @
         emit_if (found ''>>[a-zA-Z_]'' line) [err ''Missing spaces around >>''])"

definition unary_errors :: "string \<Rightarrow> string \<Rightarrow> nat \<Rightarrow> act list" where
  "unary_errors fn line linenum =
     (case Search ''(!`s|~`s|[`s]--[`s;]|[`s]`+`+[`s;])'' line of None \<Rightarrow> []
      | Some m \<Rightarrow> [Err fn (int linenum) ''whitespace/operators'' 4 (''Extra space for operator '' @ grp m 1)])"

subsection \<open>Parentheses, commas, semicolons, braces\<close>

definition control_paren_errors :: "string \<Rightarrow> string \<Rightarrow> nat \<Rightarrow> act list" where
  "control_paren_errors fn line linenum =
     (let err = Err fn (int linenum) ''whitespace/parens'' 5
      in (case Search '' (if`(|for`(|while`(|switch`()'' line of None \<Rightarrow> []
          | Some m \<Rightarrow> [err (''Missing space before ( in '' @ grp m 1)]) @
         (case Search (''`b(if|for|while|switch)`s*'' @ ''`(([ ]*)(.).*[^ ]+([ ]*)`)`s*{`s*$'') line of
            None \<Rightarrow> []
          | Some m \<Rightarrow>
              let a = length (grp m 2); b = length (grp m 4)
              in emit_if (a \<noteq> b \<and> \<not> ((grp m 3 = '';'' \<and> a = 1 + b) \<or> (a = 0 \<and> found ''`bfor`s*`(.*; `)'' line)))
                   [err (''Mismatching spaces inside () in '' @ grp m 1)] @
                 emit_if (1 < a) [err (''Should have zero or one spaces inside ( and ) in '' @ grp m 1)]))"

definition comma_errors :: "string \<Rightarrow> string \<Rightarrow> nat \<Rightarrow> act list" where
  "comma_errors fn line linenum =
     emit_if (found '',[^`s]'' line) [Err fn (int linenum) ''whitespace/comma'' 3 ''Missing space after ,''] @
     emit_if (found '';[^`s};``)/]'' line)
       [Err fn (int linenum) ''whitespace/semicolon'' 3 ''Missing space after ;'']"

definition brace_errors :: "string \<Rightarrow> string \<Rightarrow> nat \<Rightarrow> act list" where
  "brace_errors fn line linenum =
     (let err = Err fn (int linenum) ''whitespace/braces'' 5
      in emit_if (found ''[^ ({]{'' line) [err ''Missing space before {''] @
         emit_if (found ''}else'' line) [err ''Missing space before else''] @
         emit_if (found ''`w`s+`['' line \<and> \<not> found ''delete`s+`['' line) [err ''Extra space before [''])"

definition semicolon_errors :: "string \<Rightarrow> string \<Rightarrow> nat \<Rightarrow> act list" where
  "semicolon_errors fn line linenum =
     (let err = Err fn (int linenum) ''whitespace/semicolon'' 5
      in if found '':`s*;`s*$'' line
         then [err ''Semicolon defining empty statement. Use {} instead.'']
         else if found ''^`s*;`s*$'' line
         then [err (''Line contains only semicolon. If this should be an empty statement, '' @ ''use {} instead.'')]
         else emit_if (found ''`s+;`s*$'' line \<and> \<not> found ''`bfor`b'' line)
                [err (''Extra space before last semicolon. If this should be an empty '' @
                      ''statement, use {} instead.'')])"

definition forcolon_errors :: "string \<Rightarrow> string \<Rightarrow> nat \<Rightarrow> act list" where
  "forcolon_errors fn line linenum =
     emit_if (found ''for *`(.*[^:]:[^: ]'' line \<or> found ''for *`(.*[^: ]:[^:]'' line)
       [Err fn (int linenum) ''whitespace/forcolon'' 2 ''Missing space around colon in range-based for loop'']"

definition CheckSpacing :: "string \<Rightarrow> cleansed_lines \<Rightarrow> nat \<Rightarrow> nesting \<Rightarrow> act list" where
  "CheckSpacing fn clean linenum nest =
     (let raw = raw_lines clean ! linenum; line = drop_operator (elided clean ! linenum)
      in blank_line_errors fn clean linenum nest @
         comment_errors fn raw linenum @
         assign_errors fn line linenum @
         comparison_errors fn line linenum @
         shift_errors fn clean line linenum @
         unary_errors fn line linenum @
         control_paren_errors fn line linenum @
         comma_errors fn line linenum @
         CheckSpacingForFunctionCall fn line linenum @
         brace_errors fn line linenum @
         semicolon_errors fn line linenum @
         forcolon_errors fn line linenum)"

subsection \<open>Sections of a class\<close>

text \<open>The first line of the head of the class that ends with a brace, or the first line.\<close>

fun class_head_end :: "nat \<Rightarrow> nat \<Rightarrow> string list \<Rightarrow> nat" where
  "class_head_end start i [] = start"
| "class_head_end start i (l # ls) = (if found ''`{`s*$'' l then i else class_head_end start (i + 1) ls)"

definition CheckSectionSpacing :: "string \<Rightarrow> cleansed_lines \<Rightarrow> class_info \<Rightarrow> nat \<Rightarrow> act list" where
  \<open>CheckSectionSpacing fn clean c linenum =
     (if int (class_last_line c) - int (class_start c) \<le> 24 \<or> linenum \<le> class_start c then []
      else case Match ''`s*(public|protected|private):'' (code_lines clean ! linenum) of
             None \<Rightarrow> []
           | Some m \<Rightarrow>
               let prev_line = code_lines clean ! (linenum - 1);
                   end_class_head = class_head_end (class_start c) (class_start c)
                     (slice (class_start c) linenum (code_lines clean))
               in emit_if (\<not> IsBlankLine prev_line \<and> \<not> found ''`b(class|struct)`b'' prev_line \<and>
                           \<not> found ''``$'' prev_line \<and> end_class_head + 1 < linenum)
                    [Err fn (int linenum) ''whitespace/blank_line'' 3
                       (''"'' @ grp m 1 @ '':" should be preceded by a blank line'')])\<close>

text \<open>The last line before the given one that is not blank, and its number; else -1.\<close>

fun previous_nonblank :: "string list \<Rightarrow> nat \<Rightarrow> string \<times> int" where
  "previous_nonblank el 0 = ([], -1)"
| "previous_nonblank el (Suc k) =
     (if \<not> IsBlankLine (el ! k) then (el ! k, int k) else previous_nonblank el k)"

definition GetPreviousNonBlankLine :: "cleansed_lines \<Rightarrow> nat \<Rightarrow> string \<times> int" where
  "GetPreviousNonBlankLine clean linenum = previous_nonblank (elided clean) linenum"

subsection \<open>Facts: actions\<close>

lemma wf_function_call [act_simps]: "wf_acts (CheckSpacingForFunctionCall fn line n)"
  by (simp add: CheckSpacingForFunctionCall_def Let_def)

lemma wf_blank_line_errors [act_simps]: "wf_acts (blank_line_errors fn clean n nest)"
  by (simp add: blank_line_errors_def block_start_errors_def block_end_errors_def Let_def split: option.split)

lemma wf_comment_errors [act_simps]: "wf_acts (comment_errors fn line n)"
  by (simp add: comment_errors_def Let_def wf_CheckComment)

lemma wf_spacing_parts [act_simps]:
  "wf_acts (assign_errors fn line n)" "wf_acts (comparison_errors fn line n)"
  "wf_acts (shift_errors fn clean line n)" "wf_acts (unary_errors fn line n)"
  "wf_acts (control_paren_errors fn line n)" "wf_acts (comma_errors fn line n)"
  "wf_acts (brace_errors fn line n)" "wf_acts (semicolon_errors fn line n)"
  "wf_acts (forcolon_errors fn line n)"
  by (simp_all add: assign_errors_def comparison_errors_def shift_errors_def angle_errors_def
      unary_errors_def control_paren_errors_def comma_errors_def brace_errors_def semicolon_errors_def
      forcolon_errors_def Let_def split: option.split)

lemma wf_CheckSpacing [act_simps]: "wf_acts (CheckSpacing fn clean n nest)"
  by (simp add: CheckSpacing_def Let_def act_simps)

lemma wf_CheckSectionSpacing [act_simps]: "wf_acts (CheckSectionSpacing fn clean c n)"
  by (simp add: CheckSectionSpacing_def Let_def split: option.split)

subsection \<open>Facts: angle brackets\<close>

definition is_bracket :: "char \<Rightarrow> bool" where
  "is_bracket c \<longleftrightarrow> List.member ''<>(),;[]'' c"

text \<open>The search as a stack machine over the brackets, commas and semicolons of a text.\<close>

fun bracket_machine :: "string \<Rightarrow> string \<Rightarrow> bool" where
  "bracket_machine [] stack = True"
| "bracket_machine (op # ops) stack =
     (if hd stack = CHR ''<'' then
        (if List.member ''<(['' op then bracket_machine ops (op # stack)
         else if op = CHR ''>'' then (if tl stack = [] then True else bracket_machine ops (tl stack))
         else op = CHR '','')
      else if List.member ''<(['' op then bracket_machine ops (op # stack)
      else if List.member '')]'' op then bracket_machine ops (tl stack)
      else bracket_machine ops stack)"

definition bracket_set :: "bool \<Rightarrow> rx" where
  "bracket_set neg = RSet neg [CChar CHR ''<'', CChar CHR ''>'', CChar CHR ''('', CChar CHR '')'',
     CChar CHR '','', CChar CHR '';'', CChar CHR ''['', CChar CHR '']'']"

lemma rx_NEXT_BRACKET: "rx RE_NEXT_BRACKET = first_of (bracket_set True) (bracket_set False)"
  by code_simp

lemma den_bracket_set:
  "den (bracket_set True) = {(s, t). \<exists>c. \<not> is_bracket c \<and> eats [c] s t}"
  "den (bracket_set False) = {(s, t). \<exists>c. is_bracket c \<and> eats [c] s t}"
  by (auto simp: bracket_set_def in_set_def is_bracket_def)

lemma search_next_bracket: "Search RE_NEXT_BRACKET line = rx_match (first_of (bracket_set True) (bracket_set False)) line"
  unfolding Search_def rx_NEXT_BRACKET first_of_def by (rule search_anchored)

lemmas next_bracket_match = first_of_match [OF den_bracket_set, folded search_next_bracket]

definition no_newline :: "string \<Rightarrow> bool" where "no_newline l \<longleftrightarrow> CHR 0x0A \<notin> set l"

lemma find_next_machine:
  "no_newline line \<Longrightarrow> list_all no_newline (drop (n + 1) el) \<Longrightarrow>
   find_next_bracket el n line st =
     bracket_machine (filter is_bracket line @ concat (map (filter is_bracket) (drop (n + 1) el))) st"
proof (induction el n line st rule: find_next_bracket.induct)
  case (1 el n line st)
  let ?later = "concat (map (filter is_bracket) (drop (n + 1) el))"
  have nl: "CHR 0x0A \<notin> set line" using "1.prems"(1) by (simp add: no_newline_def)
  from next_bracket_match [OF nl] show ?case
  proof (elim disjE exE conjE)
    assume none: "Search RE_NEXT_BRACKET line = None" "list_all (\<lambda>c. \<not> is_bracket c) line"
    have line: "filter is_bracket line = []" using none(2) by (simp add: list_all_iff filter_empty_conv)
    show ?thesis
    proof (cases "length el \<le> n + 1")
      case True
      with none(1) line show ?thesis by (simp add: find_next_bracket.simps [of el n line])
    next
      case False
      then have d: "drop (n + 1) el = el ! (n + 1) # drop (n + 1 + 1) el"
        by (simp add: Cons_nth_drop_Suc)
      with "1.IH"(1) [OF none(1) False] "1.prems"(2) none(1) False line show ?thesis
        by (simp add: find_next_bracket.simps [of el n line])
    qed
  next
    fix m p c r
    assume some: "Search RE_NEXT_BRACKET line = Some m" "line = p @ c # r"
      "list_all (\<lambda>c. \<not> is_bracket c) p" "is_bracket c" "grp m 1 = [c]" "grp m 2 = r"
    have r: "no_newline r" using "1.prems"(1) some(2) by (simp add: no_newline_def)
    have line: "filter is_bracket line = c # filter is_bracket r"
      using some(2-4) by (simp add: list_all_iff filter_empty_conv)
    have IH: "find_next_bracket el n r st' = bracket_machine (filter is_bracket r @ ?later) st'"
      if "st' = c # st \<and> List.member ''<(['' c \<or> st' = tl st \<and> hd st = CHR ''<'' \<and> c = CHR ''>'' \<and> tl st \<noteq> [] \<or>
        st' = tl st \<and> hd st \<noteq> CHR ''<'' \<and> List.member '')]'' c \<or>
        st' = st \<and> hd st \<noteq> CHR ''<'' \<and> \<not> List.member ''<(['' c \<and> \<not> List.member '')]'' c" for st'
      using that "1.IH"(2-6) [OF some(1) refl refl] some(5,6) r "1.prems"(2)
      by (cases "hd st = CHR ''<''") auto
    show ?thesis
      using some(1,5,6) IH [of "c # st"] IH [of "tl st"] IH [of st]
      by (auto simp: find_next_bracket.simps [of el n line] line Let_def)
  qed
qed

text \<open>C15: looking for the bracket that closes a template walks over the lines with a pattern; on lines without newlines it decides exactly what a stack machine decides that reads the brackets, commas and semicolons of the rest of the file in order.\<close>

theorem FindNextMatchingAngleBracket_refines:
  assumes "no_newline line" and "list_all no_newline (drop (n + 1) (elided clean))"
  shows "FindNextMatchingAngleBracket clean n line =
    bracket_machine (filter is_bracket line @ concat (map (filter is_bracket) (drop (n + 1) (elided clean)))) ''<''"
  unfolding FindNextMatchingAngleBracket_def using assms by (rule find_next_machine)

lemma FindNextMatchingAngleBracket_refines_witness:
  "\<not> FindNextMatchingAngleBracket (CleansedLines [''a<b'', '' && f(x > 3);'']) 0 ''b''"
proof -
  have el: "drop (Suc 0) (elided (CleansedLines [''a<b'', '' && f(x > 3);''])) = ['' && f(x > 3);'']"
    by code_simp
  show ?thesis
    by (subst FindNextMatchingAngleBracket_refines) (simp_all add: el no_newline_def is_bracket_def)
qed

subsection \<open>Facts: blank lines\<close>

lemma find_zero_iff: "find s sub = 0 \<longleftrightarrow> startswith s sub"
  by (cases s; cases sub) (auto simp: find_def split: option.split)



text \<open>C27: the previous line that is not blank is the nearest one: every line between is blank, and when there is none every line before is.\<close>

theorem GetPreviousNonBlankLine_nearest:
  "case GetPreviousNonBlankLine clean n of (line, k) \<Rightarrow>
     if k = -1 then line = [] \<and> list_all (\<lambda>i. IsBlankLine (elided clean ! i)) [0..<n]
     else 0 \<le> k \<and> k < int n \<and> line = elided clean ! nat k \<and> \<not> IsBlankLine line \<and>
       list_all (\<lambda>i. IsBlankLine (elided clean ! i)) [Suc (nat k)..<n]"
  unfolding GetPreviousNonBlankLine_def
  by (induction n) auto

end
