(* ===== verification/RegexWords.thy ===== *)
theory RegexWords
  imports RegexGroups
begin

text \<open>
  What a group can hold: the text of a group is one that the pattern inside it matches, and
  a pattern without repeats has finitely many texts, which can be listed.
\<close>

primrec groups :: "nat \<Rightarrow> rx \<Rightarrow> rx list" where
  "groups k REmpty = []"
| "groups k (RSet neg cs) = []"
| "groups k RAny = []"
| "groups k RBol = []"
| "groups k REol = []"
| "groups k RWordB = []"
| "groups k (RSeq a b) = groups k a @ groups k b"
| "groups k (RAlt a b) = groups k a @ groups k b"
| "groups k (RStar g a) = groups k a"
| "groups k (RGrp j a) = (if k = j then a # groups k a else groups k a)"
| "groups k (RLook pos a) = []"
| "groups k (RBack j) = []"

definition cap_text :: "rx \<Rightarrow> mstate \<Rightarrow> mstate \<Rightarrow> bool" where
  "cap_text r s t \<longleftrightarrow> (\<forall>k i j. (k, i, j) \<in> set (caps_of t) \<longrightarrow> (k, i, j) \<in> set (caps_of s) \<or>
     (\<exists>g u v. g \<in> set (groups k r) \<and> (u, v) \<in> den g \<and> subject u = subject s \<and>
        i = length (text_past u) \<and> j = length (text_past v)))"

lemma cap_textI: "caps_of t = caps_of s \<Longrightarrow> cap_text r s t"
  by (simp add: cap_text_def)

lemma cap_text_mono: "cap_text a s t \<Longrightarrow> \<forall>k. set (groups k a) \<subseteq> set (groups k r) \<Longrightarrow> cap_text r s t"
  unfolding cap_text_def by (meson subsetD)

lemma cap_text_trans:
  assumes "cap_text r s u" "cap_text r u t" "subject u = subject s" shows "cap_text r s t"
  using assms unfolding cap_text_def by metis

lemma den_subject: "(s, t) \<in> den r \<Longrightarrow> subject t = subject s"
  by (intro advances_subject den_advances)

lemma den_cap_text: "(s, t) \<in> den r \<Longrightarrow> cap_text r s t"
proof (induction r arbitrary: s t)
  case (RSeq a b)
  from RSeq.prems obtain u where u: "(s, u) \<in> den a" "(u, t) \<in> den b" by (rule den_seqE)
  have "cap_text (RSeq a b) s u" by (rule cap_text_mono [OF RSeq.IH(1) [OF u(1)]]) simp
  moreover have "cap_text (RSeq a b) u t" by (rule cap_text_mono [OF RSeq.IH(2) [OF u(2)]]) simp
  ultimately show ?case using den_subject [OF u(1)] by (rule cap_text_trans)
next
  case (RAlt a b)
  from RAlt.prems have "(s, t) \<in> den a \<or> (s, t) \<in> den b" by simp
  then show ?case
  proof
    assume "(s, t) \<in> den a"
    then show ?thesis by (intro cap_text_mono [OF RAlt.IH(1)]) simp_all
  next
    assume "(s, t) \<in> den b"
    then show ?thesis by (intro cap_text_mono [OF RAlt.IH(2)]) simp_all
  qed
next
  case (RStar g a)
  from RStar.prems have "(s, t) \<in> (den a \<inter> progress)\<^sup>*" by simp
  then show ?case
  proof (induction rule: rtrancl_induct)
    case base
    show ?case by (simp add: cap_textI)
  next
    case (step u t)
    have "(u, t) \<in> den a" using step(2) by blast
    then have "cap_text (RStar g a) u t" by (intro cap_text_mono [OF RStar.IH]) simp_all
    moreover have "subject u = subject s" using step(1) den_subject [of s u "RStar g a"] by simp
    ultimately show ?case by (rule cap_text_trans [OF step.IH])
  qed
next
  case (RGrp k a)
  from RGrp.prems obtain u where u: "(s, u) \<in> den a"
    "t = (text_past u, text_left u, (k, length (text_past s), length (text_past u)) # caps_of u)"
    by (rule den_grpE)
  have "cap_text (RGrp k a) s u" by (rule cap_text_mono [OF RGrp.IH [OF u(1)]]) auto
  then show ?case
    unfolding cap_text_def
  proof (intro allI impI, goal_cases)
    case (1 k' i j)
    show ?case
    proof (cases "(k', i, j) \<in> set (caps_of u)")
      case True
      with 1(1) show ?thesis by blast
    next
      case False
      with 1(2) u(2) have "k' = k" "i = length (text_past s)" "j = length (text_past u)" by auto
      then show ?thesis using u(1) by (intro disjI2 exI [of _ a] exI [of _ s] exI [of _ u]) simp
    qed
  qed
qed (auto intro: cap_textI simp: eats_def)

subsection \<open>The texts of a pattern without repeats\<close>

fun words :: "rx \<Rightarrow> string list option" where
  "words REmpty = Some [[]]"
| "words (RSet neg [CChar c]) = (if neg then None else Some [[c]])"
| "words RWordB = Some [[]]"
| "words RBol = Some [[]]"
| "words (RSeq a b) = (case (words a, words b) of
     (Some us, Some vs) \<Rightarrow> Some (concat (map (\<lambda>u. map (\<lambda>v. u @ v) vs) us)) | _ \<Rightarrow> None)"
| "words (RAlt a b) = (case (words a, words b) of (Some us, Some vs) \<Rightarrow> Some (us @ vs) | _ \<Rightarrow> None)"
| "words (RGrp k a) = words a"
| "words _ = None"

lemma words_consumed: "words r = Some ws \<Longrightarrow> (s, t) \<in> den r \<Longrightarrow> \<exists>w\<in>set ws. consumed s t w"
proof (induction r arbitrary: s t ws rule: words.induct)
  case (2 neg c)
  then show ?case by (auto simp: in_set_def consumed_def eats_def split: if_splits)
next
  case (5 a b)
  from 5(3) obtain us vs where w: "words a = Some us" "words b = Some vs"
    "ws = concat (map (\<lambda>u. map (\<lambda>v. u @ v) vs) us)" by (auto split: option.splits)
  from 5(4) obtain x where x: "(s, x) \<in> den a" "(x, t) \<in> den b" by (rule den_seqE)
  from 5(1) [OF w(1) x(1)] 5(2) [OF w(2) x(2)] obtain u v where
    "u \<in> set us" "v \<in> set vs" "consumed s x u" "consumed x t v" by blast
  then show ?case using w(3) consumed_trans by fastforce
next
  case (6 a b)
  from 6(3) obtain us vs where w: "words a = Some us" "words b = Some vs" "ws = us @ vs"
    by (auto split: option.splits)
  from 6(4) have "(s, t) \<in> den a \<or> (s, t) \<in> den b" by simp
  then have "(\<exists>w\<in>set us. consumed s t w) \<or> (\<exists>w\<in>set vs. consumed s t w)"
    using 6(1) [OF w(1), of s t] 6(2) [OF w(2), of s t] by (elim disjE) simp_all
  then show ?case unfolding w(3) set_append by blast
next
  case (7 k a)
  from 7(3) obtain u where "(s, u) \<in> den a" "text_left t = text_left u" "text_past t = text_past u"
    by (rule den_grpE) simp
  with 7(1) [of ws s u] 7(2) show ?case by (auto simp: consumed_def)
qed (auto simp: consumed_def)

text \<open>The texts group \<open>k\<close> can hold, when they can be listed.\<close>

definition group_words :: "nat \<Rightarrow> rx \<Rightarrow> string list option" where
  "group_words k r = (if list_all (\<lambda>g. words g \<noteq> None) (groups k r)
     then Some (concat (map (\<lambda>g. the (words g)) (groups k r))) else None)"

lemma slice_consumed: "consumed u v w \<Longrightarrow> slice (length (text_past u)) (length (text_past v)) (subject u) = w"
  by (auto simp: consumed_def slice_def subject_def)

lemma den_group_consumed:
  assumes d: "(s, t) \<in> den r" "caps_of s = []" and m: "m_string m = subject s" "m_caps m = caps_of t"
    and k: "0 < k" "group m k = Some x"
  shows "\<exists>g\<in>set (groups k r). \<exists>u v. (u, v) \<in> den g \<and> consumed u v x"
proof -
  from k m obtain i j where ij: "cap_lookup k (caps_of t) = Some (i, j)" "x = slice i j (subject s)"
    by (auto simp: group_def span_def split: option.splits)
  then have "(k, i, j) \<in> set (caps_of t)" by (simp add: cap_lookup_in)
  moreover have "(k, i, j) \<notin> set (caps_of s)" using d(2) by simp
  ultimately obtain g u v where g: "g \<in> set (groups k r)" "(u, v) \<in> den g"
    "subject u = subject s" "i = length (text_past u)" "j = length (text_past v)"
    using den_cap_text [OF d(1)] unfolding cap_text_def by blast
  from den_consumed [OF g(2)] obtain w where w: "consumed u v w" by blast
  have "x = w" using slice_consumed [OF w] ij(2) g by simp
  with g(1,2) w show ?thesis by blast
qed

lemma den_group_words:
  assumes d: "(s, t) \<in> den r" "caps_of s = []" and m: "m_string m = subject s" "m_caps m = caps_of t"
    and k: "0 < k" "group m k = Some x" "group_words k r = Some ws"
  shows "x \<in> set ws"
proof -
  from den_group_consumed [OF d m k(1,2)] obtain g u v where
    g: "g \<in> set (groups k r)" "(u, v) \<in> den g" "consumed u v x" by blast
  from k(3) have all: "list_all (\<lambda>g. words g \<noteq> None) (groups k r)"
    and ws: "ws = concat (map (\<lambda>g. the (words g)) (groups k r))"
    by (auto simp: group_words_def split: if_splits)
  from all g(1) obtain vs where vs: "words g = Some vs" by (auto simp: list_all_iff)
  from words_consumed [OF vs g(2)] obtain w where w: "w \<in> set vs" "consumed u v w" by blast
  have "x = w" using g(3) w(2) by (rule consumed_unique)
  moreover have "w \<in> set (the (words g))" using w(1) vs by simp
  ultimately show ?thesis using g(1) unfolding ws by auto
qed

lemma search_from_den:
  assumes "search_from r p x = Some (i, t)"
  shows "\<exists>q y. ((q, y, []), t) \<in> den r \<and> rev q @ y = rev p @ x \<and> length q = i"
  using assms
proof (induction x arbitrary: p)
  case Nil
  then have "t \<in> set (outs r (p, [], []))" "i = length p"
    by (auto simp: search_from.simps [of r p] split: list.splits)
  then show ?case unfolding outs_iff_den by blast
next
  case (Cons c x)
  show ?case
  proof (cases "outs r (p, c # x, [])")
    case Nil
    with Cons.prems have "search_from r (c # p) x = Some (i, t)" by (simp add: search_from.simps [of r p])
    from Cons.IH [OF this] show ?thesis by simp
  next
    case (Cons st sts)
    with Cons.prems have "t \<in> set (outs r (p, c # x, []))" "i = length p"
      by (auto simp: search_from.simps [of r p])
    then show ?thesis unfolding outs_iff_den by blast
  qed
qed

definition match_of :: "rx \<Rightarrow> string \<Rightarrow> rmatch \<Rightarrow> bool" where
  "match_of r s m \<longleftrightarrow> (\<exists>q y t. ((q, y, []), t) \<in> den r \<and> rev q @ y = s \<and> m = mk_match (length q) t)"

lemma match_of_group_words:
  assumes "match_of r s m" "0 < k" "group m k = Some x" "group_words k r = Some ws"
  shows "x \<in> set ws"
proof -
  from assms(1) obtain q y t where m: "((q, y, []), t) \<in> den r" "m = mk_match (length q) t"
    by (auto simp: match_of_def)
  have "m_string m = subject (q, y, [])" "m_caps m = caps_of t"
    using den_subject [OF m(1)] m(2) by (simp_all add: mk_match_def)
  from den_group_words [OF m(1) _ this assms(2-4)] show ?thesis by simp
qed

text \<open>Patterns that consume characters with a property only.\<close>

primrec only :: "(char \<Rightarrow> bool) \<Rightarrow> rx \<Rightarrow> bool" where
  "only P REmpty \<longleftrightarrow> True"
| "only P (RSet neg cs) \<longleftrightarrow> (\<forall>c. in_set neg cs c \<longrightarrow> P c)"
| "only P RAny \<longleftrightarrow> (\<forall>c. P c)"
| "only P RBol \<longleftrightarrow> True"
| "only P REol \<longleftrightarrow> True"
| "only P RWordB \<longleftrightarrow> True"
| "only P (RSeq a b) \<longleftrightarrow> only P a \<and> only P b"
| "only P (RAlt a b) \<longleftrightarrow> only P a \<and> only P b"
| "only P (RStar g a) \<longleftrightarrow> only P a"
| "only P (RGrp k a) \<longleftrightarrow> only P a"
| "only P (RLook pos a) \<longleftrightarrow> True"
| "only P (RBack k) \<longleftrightarrow> False"

lemma only_consumed: "only P r \<Longrightarrow> (s, t) \<in> den r \<Longrightarrow> \<exists>w. consumed s t w \<and> list_all P w"
proof (induction r arbitrary: s t)
  case (RSeq a b)
  from RSeq.prems(2) obtain u where u: "(s, u) \<in> den a" "(u, t) \<in> den b" by (rule den_seqE)
  from RSeq.IH(1) [OF _ u(1)] RSeq.IH(2) [OF _ u(2)] RSeq.prems(1) obtain v w where
    "consumed s u v" "consumed u t w" "list_all P v" "list_all P w" by auto
  then show ?case using consumed_trans by fastforce
next
  case (RAlt a b)
  from RAlt.prems(2) have "(s, t) \<in> den a \<or> (s, t) \<in> den b" by simp
  then show ?case using RAlt.IH(1) [of s t] RAlt.IH(2) [of s t] RAlt.prems(1) by (elim disjE) simp_all
next
  case (RStar g a)
  from RStar.prems(2) have "(s, t) \<in> (den a \<inter> progress)\<^sup>*" by simp
  then show ?case
  proof (induction rule: rtrancl_induct)
    case base
    show ?case by (intro exI [of _ "[]"]) (simp add: consumed_def)
  next
    case (step u t)
    then have "(u, t) \<in> den a" by blast
    from RStar.IH [OF _ this] RStar.prems(1) obtain w where w: "consumed u t w" "list_all P w" by auto
    from step.IH obtain v where "consumed s u v" "list_all P v" by blast
    with w show ?case using consumed_trans by fastforce
  qed
next
  case (RGrp k a)
  from RGrp.prems(2) obtain u where "(s, u) \<in> den a" "text_left t = text_left u" "text_past t = text_past u"
    by (rule den_grpE) simp
  with RGrp.IH [of s u] RGrp.prems(1) show ?case by (auto simp: consumed_def)
qed (auto simp: consumed_def eats_def intro: exI [of _ "[]"])

lemma match_of_group_only:
  assumes "match_of r s m" "0 < k" "list_all (only P) (groups k r)" "group m k = Some x"
  shows "list_all P x"
proof -
  from assms(1) obtain q y t where m: "((q, y, []), t) \<in> den r" "m = mk_match (length q) t"
    by (auto simp: match_of_def)
  have "m_string m = subject (q, y, [])" "m_caps m = caps_of t"
    using den_subject [OF m(1)] m(2) by (simp_all add: mk_match_def)
  from den_group_consumed [OF m(1) _ this assms(2,4)] obtain g u v where
    g: "g \<in> set (groups k r)" "(u, v) \<in> den g" "consumed u v x" by auto
  have "only P g" using g(1) assms(3) by (simp add: list_all_iff)
  from only_consumed [OF this g(2)] obtain w where "consumed u v w" "list_all P w" by blast
  with consumed_unique [OF g(3)] show ?thesis by simp
qed

lemma match_of_group_always:
  assumes "match_of r s m" "0 < k" "always k r" shows "group m k \<noteq> None"
proof -
  from assms(1) obtain q y t where m: "((q, y, []), t) \<in> den r" "m = mk_match (length q) t"
    by (auto simp: match_of_def)
  from always_caps [OF assms(3) m(1)] have "cap_lookup k (caps_of t) \<noteq> None"
    by (simp add: cap_lookup_None)
  with m(2) assms(2) show ?thesis by (auto simp: group_def span_def mk_match_def)
qed

lemma match_of_grp:
  assumes "match_of r s m" "0 < k" "always k r" "group_words k r = Some ws"
  shows "grp m k \<in> set ws"
  using match_of_group_always [OF assms(1-3)] match_of_group_words [OF assms(1,2) _ assms(4)]
  by (auto simp: grp_def)

lemma rx_match_of: "rx_match r s = Some m \<Longrightarrow> match_of r s m"
proof -
  assume "rx_match r s = Some m"
  then obtain t where "(([], s, []), t) \<in> den r" "m = mk_match (length ([]::string)) t"
    using rx_match_den by fastforce
  then show ?thesis unfolding match_of_def by (intro exI [of _ "[]"] exI [of _ s] exI [of _ t]) simp
qed

lemma rx_search_of: "rx_search r s = Some m \<Longrightarrow> match_of r s m"
proof -
  assume "rx_search r s = Some m"
  then obtain i t where "search_from r [] s = Some (i, t)" "m = mk_match i t"
    by (auto simp: rx_search_def)
  with search_from_den [of r "[]" s i t] obtain q y where
    "((q, y, []), t) \<in> den r" "rev q @ y = s" "length q = i" by auto
  with \<open>m = mk_match i t\<close> show ?thesis
    unfolding match_of_def by (intro exI [of _ q] exI [of _ y] exI [of _ t]) simp
qed

lemma scan_of: "m \<in> set (scan n r p x) \<Longrightarrow> match_of r (rev p @ x) m"
proof (induction n arbitrary: p x)
  case (Suc n)
  then obtain i st where f: "search_from r p x = Some (i, st)" by (cases "search_from r p x") auto
  from search_from_den [OF f] obtain q y where
    q: "((q, y, []), st) \<in> den r" "rev q @ y = rev p @ x" "length q = i" by blast
  have st: "rev (text_past st) @ text_left st = rev p @ x"
    using den_subject [OF q(1)] q(2) by (simp add: subject_def)
  have "m = mk_match i st \<or> m \<in> set (scan n r (text_past st) (text_left st)) \<or>
      (\<exists>c z. text_left st = c # z \<and> m \<in> set (scan n r (c # text_past st) z))"
    using Suc.prems f by (cases "text_left st") (auto split: if_splits)
  then show ?case
  proof (elim disjE exE conjE)
    assume "m = mk_match i st"
    with q show ?thesis unfolding match_of_def by (intro exI [of _ q] exI [of _ y] exI [of _ st]) simp
  next
    assume "m \<in> set (scan n r (text_past st) (text_left st))"
    from Suc.IH [OF this] st show ?thesis by simp
  next
    fix c z assume "text_left st = c # z" "m \<in> set (scan n r (c # text_past st) z)"
    with Suc.IH [of "c # text_past st" z] st show ?thesis by simp
  qed
qed simp

lemma finditer_of: "m \<in> set (rx_finditer r s) \<Longrightarrow> match_of r s m"
  using scan_of [of m "Suc (length s)" r "[]" s] by (simp add: rx_finditer_def)

lemma Match_grp:
  "Match p s = Some m \<Longrightarrow> 0 < k \<Longrightarrow> always k (rx p) \<Longrightarrow> group_words k (rx p) = Some ws \<Longrightarrow> grp m k \<in> set ws"
  unfolding Match_def by (intro match_of_grp rx_match_of)

lemma Search_grp:
  "Search p s = Some m \<Longrightarrow> 0 < k \<Longrightarrow> always k (rx p) \<Longrightarrow> group_words k (rx p) = Some ws \<Longrightarrow> grp m k \<in> set ws"
  unfolding Search_def by (intro match_of_grp rx_search_of)

end
