(* ===== verification/Style.thy ===== *)
theory Style
  imports Spacing RegexWords
begin

text \<open>
  \<open>CheckStyle\<close> and the checks it calls besides spacing: access of macros, braces, empty loop
  bodies, CHECK macros, alternative tokens, line width and indentation.
\<close>

subsection \<open>Access\<close>

definition CheckAccess :: "string \<Rightarrow> cleansed_lines \<Rightarrow> nat \<Rightarrow> nesting \<Rightarrow> act list" where
  "CheckAccess fn clean linenum nest =
     (case Match (''`s*(DISALLOW_COPY_AND_ASSIGN|'' @ ''DISALLOW_EVIL_CONSTRUCTORS|'' @
                  ''DISALLOW_IMPLICIT_CONSTRUCTORS)'') (elided clean ! linenum) of
        None \<Rightarrow> []
      | Some m \<Rightarrow>
          (case blocks nest of [] \<Rightarrow> []
           | b # _ \<Rightarrow>
               (case kind b of
                  ClassBlock c \<Rightarrow> emit_if (access c \<noteq> ''private'')
                    [Err fn (int linenum) ''readability/constructors'' 3
                       (grp m 1 @ '' must be in the private: section'')]
                | _ \<Rightarrow> [])))"

subsection \<open>Braces\<close>

text \<open>\<open>s[p:]\<close>: a negative position counts from the end.\<close>

definition slice_from :: "string \<Rightarrow> int \<Rightarrow> string" where
  "slice_from s p = drop (nat (if p < 0 then max 0 (int (length s) + p) else p)) s"

definition brace_position_errors :: "string \<Rightarrow> cleansed_lines \<Rightarrow> nat \<Rightarrow> string \<Rightarrow> act list" where
  "brace_position_errors fn clean linenum line =
     (let prevline = fst (GetPreviousNonBlankLine clean linenum);
          err = Err fn (int linenum) ''whitespace/braces_pos'' 4
      in emit_if (matches ''`s*{`s*$'' line \<and> \<not> found ''[;:}{]`s*$'' prevline)
           [err ''{ should almost always be at the end of the previous line''] @
         emit_if (matches ''`s*else`s*'' line \<and> matches ''`s*}`s*$'' prevline)
           [err ''An else should appear on the same line as the preceding }''])"

definition else_brace_errors :: "string \<Rightarrow> cleansed_lines \<Rightarrow> nat \<Rightarrow> string \<Rightarrow> act list" where
  "else_brace_errors fn clean linenum line =
     (let err = Err fn (int linenum) ''readability/braces'' 5
                  ''If an else has a brace on one side, it should have it on both''
      in if found ''}`s*else[^{]*$'' line \<or> matches ''[^}]*else`s*{'' line then
           (if found ''}`s*else if([^{]*)$'' line then
              (let pos = find_from line ''('' (find line ''else if'')
               in if 0 < pos then
                    (case CloseExpression clean linenum (nat pos) of
                       Inl x \<Rightarrow> [Raise x]
                     | Inr (endline, _, endpos) \<Rightarrow>
                         emit_if (\<not> contains (slice_from endline endpos) ''{'') [err])
                  else [])
            else [err])
         else [])"

definition one_line_errors :: "string \<Rightarrow> string \<Rightarrow> nat \<Rightarrow> act list" where
  "one_line_errors fn line linenum =
     (let err = Err fn (int linenum) ''whitespace/newline'' 4
      in emit_if (found ''`belse [^`s{]'' line \<and> \<not> found ''`belse if`b'' line)
           [err ''Else clause should never be on same line as else (use 2 lines)''] @
         emit_if (matches ''`s*do [^`s{]'' line)
           [err ''do/while clauses should not be on a single line''])"

text \<open>
  The line with the lines above it joined on as long as it starts with a brace block and the
  line above has no semicolon. There is no stop at the first line: the loop need not end.
\<close>

partial_function (option) join_block :: "string list \<Rightarrow> nat \<Rightarrow> string \<Rightarrow> string option" where
  "join_block el linenum line =
     (case previous_nonblank el linenum of (prevline, prevlinenum) \<Rightarrow>
        if matches ''`s+{.*}`s*;'' line \<and> \<not> contains prevline '';''
        then join_block el (nat prevlinenum) (prevline @ line)
        else Some line)"

declare join_block.simps [code]

definition block_semicolon_errors :: "string \<Rightarrow> cleansed_lines \<Rightarrow> nat \<Rightarrow> string \<Rightarrow> act list" where
  \<open>block_semicolon_errors fn clean linenum line =
     (case join_block (elided clean) linenum line of
        None \<Rightarrow> [Raise Diverges]
      | Some line \<Rightarrow>
          emit_if (found ''{.*}`s*;'' line \<and>
                   count_list line (CHR ''{'') = count_list line (CHR ''}'') \<and>
                   \<not> found ''struct|class|enum|`s*=`s*{'' line)
            [Err fn (int linenum) ''readability/braces'' 4 (''You don'' @ squote @ ''t need a ; after a }'')])\<close>

definition CheckBraces :: "string \<Rightarrow> cleansed_lines \<Rightarrow> nat \<Rightarrow> act list" where
  "CheckBraces fn clean linenum =
     (let line = elided clean ! linenum
      in brace_position_errors fn clean linenum line @
         else_brace_errors fn clean linenum line @
         one_line_errors fn line linenum @
         block_semicolon_errors fn clean linenum line)"

definition CheckEmptyLoopBody :: "string \<Rightarrow> cleansed_lines \<Rightarrow> nat \<Rightarrow> act list" where
  "CheckEmptyLoopBody fn clean linenum =
     (let line = elided clean ! linenum
      in if matches ''`s*(for|while)`s*`('' line then
           (case CloseExpression clean linenum (nat (find line ''('')) of
              Inl x \<Rightarrow> [Raise x]
            | Inr (end_line, end_linenum, end_pos) \<Rightarrow>
                emit_if (0 \<le> end_pos \<and> matches '';'' (slice_from end_line end_pos))
                  [Err fn (int end_linenum) ''whitespace/empty_loop_body'' 5
                     ''Empty loop bodies should use {} or continue''])
         else [])"

subsection \<open>CHECK macros\<close>

definition CHECK_MACROS :: "string list" where
  "CHECK_MACROS = [''DCHECK'', ''CHECK'', ''EXPECT_TRUE_M'', ''EXPECT_TRUE'', ''ASSERT_TRUE_M'',
     ''ASSERT_TRUE'', ''EXPECT_FALSE_M'', ''EXPECT_FALSE'', ''ASSERT_FALSE_M'', ''ASSERT_FALSE'']"

definition op_names :: "(string \<times> string) list" where
  "op_names = [(''=='', ''EQ''), (''!='', ''NE''), (''>='', ''GE''), (''>'', ''GT''), (''<='', ''LE''), (''<'', ''LT'')]"

definition inv_op_names :: "(string \<times> string) list" where
  "inv_op_names = [(''=='', ''NE''), (''!='', ''EQ''), (''>='', ''LT''), (''>'', ''LE''), (''<='', ''GT''), (''<'', ''GE'')]"

text \<open>The prefix and suffix of the macros that replace one, and the names of the operators.\<close>

definition replacement_of :: "string \<Rightarrow> (string \<times> string \<times> (string \<times> string) list) option" where
  "replacement_of macro = map_of
     [(''DCHECK'', ''DCHECK_'', [], op_names), (''CHECK'', ''CHECK_'', [], op_names),
      (''EXPECT_TRUE'', ''EXPECT_'', [], op_names), (''ASSERT_TRUE'', ''ASSERT_'', [], op_names),
      (''EXPECT_TRUE_M'', ''EXPECT_'', ''_M'', op_names), (''ASSERT_TRUE_M'', ''ASSERT_'', ''_M'', op_names),
      (''EXPECT_FALSE'', ''EXPECT_'', [], inv_op_names), (''ASSERT_FALSE'', ''ASSERT_'', [], inv_op_names),
      (''EXPECT_FALSE_M'', ''EXPECT_'', ''_M'', inv_op_names),
      (''ASSERT_FALSE_M'', ''ASSERT_'', ''_M'', inv_op_names)] macro"

definition CHECK_REPLACEMENT :: "string \<Rightarrow> string \<Rightarrow> string option" where
  "CHECK_REPLACEMENT macro op =
     (case replacement_of macro of None \<Rightarrow> None
      | Some (pre, suf, ops) \<Rightarrow> map_option (\<lambda>r. pre @ r @ suf) (map_of ops op))"

definition match_constant :: string where
  \<open>match_constant = ''([-+]?(`d+|0[xX][0-9a-fA-F]+)[lLuU]{0,3}|".*"|`'' @ squote @ ''.*`'' @ squote @ '')''\<close>

definition ReplaceableCheck :: "string \<Rightarrow> string \<Rightarrow> string \<Rightarrow> bool" where
  "ReplaceableCheck operator macro line \<longleftrightarrow>
     matches (''`s*'' @ macro @ ''`((`s*'' @ match_constant @ ''`s*'' @ operator @ ''[^<>].*|'' @
              ''.*[^<>]'' @ operator @ ''`s*'' @ match_constant @ ''`s*`))'') line \<and>
     \<not> found ''NULL|&&|`|`|'' line"

definition check_operators :: "string list" where
  "check_operators = [''=='', ''!='', ''>='', ''>'', ''<='', ''<'']"

definition CheckCheck :: "string \<Rightarrow> cleansed_lines \<Rightarrow> nat \<Rightarrow> act list" where
  "CheckCheck fn clean linenum =
     (case filter (\<lambda>macro. contains (raw_lines clean ! linenum) macro) CHECK_MACROS of
        [] \<Rightarrow> []
      | macro # _ \<Rightarrow>
          (case filter (\<lambda>op. ReplaceableCheck op macro (elided clean ! linenum)) check_operators of
             [] \<Rightarrow> []
           | op # _ \<Rightarrow>
               (case CHECK_REPLACEMENT macro op of
                  None \<Rightarrow> [Raise KeyError]
                | Some r \<Rightarrow> [Err fn (int linenum) ''readability/check'' 2
                    (''Consider using '' @ r @ '' instead of '' @ macro @ ''(a '' @ op @ '' b)'')])))"

subsection \<open>Alternative tokens\<close>

definition ALT_TOKEN_REPLACEMENT :: "(string \<times> string) list" where
  "ALT_TOKEN_REPLACEMENT =
    [(''and'', ''&&''), (''bitor'', ''|''), (''or'', ''||''), (''xor'', ''^''), (''compl'', ''~''),
     (''bitand'', ''&''), (''and_eq'', ''&=''), (''or_eq'', ''|=''), (''xor_eq'', ''^=''),
     (''not'', ''!''), (''not_eq'', ''!='')]"

text \<open>
  The source joins the keys in the order of the dict; at most one of them fits before the
  lookahead, so any order finds the same.
\<close>

definition ALT_TOKEN_REPLACEMENT_PATTERN :: string where
  "ALT_TOKEN_REPLACEMENT_PATTERN =
     ''[ =()]('' @ join ''|'' (map fst ALT_TOKEN_REPLACEMENT) @ '')(?=[ (]|$)''"

definition CheckAltTokens :: "string \<Rightarrow> cleansed_lines \<Rightarrow> nat \<Rightarrow> act list" where
  "CheckAltTokens fn clean linenum =
     (let line = elided clean ! linenum
      in if matches ''^`s*#'' line \<or> contains line ''/*'' \<or> contains line ''*/'' then []
         else map (\<lambda>m. case map_of ALT_TOKEN_REPLACEMENT (grp m 1) of
                  None \<Rightarrow> Raise KeyError
                | Some r \<Rightarrow> Err fn (int linenum) ''readability/alt_tokens'' 2
                    (''Use operator '' @ r @ '' instead of '' @ grp m 1))
                (rx_finditer (rx ALT_TOKEN_REPLACEMENT_PATTERN) line))"

subsection \<open>Line width and indentation\<close>

text \<open>
  The first wide character is U+1100 and the first combining one U+0300, and no text of
  code points up to 255 changes under NFC.
\<close>

definition wide :: "char \<Rightarrow> bool" where "wide c \<longleftrightarrow> 4352 \<le> code c"
definition combining :: "char \<Rightarrow> bool" where "combining c \<longleftrightarrow> 768 \<le> code c"

definition GetLineWidth :: "string \<Rightarrow> nat" where
  "GetLineWidth line = sum_list (map (\<lambda>c. if wide c then 2 else if \<not> combining c then 1 else 0) line)"

definition IndentLength :: "string \<Rightarrow> nat" where
  "IndentLength line = length (takeWhile (\<lambda>c. c = CHR '' '') line)"

definition IsBadIndent :: "nat \<Rightarrow> string \<Rightarrow> nat \<Rightarrow> string list \<Rightarrow> bool" where
  "IsBadIndent initial_spaces line linenum raw =
     (if initial_spaces mod 4 = 0 \<or> initial_spaces mod 2 = 0 then False
      else if linenum = 0 then True
      else if line = bs '' `'' then False
      else let prev_line = raw ! (linenum - 1); prev_indent = IndentLength prev_line
           in if length prev_line < initial_spaces then True
              else if List.member ''(<['' (prev_line ! (initial_spaces - 1)) then False
              else if prev_indent = initial_spaces then False
              else if initial_spaces + 2 < length prev_line \<and> prev_indent + 2 = initial_spaces \<and>
                      slice prev_indent (prev_indent + 2) prev_line = '': '' \<and>
                      prev_line ! initial_spaces \<noteq> CHR '' '' then False
              else if initial_spaces < length prev_line \<and> \<not> uspace (prev_line ! initial_spaces) \<and>
                      uspace (prev_line ! (initial_spaces - 1)) then False
              else True)"

subsection \<open>CheckStyle\<close>

definition whitespace_errors :: "string \<Rightarrow> cleansed_lines \<Rightarrow> nat \<Rightarrow> act list" where
  "whitespace_errors fn clean linenum =
     (let line = raw_lines clean ! linenum; n = int linenum; initial_spaces = IndentLength line
      in emit_if (contains line [CHR 0x09])
           [Err fn n ''whitespace/tab'' 1 ''Tab found; better to use spaces''] @
         emit_if (line \<noteq> [] \<and> uspace (last line))
           [Err fn n ''whitespace/end_of_line'' 4
              ''Line ends in whitespace.  Consider deleting these extra spaces.''] @
         emit_if (IsBadIndent initial_spaces line linenum (raw_lines clean))
           [Err fn n ''whitespace/indent'' 3
              ''Weird number of spaces at line-start. Are you using a 2-space or 4-space indent?''] @
         emit_if (0 < initial_spaces \<and> take 2 line \<noteq> ''//'' \<and> found ''^`s*[`w]+`s*:`s*$'' line \<and>
                  \<not> found ''public|private|protected|default`s*:'' line)
           [Err fn n ''whitespace/labels'' 4 ''Labels should always be not indented.''])"

definition guard_line_of :: "string \<Rightarrow> string \<Rightarrow> bool" where
  "guard_line_of cppvar line \<longleftrightarrow> startswith line (''#ifndef '' @ cppvar) \<or>
     startswith line (''#define '' @ cppvar) \<or> startswith line (''#endif // '' @ cppvar)"

definition line_length_errors :: "env \<Rightarrow> string \<Rightarrow> string \<Rightarrow> string \<Rightarrow> nat \<Rightarrow> act list" where
  "line_length_errors e fn ext line linenum =
     (let guard = (if IsHeaderFileExtension ext
                   then map_sum id (\<lambda>cppvar. guard_line_of cppvar line) (GetHeaderGuardCPPVariable e fn)
                   else Inr False);
          width = GetLineWidth line; err = Err fn (int linenum) ''whitespace/line_length''
      in case guard of
           Inl x \<Rightarrow> [Raise x]
         | Inr is_header_guard \<Rightarrow>
             if \<not> startswith line ''#include'' \<and> \<not> is_header_guard \<and>
                \<not> matches ''^`s*//.*(ftp|http(s?)|ms-help)://`S*$'' line \<and>
                \<not> matches ''^// `$Id:.*#[0-9]+ `$$'' line \<and>
                \<not> startswith line ''#if'' \<and> \<not> startswith line ''#elif''
             then (if 120 < width then [err 4 ''Lines should very rarely be longer than 120 characters'']
                   else emit_if (100 < width) [err 2 ''Lines should be <= 100 characters long''])
             else [])"

definition many_commands_errors :: "string \<Rightarrow> cleansed_lines \<Rightarrow> nat \<Rightarrow> act list" where
  "many_commands_errors fn clean linenum =
     (let line = elided clean ! linenum; prevline = fst (GetPreviousNonBlankLine clean linenum)
      in emit_if (1 < count_list line (CHR '';'') \<and> \<not> contains line ''for'' \<and>
                  (\<not> contains prevline ''for'' \<or> contains prevline '';'') \<and>
                  \<not> ((contains line ''case '' \<or> contains line ''default:'') \<and> contains line ''break;''))
           [Err fn (int linenum) ''whitespace/newline'' 4 ''More than one command on the same line''])"

definition CheckStyle :: "env \<Rightarrow> string \<Rightarrow> cleansed_lines \<Rightarrow> nat \<Rightarrow> string \<Rightarrow> nesting \<Rightarrow> act list" where
  "CheckStyle e fn clean linenum ext nest =
     whitespace_errors fn clean linenum @
     line_length_errors e fn ext (raw_lines clean ! linenum) linenum @
     many_commands_errors fn clean linenum @
     CheckBraces fn clean linenum @
     CheckEmptyLoopBody fn clean linenum @
     CheckAccess fn clean linenum nest @
     CheckSpacing fn clean linenum nest @
     CheckCheck fn clean linenum @
     CheckAltTokens fn clean linenum @
     (case InnermostClass (blocks nest) of None \<Rightarrow> []
      | Some c \<Rightarrow> CheckSectionSpacing fn clean c linenum)"

end
