(* ===== verification/StyleFacts.thy ===== *)
theory StyleFacts
  imports Style
begin

text \<open>
  What \<open>CheckStyle\<close> and its parts guarantee: their actions are well formed (no missing key of
  the tables of CHECK macros and alternative tokens), the replacements of the CHECK macros
  mean the same as the macros they replace, and when the loop of \<open>CheckBraces\<close> ends.
\<close>

subsection \<open>Actions\<close>

lemma CloseExpression_Inl: "CloseExpression clean n p = Inl x \<Longrightarrow> expected_exn x"
  by (auto simp: CloseExpression_def Let_def split: if_splits option.splits)

lemma wf_CheckAccess [act_simps]: "wf_acts (CheckAccess fn clean n nest)"
  by (simp add: CheckAccess_def split: option.split list.split block_kind.split)

lemma wf_CheckBraces [act_simps]: "wf_acts (CheckBraces fn clean n)"
proof -
  have "wf_acts (else_brace_errors fn clean n line)" for line
    using CloseExpression_Inl by (auto simp: else_brace_errors_def Let_def split: sum.split)
  then show ?thesis
    by (simp add: CheckBraces_def brace_position_errors_def one_line_errors_def
        block_semicolon_errors_def Let_def split: option.split)
qed

lemma wf_CheckEmptyLoopBody [act_simps]: "wf_acts (CheckEmptyLoopBody fn clean n)"
  using CloseExpression_Inl by (auto simp: CheckEmptyLoopBody_def Let_def split: sum.split)

lemma replacements_complete:
  "list_all (\<lambda>macro. list_all (\<lambda>op. CHECK_REPLACEMENT macro op \<noteq> None) check_operators) CHECK_MACROS"
  by code_simp

lemma CHECK_REPLACEMENT_defined:
  "macro \<in> set CHECK_MACROS \<Longrightarrow> op \<in> set check_operators \<Longrightarrow> CHECK_REPLACEMENT macro op \<noteq> None"
  using replacements_complete by (simp add: list_all_iff)

lemma filter_Cons_mem: "filter P xs = y # ys \<Longrightarrow> y \<in> set xs \<and> P y"
  by (drule arg_cong [where f = set]) auto

lemma wf_CheckCheck [act_simps]: "wf_acts (CheckCheck fn clean n)"
  by (auto simp: CheckCheck_def split: list.split option.split
      dest!: filter_Cons_mem CHECK_REPLACEMENT_defined)

lemma alt_tokens_group:
  "always 1 (rx ALT_TOKEN_REPLACEMENT_PATTERN)"
  "group_words 1 (rx ALT_TOKEN_REPLACEMENT_PATTERN) = Some (map fst ALT_TOKEN_REPLACEMENT)"
  by code_simp+

lemma alt_token_known:
  assumes "m \<in> set (rx_finditer (rx ALT_TOKEN_REPLACEMENT_PATTERN) line)"
  shows "map_of ALT_TOKEN_REPLACEMENT (grp m 1) \<noteq> None"
proof -
  have "grp m 1 \<in> set (map fst ALT_TOKEN_REPLACEMENT)"
    using match_of_grp [OF finditer_of [OF assms] _ alt_tokens_group] by simp
  then show ?thesis by (metis map_of_eq_None_iff list.set_map)
qed

lemma wf_CheckAltTokens [act_simps]: "wf_acts (CheckAltTokens fn clean n)"
  using alt_token_known
  by (auto simp: CheckAltTokens_def Let_def list_all_iff split: option.split)

lemma wf_whitespace_errors [act_simps]: "wf_acts (whitespace_errors fn clean n)"
  by (simp add: whitespace_errors_def Let_def)

lemma GetHeaderGuard_Inl: "GetHeaderGuardCPPVariable e fn = Inl x \<Longrightarrow> expected_exn x"
  using relpath_Inl
  by (auto simp: GetHeaderGuardCPPVariable_def ProjectScopeName_def map_sum_def split: sum.splits)

lemma wf_line_length_errors [act_simps]: "wf_acts (line_length_errors e fn ext line n)"
  using GetHeaderGuard_Inl [of e fn]
  by (auto simp: line_length_errors_def Let_def map_sum_def split: sum.split)

lemma wf_many_commands_errors [act_simps]: "wf_acts (many_commands_errors fn clean n)"
  by (simp add: many_commands_errors_def Let_def)

lemma wf_CheckStyle [act_simps]: "wf_acts (CheckStyle e fn clean n ext nest)"
  by (simp add: CheckStyle_def act_simps split: option.split)

subsection \<open>The loop of CheckBraces\<close>

text \<open>The lines above one that are not blank, the nearest first.\<close>

definition nonblank_above :: "string list \<Rightarrow> nat \<Rightarrow> string list" where
  "nonblank_above el n = rev (filter (\<lambda>l. \<not> IsBlankLine l) (map ((!) el) [0..<n]))"

definition needs_above :: "string \<Rightarrow> bool" where "needs_above line = matches ''`s+{.*}`s*;'' line"

text \<open>The lines joined on until one has a semicolon or the text no longer fits; \<open>None\<close> when they run out.\<close>

fun join_above :: "string list \<Rightarrow> string \<Rightarrow> string option" where
  "join_above [] line = (if needs_above line then None else Some line)"
| "join_above (p # ps) line =
     (if needs_above line \<and> \<not> contains p '';'' then join_above ps (p @ line) else Some line)"

lemma contains_Nil_semicolon [simp]: "\<not> contains [] '';''"
  by (simp add: contains_def)

lemma previous_nonblank_cases:
  "(previous_nonblank el n = ([], -1) \<and> nonblank_above el n = []) \<or>
   (\<exists>k < n. previous_nonblank el n = (el ! k, int k) \<and> nonblank_above el n = el ! k # nonblank_above el k)"
  by (induction n) (auto simp: nonblank_above_def less_Suc_eq)

lemma join_block_exhausted:
  assumes "join_block el n line = Some y"
  shows "\<not> (nonblank_above el n = [] \<and> needs_above line)"
proof (rule join_block.raw_induct
    [where P = "\<lambda>el n line y. \<not> (nonblank_above el n = [] \<and> needs_above line)", OF _ assms])
  fix rec :: "string list \<Rightarrow> nat \<Rightarrow> string \<Rightarrow> string option" and el n line y
  assume IH: "\<And>el n line y. rec el n line = Some y \<Longrightarrow> \<not> (nonblank_above el n = [] \<and> needs_above line)"
    and r: "(case previous_nonblank el n of (prevline, prevlinenum) \<Rightarrow>
        if matches ''`s+{.*}`s*;'' line \<and> \<not> contains prevline '';''
        then rec el (nat prevlinenum) (prevline @ line) else Some line) = Some y"
  show "\<not> (nonblank_above el n = [] \<and> needs_above line)"
  proof
    assume none: "nonblank_above el n = [] \<and> needs_above line"
    then have "previous_nonblank el n = ([], -1)" using previous_nonblank_cases [of el n] by auto
    with r none have "rec el 0 line = Some y" by (simp add: needs_above_def)
    from IH [OF this] none show False by (simp add: nonblank_above_def)
  qed
qed

lemma join_block_above: "join_block el n line = join_above (nonblank_above el n) line"
proof (induction n arbitrary: line rule: less_induct)
  case (less n)
  from previous_nonblank_cases [of el n] show ?case
  proof (elim disjE exE conjE)
    assume none: "previous_nonblank el n = ([], -1)" "nonblank_above el n = []"
    show ?thesis
    proof (cases "needs_above line")
      case True
      then have "join_block el n line = None" using join_block_exhausted [of el n line] none(2)
        by (cases "join_block el n line") auto
      with none True show ?thesis by simp
    next
      case False
      with none show ?thesis by (simp add: join_block.simps [of el n] needs_above_def)
    qed
  next
    fix k assume k: "k < n" "previous_nonblank el n = (el ! k, int k)"
      "nonblank_above el n = el ! k # nonblank_above el k"
    from less.IH [OF k(1), of "el ! k @ line"] k(2,3) show ?thesis
      by (simp add: join_block.simps [of el n] needs_above_def)
  qed
qed

definition stray_semicolon :: "string \<Rightarrow> bool" where
  "stray_semicolon line \<longleftrightarrow> found ''{.*}`s*;'' line \<and>
     count_list line (CHR ''{'') = count_list line (CHR ''}'') \<and> \<not> found ''struct|class|enum|`s*=`s*{'' line"

text \<open>C19: the test for a semicolon behind a brace block joins the lines above that are not blank, nearest first, until one has a semicolon or the text no longer starts with a block; when they run out before that, \<open>CheckBraces\<close> never returns, and otherwise it reports exactly the joined texts that are a balanced block with a stray semicolon.\<close>

theorem block_semicolon_outcome:
  \<open>block_semicolon_errors fn clean n line =
     (case join_above (nonblank_above (elided clean) n) line of
        None \<Rightarrow> [Raise Diverges]
      | Some text \<Rightarrow> emit_if (stray_semicolon text)
          [Err fn (int n) ''readability/braces'' 4 (''You don'' @ squote @ ''t need a ; after a }'')])\<close>
  by (simp add: block_semicolon_errors_def join_block_above stray_semicolon_def split: option.split)


subsection \<open>The meaning of the replaced CHECK macros\<close>

definition operator_holds :: "string \<Rightarrow> int \<Rightarrow> int \<Rightarrow> bool" where
  "operator_holds op x y \<longleftrightarrow> (op = ''=='' \<and> x = y) \<or> (op = ''!='' \<and> x \<noteq> y) \<or> (op = ''>='' \<and> x \<ge> y) \<or>
     (op = ''>'' \<and> x > y) \<or> (op = ''<='' \<and> x \<le> y) \<or> (op = ''<'' \<and> x < y)"

definition name_holds :: "string \<Rightarrow> int \<Rightarrow> int \<Rightarrow> bool" where
  "name_holds nm x y \<longleftrightarrow> (nm = ''EQ'' \<and> x = y) \<or> (nm = ''NE'' \<and> x \<noteq> y) \<or> (nm = ''GE'' \<and> x \<ge> y) \<or>
     (nm = ''GT'' \<and> x > y) \<or> (nm = ''LE'' \<and> x \<le> y) \<or> (nm = ''LT'' \<and> x < y)"

definition macro_expects :: "string \<Rightarrow> bool" where
  "macro_expects macro = (\<not> contains macro ''FALSE'')"

definition same_test :: "string \<Rightarrow> string \<Rightarrow> string \<Rightarrow> bool" where
  "same_test macro op r \<longleftrightarrow> (\<exists>pre nm suf. r = pre @ nm @ suf \<and> 
     (\<forall>x y. name_holds nm x y \<longleftrightarrow> operator_holds op x y = macro_expects macro))"

lemma ops_meaning:
  "list_all (\<lambda>(op, nm). \<forall>x y. name_holds nm x y = operator_holds op x y) op_names"
  "list_all (\<lambda>(op, nm). \<forall>x y. name_holds nm x y = (\<not> operator_holds op x y)) inv_op_names"
  by (simp_all add: op_names_def inv_op_names_def name_holds_def operator_holds_def not_le not_less)

lemma map_of_list_all: "list_all (\<lambda>(k, v). P k v) xs \<Longrightarrow> map_of xs k = Some v \<Longrightarrow> P k v"
  by (drule map_of_SomeD) (auto simp: list_all_iff)

lemma replacements_expect:
  "list_all (\<lambda>(m, p, s, os). os = (if macro_expects m then op_names else inv_op_names))
     [(''DCHECK'', ''DCHECK_'', [], op_names), (''CHECK'', ''CHECK_'', [], op_names),
      (''EXPECT_TRUE'', ''EXPECT_'', [], op_names), (''ASSERT_TRUE'', ''ASSERT_'', [], op_names),
      (''EXPECT_TRUE_M'', ''EXPECT_'', ''_M'', op_names), (''ASSERT_TRUE_M'', ''ASSERT_'', ''_M'', op_names),
      (''EXPECT_FALSE'', ''EXPECT_'', [], inv_op_names), (''ASSERT_FALSE'', ''ASSERT_'', [], inv_op_names),
      (''EXPECT_FALSE_M'', ''EXPECT_'', ''_M'', inv_op_names),
      (''ASSERT_FALSE_M'', ''ASSERT_'', ''_M'', inv_op_names)]"
  by code_simp

lemma replacement_expects:
  assumes "replacement_of macro = Some (pre, suf, ops)"
  shows "ops = (if macro_expects macro then op_names else inv_op_names)"
  using map_of_list_all [OF replacements_expect assms [unfolded replacement_of_def]]
  unfolding prod.case .

lemma CHECK_REPLACEMENT_same: "CHECK_REPLACEMENT macro op = Some r \<Longrightarrow> same_test macro op r"
proof -
  assume "CHECK_REPLACEMENT macro op = Some r"
  then obtain pre suf ops nm where r: "replacement_of macro = Some (pre, suf, ops)"
    "map_of ops op = Some nm" "r = pre @ nm @ suf"
    by (auto simp: CHECK_REPLACEMENT_def split: option.splits prod.splits)
  have "\<forall>x y. name_holds nm x y \<longleftrightarrow> operator_holds op x y = macro_expects macro"
    using map_of_list_all [OF ops_meaning(1), of op nm] map_of_list_all [OF ops_meaning(2), of op nm]
      r(2) unfolding replacement_expects [OF r(1)]
    by (cases "macro_expects macro") simp_all
  with r(3) show ?thesis unfolding same_test_def by blast
qed

text \<open>C14: \<open>CheckCheck\<close> reports at most one error, and the macro it proposes tests the same thing: the comparison in its name holds of two numbers exactly when the comparison in the source does, negated for the macros that expect \<open>false\<close>.\<close>

theorem CheckCheck_same_meaning:
  "CheckCheck fn clean n = [] \<or>
   (\<exists>macro op r. CheckCheck fn clean n = [Err fn (int n) ''readability/check'' 2
        (''Consider using '' @ r @ '' instead of '' @ macro @ ''(a '' @ op @ '' b)'')] \<and>
      contains (raw_lines clean ! n) macro \<and> ReplaceableCheck op macro (elided clean ! n) \<and>
      same_test macro op r)"
proof (cases "filter (\<lambda>macro. contains (raw_lines clean ! n) macro) CHECK_MACROS")
  case (Cons macro ms)
  note macro = this
  show ?thesis
  proof (cases "filter (\<lambda>op. ReplaceableCheck op macro (elided clean ! n)) check_operators")
    case (Cons op ops)
    from macro Cons have m: "macro \<in> set CHECK_MACROS" "contains (raw_lines clean ! n) macro"
      "op \<in> set check_operators" "ReplaceableCheck op macro (elided clean ! n)"
      by (auto dest!: filter_Cons_mem)
    then obtain r where r: "CHECK_REPLACEMENT macro op = Some r"
      using CHECK_REPLACEMENT_defined by blast
    have "CheckCheck fn clean n = [Err fn (int n) ''readability/check'' 2
        (''Consider using '' @ r @ '' instead of '' @ macro @ ''(a '' @ op @ '' b)'')]"
      unfolding CheckCheck_def macro Cons list.case r option.case ..
    with m CHECK_REPLACEMENT_same [OF r] show ?thesis by blast
  qed (simp add: CheckCheck_def macro)
qed (simp add: CheckCheck_def)

subsection \<open>Line width\<close>

lemma code_less_256: "code c < 256"
  unfolding code_def by (metis of_char_of of_nat_of_char of_nat_less_iff nat_of_char_less_256 of_nat_numeral)

lemma GetLineWidth_length: "GetLineWidth line = length line"
proof -
  have "\<not> wide c \<and> \<not> combining c" for c using code_less_256 [of c] by (simp add: wide_def combining_def)
  then show ?thesis by (simp add: GetLineWidth_def sum_list_triv)
qed

end
