(* ===== verification/Language.thy ===== *)
theory Language
  imports StyleFacts
begin

text \<open>
  \<open>CheckForNonStandardConstructs\<close> and \<open>CheckLanguage\<close> with the functions they call. Each
  group of tests of \<open>CheckLanguage\<close> is a definition of its own, in the order of the source.
\<close>

subsection \<open>Constructs that are not standard\<close>

definition format_string_errors :: "string \<Rightarrow> string \<Rightarrow> nat \<Rightarrow> act list" where
  \<open>format_string_errors fn line linenum =
     (let n = int linenum; unescaped = replace line (bs ''``'') []
      in emit_if (found ''printf`s*`(.*".*%[-+ ]?`d*q'' line)
           [Err fn n ''runtime/printf_format'' 3 ''%q in format strings is deprecated.  Use %ll instead.''] @
         emit_if (found ''printf`s*`(.*".*%`d+`$'' line)
           [Err fn n ''runtime/printf_format'' 2
              ''%N$ formats are unconventional.  Try rewriting to avoid them.''] @
         emit_if (found (''("|`'' @ squote @ '').*``(%|`[|`(|{)'') unescaped)
           [Err fn n ''build/printf_format'' 3
              ''%, [, (, and { are undefined character escapes.  Unescape them.''])\<close>

definition declaration_errors :: "string \<Rightarrow> string \<Rightarrow> nat \<Rightarrow> act list" where
  "declaration_errors fn line linenum =
     (let n = int linenum
      in emit_if (found (''`b(const|volatile|void|char|short|int|long'' @
                         ''|float|double|signed|unsigned'' @
                         ''|schar|u?int8|u?int16|u?int32|u?int64)'' @
                         ''`s+(auto|register|static|extern|typedef)`b'') line)
           [Err fn n ''build/storage_class'' 5
              ''Storage class (static, extern, typedef, etc) should be first.''] @
         emit_if (matches ''`s*#`s*endif`s*[^/`s]+'' line)
           [Err fn n ''build/endif_comment'' 5
              ''Uncommented text after #endif is non-standard.  Use a comment.''] @
         emit_if (matches ''`s*class`s+(`w+`s*::`s*)+`w+`s*;'' line)
           [Err fn n ''build/forward_decl'' 5
              ''Inner-style forward declarations are invalid.  Remove this line.''] @
         emit_if (found ''(`w+|[+-]?`d+(`.`d*)?)`s*(<|>)`?=?`s*(`w+|[+-]?`d+)(`.`d*)?'' line)
           [Err fn n ''build/deprecated'' 3
              ''>? and <? (max and min) operators are non-standard and deprecated.''] @
         emit_if (found ''^`s*const`s*string`s*&`s*`w+`s*;'' line)
           [Err fn n ''runtime/member_string_references'' 2
              (''const string& members are dangerous. It is much better to use '' @
               ''alternatives, such as pointers or simple constants.'')])"

text \<open>The patterns built from the name of a class, escaped.\<close>

definition constructor_pattern :: "string \<Rightarrow> string" where
  "constructor_pattern base = bs ''`s+(?:inline`s+)?'' @ re_escape base @ bs ''`s*`(([^,()]+)`)''"

definition reference_pattern :: "string \<Rightarrow> string" where
  "reference_pattern base = bs ''(const`s+)?'' @ re_escape base @ bs ''`s*(?:<`w+>`s*)?&''"

definition explicit_errors :: "string \<Rightarrow> string \<Rightarrow> nat \<Rightarrow> string \<Rightarrow> act list" where
  "explicit_errors fn line linenum name =
     (let base = last (split_str ''::'' [] name)
      in case re_compile (constructor_pattern base) of
           None \<Rightarrow> [Raise ReError]
         | Some r \<Rightarrow>
             (case rx_match r line of
                None \<Rightarrow> []
              | Some args \<Rightarrow>
                  if grp args 1 = ''void'' then []
                  else (case re_compile (reference_pattern base) of
                          None \<Rightarrow> [Raise ReError]
                        | Some q \<Rightarrow> emit_if (rx_match q (strip (grp args 1)) = None)
                            [Err fn (int linenum) ''runtime/explicit'' 5
                               ''Single-argument constructors should be marked explicit.''])))"

text \<open>The innermost class with its block, which tells whether its head is complete.\<close>

fun innermost_class_block :: "block list \<Rightarrow> (block \<times> class_info) option" where
  "innermost_class_block [] = None"
| "innermost_class_block (b # st) = (case kind b of ClassBlock c \<Rightarrow> Some (b, c) | _ \<Rightarrow> innermost_class_block st)"

lemma innermost_class_block: "map_option snd (innermost_class_block st) = InnermostClass st"
  by (induction st) (auto split: block_kind.split)

definition CheckForNonStandardConstructs :: "string \<Rightarrow> cleansed_lines \<Rightarrow> nat \<Rightarrow> nesting \<Rightarrow> act list" where
  "CheckForNonStandardConstructs fn clean linenum nest =
     (let line = elided clean ! linenum
      in format_string_errors fn (code_lines clean ! linenum) linenum @
         declaration_errors fn line linenum @
         (case innermost_class_block (blocks nest) of
            None \<Rightarrow> []
          | Some (b, c) \<Rightarrow> if \<not> seen_open_brace b then []
                           else explicit_errors fn line linenum (class_name c)))"

subsection \<open>Text inside parentheses\<close>

definition matching_punctuation :: "char \<Rightarrow> char option" where
  "matching_punctuation c =
     (if c = CHR ''('' then Some CHR '')'' else if c = CHR ''{'' then Some CHR ''}''
      else if c = CHR ''['' then Some CHR '']'' else None)"

definition closing_punctuation :: "char \<Rightarrow> bool" where
  "closing_punctuation c \<longleftrightarrow> List.member '')}]'' c"

text \<open>The loop: the closing characters expected, the text passed (reversed) and the text left.\<close>

fun text_inside :: "string \<Rightarrow> string \<Rightarrow> string \<Rightarrow> string option" where
  "text_inside [] acc s = Some (rev (tl acc))"
| "text_inside (p # ps) acc [] = None"
| "text_inside (p # ps) acc (c # s) =
     (if c = p then text_inside ps (c # acc) s
      else if closing_punctuation c then None
      else case matching_punctuation c of
             Some q \<Rightarrow> text_inside (q # p # ps) (c # acc) s
           | None \<Rightarrow> text_inside (p # ps) (c # acc) s)"

definition GetTextInside :: "string \<Rightarrow> rx \<Rightarrow> exn + string option" where
  "GetTextInside text r =
     (case rx_search r text of
        None \<Rightarrow> Inr None
      | Some m \<Rightarrow>
          if m_end m = 0 then Inl AssertionError
          else (case matching_punctuation (text ! (m_end m - 1)) of
                  None \<Rightarrow> Inl AssertionError
                | Some p \<Rightarrow> Inr (text_inside [p] [] (drop (m_end m) text))))"

subsection \<open>Casts\<close>

text \<open>\<open>m.start(k)\<close>: -1 for a group that took no part; and \<open>s[:p]\<close>.\<close>

definition group_start :: "rmatch \<Rightarrow> nat \<Rightarrow> int" where
  "group_start m k = (case Regex.span m k of None \<Rightarrow> -1 | Some (i, j) \<Rightarrow> int i)"

definition slice_to :: "string \<Rightarrow> int \<Rightarrow> string" where
  "slice_to s p = take (nat (if p < 0 then max 0 (int (length s) + p) else p)) s"

definition CheckSizeOf :: "string \<Rightarrow> nat \<Rightarrow> string \<Rightarrow> string \<Rightarrow> act list" where
  "CheckSizeOf fn linenum line pattern =
     (case Search pattern line of None \<Rightarrow> []
      | Some m \<Rightarrow> emit_if (matches ''sizeof`s*'' (drop (m_start m) line))
          [Err fn (int linenum) ''runtime/sizeof'' 1
             ''Using sizeof type.  Use sizeof(varname) instead if possible''])"

text \<open>The errors, with whether the function returns true.\<close>

definition CheckCStyleCast ::
    "string \<Rightarrow> nat \<Rightarrow> string \<Rightarrow> string \<Rightarrow> string \<Rightarrow> string \<Rightarrow> act list \<times> bool" where
  "CheckCStyleCast fn linenum line raw_line cast_type pattern =
     (case Search pattern line of None \<Rightarrow> ([], False)
      | Some m \<Rightarrow>
          let head_part = slice_to line (group_start m 1 - 1); n = int linenum
          in if matches ''.*sizeof`s*$'' head_part
             then ([Err fn n ''runtime/sizeof'' 1
                      ''Using sizeof(type).  Use sizeof(varname) instead if possible''], True)
             else if endswith head_part '' operator++'' \<or> endswith head_part '' operator--'' then ([], False)
             else (case Match ''`s*(`)|=|(const)?`s*(;|`{|throw`(`)|>))'' (drop (m_end m) line) of
                     Some f \<Rightarrow>
                       (emit_if (group f 3 = None \<or> group f 3 = Some [] \<or> group f 3 = Some '';'' \<or>
                                 (\<not> contains raw_line ''MockCallback<'' \<and> \<not> contains raw_line ''typeid('' \<and>
                                  \<not> contains raw_line ''/*''))
                          [Err fn n ''readability/function'' 3
                             ''All parameters should be named in a function''], True)
                   | None \<Rightarrow>
                       if found ''<(.+,)?[ `w]+ `([^)]*(`)|,$)(,.+)?>'' line \<or> found ''`(`w+`)`s*({|$)'' line
                       then ([], False)
                       else ([Err fn n ''readability/casting'' 4
                                (''Using C-style cast.  Use '' @ cast_type @ ''<'' @ grp m 1 @ ''>(...) instead'')],
                             True)))"

subsection \<open>CheckLanguage\<close>

definition reference_errors :: "string \<Rightarrow> string \<Rightarrow> nat \<Rightarrow> act list" where
  "reference_errors fn line linenum =
     (let fnline = takeWhile (\<lambda>c. c \<noteq> CHR ''{'') line;
          count = (\<lambda>p. length (rx_finditer (rx p) fnline))
      in emit_if (count (''`([^()]*`bconst`s+(?:typename`s+)?(?:struct`s+)?'' @
                         ''(?:[`w:]|<[^()]*>)+(`s?&|&`s?)`w+'') +
                  count ''`([^()]*`b(?:[`w:]|<[^()]*>)+`s+const(`s?&|&`s?)[`w]+''
                  < count ''`([^()]*`b(?:[`w:]|<[^()]*>)+(`s?&|&`s?)`w+'' \<and>
                  \<not> found (''(for|swap|Swap|operator[<>][<>])`s*`(`s*'' @
                           ''(?:(?:typename`s*)?[`w:]|<.*>)+`s*&'') fnline)
           [Err fn (int linenum) ''runtime/references'' 2
              (''Is this a non-const reference? '' @ ''If so, make const or use a pointer.'')])"

definition conversion_errors :: "string \<Rightarrow> cleansed_lines \<Rightarrow> string \<Rightarrow> nat \<Rightarrow> act list" where
  "conversion_errors fn clean line linenum =
     (case Search (''(`bnew`s+)?`b'' @
                   ''(int|float|double|bool|char|int32|uint32|int64|uint64)`([^)]'') line of
        None \<Rightarrow> []
      | Some m \<Rightarrow>
          emit_if (group m 1 = None \<and>
                   \<not> (matches ''^`s*MOCK_(CONST_)?METHOD`d+(_T)?`('' line \<or>
                      matches ''^`s*MockCallback<.*>'' line) \<and>
                   (linenum = 0 \<or>
                    \<not> matches ''^`s*MOCK_(CONST_)?METHOD`d+(_T)?`(`S+,`s*$'' (elided clean ! (linenum - 1))))
            [Err fn (int linenum) ''readability/casting'' 4
               (''Using deprecated casting style.  '' @
                ''Use static_cast<'' @ grp m 2 @ ''>(...) instead'')])"

definition cast_errors :: "string \<Rightarrow> string \<Rightarrow> string \<Rightarrow> nat \<Rightarrow> act list" where
  \<open>cast_errors fn line raw linenum =
     (let cast = CheckCStyleCast fn linenum line raw;
          (const_acts, const_cast) = cast ''const_cast'' ''`((char`s?`*+`s?)`)`s*"''
      in fst (cast ''static_cast'' ''`((int|float|double|bool|char|u?int(16|32|64)_t)`)'') @
         const_acts @
         emit_if (\<not> const_cast) (fst (cast ''reinterpret_cast'' ''`((`w+`s?`*+`s?)`)'')) @
         CheckSizeOf fn linenum line ''sizeof`s*(int|float|double|bool|char|u?int(16|32|64)_t)'')\<close>

definition address_errors :: "string \<Rightarrow> string \<Rightarrow> nat \<Rightarrow> act list" where
  "address_errors fn line linenum =
     emit_if (found ''(&`([^)]+`)[`w(])|(&(static|dynamic|reinterpret)_cast`b)'' line)
       [Err fn (int linenum) ''runtime/casting'' 0
          (''Are you taking an address of a cast?  '' @
           ''This is dangerous: could be a temp var.  '' @
           ''Take the address before doing the cast, rather than after'')]"

definition global_string_errors :: "string \<Rightarrow> string \<Rightarrow> nat \<Rightarrow> act list" where
  \<open>global_string_errors fn line linenum =
     (case Match ''((?:|static +)(?:|const +))string +([a-zA-Z0-9_:]+)`b(.*)'' line of
        None \<Rightarrow> []
      | Some m \<Rightarrow>
          emit_if (\<not> matches ''`s*(<.*>)?(::[a-zA-Z0-9_]+)?`s*`(([^"]|$)'' (grp m 3))
            [Err fn (int linenum) ''runtime/string'' 4
               (''For a static/global string constant, use a C style string instead: '' @
                ''"'' @ grp m 1 @ ''char '' @ grp m 2 @ ''[]".'')])\<close>

definition rtti_errors :: "string \<Rightarrow> string \<Rightarrow> nat \<Rightarrow> act list" where
  \<open>rtti_errors fn line linenum =
     emit_if (found ''`bdynamic_cast<'' line \<and> \<not> IsTestFilename fn)
       [Err fn (int linenum) ''runtime/rtti'' 3
          (''Be careful to dynamic_cast<>. If you need to cast within a class '' @
           ''hierarchy, use static_cast<> to upcast. We suggest don'' @ squote @ ''t use '' @ squote @ ''RTTI.'' @ squote @
           ''if virtual function is enough.'')] @
     emit_if (found ''`b([A-Za-z0-9_]*_)`(`1`)'' line)
       [Err fn (int linenum) ''runtime/init'' 4
          ''You seem to be initializing a member variable with itself.'']\<close>

definition int_errors :: "string \<Rightarrow> string \<Rightarrow> nat \<Rightarrow> act list" where
  \<open>int_errors fn line linenum =
     (if found ''`bshort port`b'' line
      then emit_if (\<not> found ''`bunsigned short port`b'' line)
             [Err fn (int linenum) ''runtime/int'' 4 ''Use "unsigned short" for ports, not "short"'']
      else case Search ''`b(short|long(?! +double)|long long)`b'' line of
             None \<Rightarrow> []
           | Some m \<Rightarrow> [Err fn (int linenum) ''runtime/int'' 4
               (''Use int16_t/int64_t/etc, rather than the C type '' @ grp m 1)])\<close>

definition printf_errors :: "string \<Rightarrow> string \<Rightarrow> nat \<Rightarrow> act list" where
  "printf_errors fn line linenum =
     (let err = Err fn (int linenum) ''runtime/printf''
      in (case Search ''snprintf`s*`(([^,]*),`s*([0-9]*)`s*,'' line of None \<Rightarrow> []
          | Some m \<Rightarrow> emit_if (grp m 2 \<noteq> ''0'')
              [err 3 (''If you can, use sizeof('' @ grp m 1 @ '') instead of '' @ grp m 2 @ '' as the 2nd arg '' @
                      ''to snprintf.'')]) @
         emit_if (found ''`bsprintf`b'' line) [err 5 ''Never use sprintf.  Use snprintf instead.''] @
         (case Search ''`b(strcpy|strcat)`b'' line of None \<Rightarrow> []
          | Some m \<Rightarrow> [err 4 (''Almost always, snprintf is better than '' @ grp m 1)]) @
         emit_if (found ''`bsscanf`b'' line)
           [err 1 ''sscanf can be ok, but is slow and can overflow buffers.''])"

definition operator_errors :: "string \<Rightarrow> string \<Rightarrow> nat \<Rightarrow> act list" where
  \<open>operator_errors fn line linenum =
     emit_if (found ''`boperator`s*&`s*`(`s*`)'' line)
       [Err fn (int linenum) ''runtime/operator'' 4 ''Unary operator& is dangerous.  Do not use it.''] @
     emit_if (found ''`}`s*if`s*`('' line)
       [Err fn (int linenum) ''readability/braces'' 4
          ''Did you mean "else if"? If not, start a new line for "if".'']\<close>

text \<open>Both patterns are searched without regard to case.\<close>

definition printf_start :: rx where "printf_start = icase (rx ''`b(string)?printf`s*`('')"
definition printf_name :: rx where "printf_name = icase (rx ''`b((?:string)?printf)`s*`('')"

definition format_errors :: "string \<Rightarrow> string \<Rightarrow> nat \<Rightarrow> act list" where
  \<open>format_errors fn line linenum =
     (case GetTextInside line printf_start of
        Inl x \<Rightarrow> [Raise x]
      | Inr None \<Rightarrow> []
      | Inr (Some args) \<Rightarrow>
          if args = [] then []
          else (case Match ''([`w.`->()]+)$'' args of
                  None \<Rightarrow> []
                | Some m \<Rightarrow>
                    if grp m 1 = ''__VA_ARGS__'' then []
                    else (case rx_search printf_name line of
                            None \<Rightarrow> [Raise AttributeError]
                          | Some f \<Rightarrow> [Err fn (int linenum) ''runtime/printf'' 4
                              (''Potential format string bug. Do '' @ grp f 1 @ ''("%s", '' @ grp m 1 @ '') instead.'')])))\<close>

definition memset_errors :: "string \<Rightarrow> string \<Rightarrow> nat \<Rightarrow> act list" where
  \<open>memset_errors fn line linenum =
     (case Search ''memset`s*`(([^,]*),`s*([^,]*),`s*0`s*`)'' line of None \<Rightarrow> []
      | Some m \<Rightarrow>
          emit_if (\<not> matches (''^'' @ squote @ squote @ ''|-?[0-9]+|0x[0-9A-Fa-f]$'') (grp m 2))
            [Err fn (int linenum) ''runtime/memset'' 4
               (''Did you mean "memset('' @ grp m 1 @ '', 0, '' @ grp m 2 @ '')"?'')])\<close>

definition using_errors :: "string \<Rightarrow> string \<Rightarrow> string \<Rightarrow> nat \<Rightarrow> act list" where
  "using_errors fn ext line linenum =
     emit_if (found ''^`s*using namespace`b'' line \<and> IsHeaderFileExtension ext)
       [Err fn (int linenum) ''build/namespaces'' 5
          (''Do not use namespace using-directives.  '' @ ''Use using-declarations instead.'')]"

text \<open>Whether no token of an array size is a variable; \<open>skip\<close>: the next token is not looked at.\<close>

fun const_tokens :: "bool \<Rightarrow> string list \<Rightarrow> bool" where
  "const_tokens skip [] = True"
| "const_tokens True (tok # toks) = const_tokens False toks"
| "const_tokens False (tok # toks) =
     (if found ''sizeof`(.+`)'' tok \<or> found ''arraysize`(`w+`)'' tok then const_tokens False toks
      else let tok = rstrip_by (\<lambda>c. c = CHR '')'') (lstrip_by (\<lambda>c. c = CHR ''('') tok)
           in if tok = [] \<or> matches ''`d+'' tok \<or> matches ''0[xX][0-9a-fA-F]+'' tok \<or>
                 matches ''k[A-Z0-9]`w*'' tok \<or> matches ''(.+::)?k[A-Z0-9]`w*'' tok \<or>
                 matches ''(.+::)?[A-Z][A-Z0-9_]*'' tok then const_tokens False toks
              else if startswith tok ''sizeof'' then const_tokens True toks
              else False)"

definition array_errors :: "string \<Rightarrow> string \<Rightarrow> nat \<Rightarrow> act list" where
  \<open>array_errors fn line linenum =
     (case Match ''`s*(.+::)?(`w+) [a-z]`w*`[(.+)];'' line of None \<Rightarrow> []
      | Some m \<Rightarrow>
          emit_if (grp m 2 \<noteq> ''return'' \<and> grp m 2 \<noteq> ''delete'' \<and> \<not> contains (grp m 3) '']'' \<and>
                   \<not> const_tokens False (rx_split (rx ''`s|`+|`-|`*|`/|<<|>>]'') (grp m 3)))
            [Err fn (int linenum) ''runtime/arrays'' 1
               (''Do not use variable-length arrays.  Use an appropriately named '' @
                ''('' @ squote @ ''k'' @ squote @ '' followed by CamelCase) compile-time constant for the size.'')])\<close>

definition disallow_errors :: "string \<Rightarrow> cleansed_lines \<Rightarrow> string \<Rightarrow> nat \<Rightarrow> act list" where
  "disallow_errors fn clean line linenum =
     (case Match (''`s*'' @ ''(DISALLOW_(EVIL_CONSTRUCTORS|COPY_AND_ASSIGN|IMPLICIT_CONSTRUCTORS))'' @
                  ''`(.*`);$'') line of
        None \<Rightarrow> []
      | Some m \<Rightarrow>
          emit_if (linenum + 1 < NumLines clean \<and> \<not> found ''^`s*}[`w`*,`s]*;'' (elided clean ! (linenum + 1)))
            [Err fn (int linenum) ''readability/constructors'' 3
               (grp m 1 @ '' should be the last thing in the class'')])"

definition unnamed_namespace_errors :: "string \<Rightarrow> string \<Rightarrow> string \<Rightarrow> nat \<Rightarrow> act list" where
  "unnamed_namespace_errors fn ext line linenum =
     emit_if (IsHeaderFileExtension ext \<and> found ''`bnamespace`s*{'' line \<and> last line \<noteq> bslash)
       [Err fn (int linenum) ''build/namespaces'' 4
          (''Do not use unnamed namespaces in header files.  See '' @
           ''http://google-styleguide.googlecode.com/svn/trunk/cppguide.xml#Namespaces'' @
           '' for more information.'')]"

definition language_errors :: "string \<Rightarrow> cleansed_lines \<Rightarrow> nat \<Rightarrow> string \<Rightarrow> string \<Rightarrow> act list" where
  "language_errors fn clean linenum ext line =
     reference_errors fn line linenum @
     conversion_errors fn clean line linenum @
     cast_errors fn line (raw_lines clean ! linenum) linenum @
     address_errors fn line linenum @
     global_string_errors fn line linenum @
     rtti_errors fn line linenum @
     int_errors fn line linenum @
     printf_errors fn line linenum @
     operator_errors fn line linenum @
     format_errors fn line linenum @
     memset_errors fn line linenum @
     using_errors fn ext line linenum @
     array_errors fn line linenum @
     disallow_errors fn clean line linenum @
     unnamed_namespace_errors fn ext line linenum"

text \<open>An include or a condition goes to \<open>CheckIncludeLine\<close>, which has the only state.\<close>

definition CheckLanguage ::
    "env \<Rightarrow> string \<Rightarrow> cleansed_lines \<Rightarrow> nat \<Rightarrow> string \<Rightarrow> include_state \<Rightarrow> act list \<times> include_state" where
  "CheckLanguage e fn clean linenum ext st =
     (let line = elided clean ! linenum
      in if line = [] then ([], st)
         else if found RE_PATTERN_INCLUDE line \<or> found RE_PATTERN_CONDITION_DIRECTIVE line
         then CheckIncludeLine e fn clean linenum st
         else (language_errors fn clean linenum ext line, st))"

end
