(* ===== verification/Patterns.thy ===== *)
theory Patterns
  imports Language
begin

text \<open>
  The constant patterns of the program, in the order of their theories: each of them compiles, so
  that \<open>rx\<close> never stands for a pattern that Python would refuse.
\<close>

definition patterns_1 :: "string list" where
  \<open>patterns_1 = [
    RE_SUPPRESSION, ''//`s*GLOBAL_NOLINT'', RE_SUPPRESSION_GLOBAL, RE_PATTERN_INCLUDE,
    RE_PATTERN_CLEANSE_LINE_ESCAPES, RE_PATTERN_CLEANSE_LINE_SINGLE_QUOTES,
    RE_PATTERN_CLEANSE_LINE_DOUBLE_QUOTES, ''^((ext|tr1)/)?[a-z_]+$'', RE_FIRST_COMPONENT,
    ''(f|ind|io|i|o|parse|pf|stdio|str|)?stream$'', RE_PATTERN_ENDIF_DIRECTIVE,
    RE_PATTERN_ELIF_OR_ELSE_DIRECTIVE, RE_PATTERN_CONDITION_DIRECTIVE,
    RE_PATTERN_INCLUDE_NEW_STYLE, RE_PATTERN_STRING, ''_flymake`.cc$'', ''`bmake_pair`s*<'',
    ''Copyright'', RE_PATTERN_INVALID_INCREMENT, ''(^|[^:]):($|[^:])'',
    ''};*`s*(//|/`*).*`bnamespace`b'', ''};*`s*(//|/`*).*`bnamespace[`*/`.```s]*$'',
    ''^`s*#`s*(if|ifdef|ifndef)`b'', ''^`s*#`s*(else|elif)`b'', ''^`s*#`s*endif`b'', MATCH_ASM,
    RE_NAMESPACE, RE_BRACE, RE_CLASS, ''`s*(public|private|protected)`s*:'', ''T(EST|est)'',
    ''(;|})'', ''{'', RE_FUNCTION_START, ''[A-Z_]+$'', ''TEST'', ''(`(.*`))'', RE_FUNCTION_NAME,
    ''^`}`s*$'', ''^`s*$'', RE_PATTERN_TODO,
    ''`b(if|for|while|switch|return|new|delete|catch)`b'', '' `([^)]+`)`([^)]*(`)|,$)'',
    ''<(.+,)?[ `w]+ `([^)]*(`)|,$)(,.+)?>'', '' `([^)]+`)`[[^`]]+`]'', ''`w`s*`(`s(?!`s*``$)'',
    ''`(`s+(?!(`s*``)|`()'', ''`w`s+`('', ''#`s*define|typedef'', ''`w`s+`((`w+::)?`*`w+`)`('',
    ''[^)]`s+`)`s*[^{`s]'', ''^`s+`)'', RE_NEXT_BRACKET, RE_PREV_BRACKET, '' {6}`w'',
    '' {4}`w[^`(]*`)`s*(const`s*)?(`{`s*$|:)'', '' {4}:'', ''`s*namespace[^{]*{'', ''`s*{'',
    ''`s*}'']\<close>

definition patterns_2 :: "string list" where
  \<open>patterns_2 = [
    ''`s*(public|protected|private):'', ''[=/-]{4,}`s*$'', ''^/$'', ''^/< '', ''^/+ '', ''^/@'',
    ''^`s*{ //'', ''operator(==|!=|<|<<|<=|>=|>>|>)`('', ''`s=[`w.]'', ''[`w.]=`s'',
    ''[`w.]=[`w.]'', ''`b(if|while) '', ''<[^<]*,`s*$'', ''[^`s<]<([^`s=<].*)'',
    ''^(.*[^`s>])>[^`s=>]'', ''#.*include'', ''(`S)(?:L|UL|ULL|l|ul|ull)?<<(`S)'',
    ''>>[a-zA-Z_]'', ''(!`s|~`s|[`s]--[`s;]|[`s]`+`+[`s;])'', '' (if`(|for`(|while`(|switch`()'',
    ''`b(if|for|while|switch)`s*'' @ ''`(([ ]*)(.).*[^ ]+([ ]*)`)`s*{`s*$'', ''`bfor`s*`(.*; `)'',
    '',[^`s]'', '';[^`s};``)/]'', ''[^ ({]{'', ''}else'', ''`w`s+`['', ''delete`s+`['',
    '':`s*;`s*$'', ''^`s*;`s*$'', ''`s+;`s*$'', ''`bfor`b'', ''for *`(.*[^:]:[^: ]'',
    ''for *`(.*[^: ]:[^:]'', ''`{`s*$'', ''`b(class|struct)`b'', ''``$'',
    ''`s*(DISALLOW_COPY_AND_ASSIGN|'' @ ''DISALLOW_EVIL_CONSTRUCTORS|'' @ ''DISALLOW_IMPLICIT_CONSTRUCTORS)'',
    ''`s*{`s*$'', ''[;:}{]`s*$'', ''`s*else`s*'', ''`s*}`s*$'', ''}`s*else[^{]*$'',
    ''[^}]*else`s*{'', ''}`s*else if([^{]*)$'', ''`belse [^`s{]'', ''`belse if`b'',
    ''`s*do [^`s{]'', ''`s+{.*}`s*;'', ''{.*}`s*;'', ''struct|class|enum|`s*=`s*{'',
    ''`s*(for|while)`s*`('', '';'', ''NULL|&&|`|`|'', ''^`s*#'', ''^`s*[`w]+`s*:`s*$'',
    ''public|private|protected|default`s*:'', ''^`s*//.*(ftp|http(s?)|ms-help)://`S*$'',
    ''^// `$Id:.*#[0-9]+ `$$'', ''printf`s*`(.*".*%[-+ ]?`d*q'']\<close>

definition patterns_3 :: "string list" where
  \<open>patterns_3 = [
    ''printf`s*`(.*".*%`d+`$'', ''("|`'' @ squote @ '').*``(%|`[|`(|{)'',
    ''`b(const|volatile|void|char|short|int|long'' @ ''|float|double|signed|unsigned'' @ ''|schar|u?int8|u?int16|u?int32|u?int64)'' @ ''`s+(auto|register|static|extern|typedef)`b'',
    ''`s*#`s*endif`s*[^/`s]+'', ''`s*class`s+(`w+`s*::`s*)+`w+`s*;'',
    ''(`w+|[+-]?`d+(`.`d*)?)`s*(<|>)`?=?`s*(`w+|[+-]?`d+)(`.`d*)?'',
    ''^`s*const`s*string`s*&`s*`w+`s*;'', ''sizeof`s*'', ''.*sizeof`s*$'',
    ''`s*(`)|=|(const)?`s*(;|`{|throw`(`)|>))'', ''`(`w+`)`s*({|$)'',
    ''`([^()]*`bconst`s+(?:typename`s+)?(?:struct`s+)?'' @ ''(?:[`w:]|<[^()]*>)+(`s?&|&`s?)`w+'',
    ''`([^()]*`b(?:[`w:]|<[^()]*>)+`s+const(`s?&|&`s?)[`w]+'',
    ''`([^()]*`b(?:[`w:]|<[^()]*>)+(`s?&|&`s?)`w+'',
    ''(for|swap|Swap|operator[<>][<>])`s*`(`s*'' @ ''(?:(?:typename`s*)?[`w:]|<.*>)+`s*&'',
    ''(`bnew`s+)?`b'' @ ''(int|float|double|bool|char|int32|uint32|int64|uint64)`([^)]'',
    ''^`s*MOCK_(CONST_)?METHOD`d+(_T)?`('', ''^`s*MockCallback<.*>'',
    ''^`s*MOCK_(CONST_)?METHOD`d+(_T)?`(`S+,`s*$'',
    ''(&`([^)]+`)[`w(])|(&(static|dynamic|reinterpret)_cast`b)'',
    ''((?:|static +)(?:|const +))string +([a-zA-Z0-9_:]+)`b(.*)'',
    ''`s*(<.*>)?(::[a-zA-Z0-9_]+)?`s*`(([^"]|$)'', ''`bdynamic_cast<'',
    ''`b([A-Za-z0-9_]*_)`(`1`)'', ''`bshort port`b'', ''`bunsigned short port`b'',
    ''`b(short|long(?! +double)|long long)`b'', ''snprintf`s*`(([^,]*),`s*([0-9]*)`s*,'',
    ''`bsprintf`b'', ''`b(strcpy|strcat)`b'', ''`bsscanf`b'', ''`boperator`s*&`s*`(`s*`)'',
    ''`}`s*if`s*`('', ''`b(string)?printf`s*`('', ''`b((?:string)?printf)`s*`('',
    ''([`w.`->()]+)$'', ''memset`s*`(([^,]*),`s*([^,]*),`s*0`s*`)'',
    ''^'' @ squote @ squote @ ''|-?[0-9]+|0x[0-9A-Fa-f]$'', ''^`s*using namespace`b'',
    ''sizeof`(.+`)'', ''arraysize`(`w+`)'', ''`d+'', ''0[xX][0-9a-fA-F]+'', ''k[A-Z0-9]`w*'',
    ''(.+::)?k[A-Z0-9]`w*'', ''(.+::)?[A-Z][A-Z0-9_]*'', ''`s*(.+::)?(`w+) [a-z]`w*`[(.+)];'',
    ''`s|`+|`-|`*|`/|<<|>>]'',
    ''`s*'' @ ''(DISALLOW_(EVIL_CONSTRUCTORS|COPY_AND_ASSIGN|IMPLICIT_CONSTRUCTORS))'' @ ''`(.*`);$'',
    ''^`s*}[`w`*,`s]*;'', ''`bnamespace`s*{'']\<close>

definition constant_patterns :: "string list" where
  "constant_patterns = patterns_1 @ patterns_2 @ patterns_3"

lemma patterns_1_compile: "list_all compiles patterns_1"
  by code_simp

lemma patterns_2_compile: "list_all compiles patterns_2"
  by code_simp

lemma patterns_3_compile: "list_all compiles patterns_3"
  by code_simp

lemma verbose_pattern_compiles: "rx_verbose RE_PATTERN_CLEANSE_LINE_C_COMMENTS \<noteq> never_rx"
  by code_simp

lemma constant_patterns_compile: "list_all compiles constant_patterns"
  by (simp add: constant_patterns_def patterns_1_compile patterns_2_compile patterns_3_compile)

end
