(* ===== verification/LanguageFacts.thy ===== *)
theory LanguageFacts
  imports Language
begin

text \<open>
  What the language checks guarantee: the text \<open>_GetTextInside\<close> returns is the one between
  matching parentheses, the patterns built from the names of classes and namespaces compile,
  and no check of \<open>CheckLanguage\<close> but that of include lines can raise.
\<close>

subsection \<open>The text between parentheses\<close>

definition punctuation :: "char \<Rightarrow> bool" where
  "punctuation c \<longleftrightarrow> List.member ''(){}[]'' c"

text \<open>Texts whose brackets are matched.\<close>

inductive nested :: "string \<Rightarrow> bool" where
  nested_Nil: "nested []"
| nested_plain: "\<not> punctuation c \<Longrightarrow> nested s \<Longrightarrow> nested (c # s)"
| nested_pair: "matching_punctuation c = Some p \<Longrightarrow> nested s \<Longrightarrow> nested t \<Longrightarrow> nested (c # s @ p # t)"

lemma matching_punctuation_cases:
  "matching_punctuation c = Some p \<Longrightarrow> closing_punctuation p \<and> \<not> closing_punctuation c"
  "punctuation c \<longleftrightarrow> closing_punctuation c \<or> matching_punctuation c \<noteq> None"
  by (auto simp: matching_punctuation_def closing_punctuation_def punctuation_def split: if_splits)

lemma text_inside_nested:
  "nested t \<Longrightarrow> closing_punctuation p \<Longrightarrow> text_inside (p # ps) acc (t @ s) = text_inside (p # ps) (rev t @ acc) s"
proof (induction arbitrary: p ps acc s rule: nested.induct)
  case (nested_plain c t)
  then have "c \<noteq> p" "\<not> closing_punctuation c" "matching_punctuation c = None"
    using matching_punctuation_cases(2) [of c] matching_punctuation_cases(2) [of p] by auto
  with nested_plain show ?case by simp
next
  case (nested_pair c q t u)
  then have "c \<noteq> p" "\<not> closing_punctuation c" "closing_punctuation q"
    using matching_punctuation_cases(1) [of c q] by auto
  with nested_pair show ?case by simp
qed simp

lemma text_inside_split:
  "text_inside (p # ps) acc s = Some res \<Longrightarrow> list_all closing_punctuation (p # ps) \<Longrightarrow>
     \<exists>t r. nested t \<and> s = t @ p # r \<and> text_inside ps (p # rev t @ acc) r = Some res"
proof (induction "length s" arbitrary: p ps acc s rule: less_induct)
  case less
  then obtain c s' where s: "s = c # s'" by (cases s) auto
  have unit: "nested ([] :: string)" by (rule nested_Nil)
  consider "c = p" | q where "c \<noteq> p" "\<not> closing_punctuation c" "matching_punctuation c = Some q"
    | "c \<noteq> p" "\<not> closing_punctuation c" "matching_punctuation c = None"
    using less.prems(1) s by (cases "matching_punctuation c") (auto split: if_splits)
  then show ?case
  proof cases
    case 1
    with less.prems(1) s unit show ?thesis by (intro exI [of _ "[]"] exI [of _ s']) simp
  next
    case (2 q)
    have "text_inside (q # p # ps) (c # acc) s' = Some res" using less.prems(1) s 2 by simp
    from less.hyps [OF _ this] less.prems(2) 2(3) s matching_punctuation_cases(1) [OF 2(3)]
    obtain t r where t: "nested t" "s' = t @ q # r"
      "text_inside (p # ps) (q # rev t @ c # acc) r = Some res" by auto
    from less.hyps [OF _ t(3)] less.prems(2) t(2) s obtain u r' where
      u: "nested u" "r = u @ p # r'" "text_inside ps (p # rev u @ q # rev t @ c # acc) r' = Some res" by auto
    from nested_pair [OF 2(3) t(1) u(1)] show ?thesis
      using s t(2) u(2,3) by (intro exI [of _ "c # t @ q # u"] exI [of _ r']) simp
  next
    case 3
    have "text_inside (p # ps) (c # acc) s' = Some res" using less.prems(1) s 3 by simp
    from less.hyps [OF _ this] less.prems(2) s obtain t r where
      t: "nested t" "s' = t @ p # r" "text_inside ps (p # rev t @ c # acc) r = Some res" by auto
    have "\<not> punctuation c" using 3 matching_punctuation_cases(2) by simp
    from nested_plain [OF this t(1)] show ?thesis
      using s t(2,3) by (intro exI [of _ "c # t"] exI [of _ r]) simp
  qed
qed

lemma text_inside_iff:
  assumes "closing_punctuation p"
  shows "text_inside [p] [] s = Some t \<longleftrightarrow> (\<exists>r. s = t @ p # r \<and> nested t)"
proof
  assume "text_inside [p] [] s = Some t"
  from text_inside_split [OF this] assms show "\<exists>r. s = t @ p # r \<and> nested t" by auto
next
  assume "\<exists>r. s = t @ p # r \<and> nested t"
  then obtain r where "s = t @ p # r" "nested t" by blast
  with text_inside_nested [OF this(2) assms, of "[]" "[]" "p # r"] show "text_inside [p] [] s = Some t" by simp
qed

text \<open>The last character of every match of a pattern, when it is one literal.\<close>

fun final :: "char \<Rightarrow> rx \<Rightarrow> bool" where
  "final c (RSet neg cs) \<longleftrightarrow> \<not> neg \<and> cs \<noteq> [] \<and> list_all (\<lambda>k. k = CChar c) cs"
| "final c (RSeq a b) \<longleftrightarrow> final c b \<or> (b = REmpty \<and> final c a)"
| "final c r \<longleftrightarrow> False"

lemma final_den: "final c r \<Longrightarrow> (s, t) \<in> den r \<Longrightarrow> \<exists>p. text_past t = c # p"
proof (induction c r arbitrary: s rule: final.induct)
  case (1 c neg cs)
  then show ?case by (auto simp: in_set_def list_ex_iff list_all_iff eats_def)
next
  case (2 c a b)
  from 2(4) obtain u where "(s, u) \<in> den a" "(u, t) \<in> den b" by (rule den_seqE)
  with 2 show ?case by auto
qed simp_all

lemma search_final:
  assumes "rx_search r s = Some m" "final c r"
  shows "0 < m_end m \<and> s ! (m_end m - 1) = c"
proof -
  from rx_search_den [OF assms(1)] obtain t
    where t: "(at_pos s (m_start m), t) \<in> den r" "m = mk_match (m_start m) t" by blast
  from final_den [OF assms(2) t(1)] obtain p where p: "text_past t = c # p" by blast
  have "subject t = s" using advances_subject [OF den_advances [OF t(1)]] by simp
  then have "s = rev p @ c # text_left t" using p by (simp add: subject_def)
  moreover have "m_end m = Suc (length p)" using t(2) p by (metis mk_match_def rmatch.select_convs(3) length_Cons)
  ultimately show ?thesis by (simp add: nth_append)
qed

lemma printf_start_final: "final CHR ''('' printf_start" by code_simp

text \<open>C32: looking for the arguments of a printf, \<open>_GetTextInside\<close> never fails its assertions, and it returns a text exactly when the pattern is found and the text is what stands between the parenthesis the match ends with and the one that closes it, all brackets between being matched.\<close>

theorem GetTextInside_matched:
  "GetTextInside line printf_start \<noteq> Inl x \<and>
   (GetTextInside line printf_start = Inr (Some t) \<longleftrightarrow>
     (\<exists>m r. rx_search printf_start line = Some m \<and> drop (m_end m) line = t @ '')'' @ r \<and> nested t))"
proof (cases "rx_search printf_start line")
  case (Some m)
  have "matching_punctuation (CHR ''('') = Some CHR '')''" by (simp add: matching_punctuation_def)
  with search_final [OF Some printf_start_final] Some
  have "GetTextInside line printf_start = Inr (text_inside '')'' [] (drop (m_end m) line))"
    by (simp add: GetTextInside_def)
  moreover have "closing_punctuation CHR '')''" by (simp add: closing_punctuation_def)
  ultimately show ?thesis using Some by (simp add: text_inside_iff)
qed (simp add: GetTextInside_def)

subsection \<open>Patterns that differ in their groups only\<close>

text \<open>What a pattern without backreferences does to the text, whatever its groups capture.\<close>

definition mtext :: "mstate \<Rightarrow> string \<times> string" where "mtext s = (text_past s, text_left s)"

primrec tden :: "rx \<Rightarrow> ((string \<times> string) \<times> (string \<times> string)) set" where
  "tden REmpty = Id"
| "tden (RSet neg cs) = {((p, x), (q, y)). \<exists>c. in_set neg cs c \<and> x = c # y \<and> q = c # p}"
| "tden RAny = {((p, x), (q, y)). \<exists>c. code c \<noteq> 10 \<and> x = c # y \<and> q = c # p}"
| "tden RBol = {(s, t). t = s \<and> fst s = []}"
| "tden REol = {(s, t). t = s \<and> (snd s = [] \<or> snd s = [CHR 0x0A])}"
| "tden RWordB = {(s, t). t = s \<and> at_word_boundary (fst s) (snd s)}"
| "tden (RSeq a b) = tden a O tden b"
| "tden (RAlt a b) = tden a \<union> tden b"
| "tden (RStar g a) = (tden a \<inter> {(s, t). length (snd t) < length (snd s)})\<^sup>*"
| "tden (RGrp k a) = tden a"
| "tden (RLook pos a) = {(s, t). t = s \<and> ((\<exists>u. (s, u) \<in> tden a) \<longleftrightarrow> pos)}"
| "tden (RBack k) = {}"

primrec no_back :: "rx \<Rightarrow> bool" where
  "no_back REmpty \<longleftrightarrow> True"
| "no_back (RSet neg cs) \<longleftrightarrow> True"
| "no_back RAny \<longleftrightarrow> True"
| "no_back RBol \<longleftrightarrow> True"
| "no_back REol \<longleftrightarrow> True"
| "no_back RWordB \<longleftrightarrow> True"
| "no_back (RSeq a b) \<longleftrightarrow> no_back a \<and> no_back b"
| "no_back (RAlt a b) \<longleftrightarrow> no_back a \<and> no_back b"
| "no_back (RStar g a) \<longleftrightarrow> no_back a"
| "no_back (RGrp k a) \<longleftrightarrow> no_back a"
| "no_back (RLook pos a) \<longleftrightarrow> no_back a"
| "no_back (RBack k) \<longleftrightarrow> False"

definition simulated :: "rx \<Rightarrow> bool" where
  "simulated r \<longleftrightarrow> (\<forall>s t. (s, t) \<in> den r \<longrightarrow> (mtext s, mtext t) \<in> tden r) \<and>
     (\<forall>s y. (mtext s, y) \<in> tden r \<longrightarrow> (\<exists>t. (s, t) \<in> den r \<and> mtext t = y))"

lemma simulatedI:
  "(\<And>s t. (s, t) \<in> den r \<Longrightarrow> (mtext s, mtext t) \<in> tden r) \<Longrightarrow>
   (\<And>s y. (mtext s, y) \<in> tden r \<Longrightarrow> \<exists>t. (s, t) \<in> den r \<and> mtext t = y) \<Longrightarrow> simulated r"
  unfolding simulated_def by blast

lemma simulatedD:
  "simulated r \<Longrightarrow> (s, t) \<in> den r \<Longrightarrow> (mtext s, mtext t) \<in> tden r"
  "simulated r \<Longrightarrow> (mtext s, y) \<in> tden r \<Longrightarrow> \<exists>t. (s, t) \<in> den r \<and> mtext t = y"
  unfolding simulated_def by blast+

lemma simulated_set:
  assumes "\<And>s t. (s, t) \<in> den r \<longleftrightarrow> (\<exists>c. P c \<and> eats [c] s t)"
    and "\<And>p x q y. ((p, x), (q, y)) \<in> tden r \<longleftrightarrow> (\<exists>c. P c \<and> x = c # y \<and> q = c # p)"
  shows "simulated r"
proof (rule simulatedI)
  fix s t assume "(s, t) \<in> den r"
  then show "(mtext s, mtext t) \<in> tden r" unfolding assms(1) mtext_def assms(2) by (auto simp: eats_def)
next
  fix s y assume "(mtext s, y) \<in> tden r"
  then obtain c where c: "P c" "text_left s = c # snd y" "fst y = c # text_past s"
    unfolding mtext_def using assms(2) [of "text_past s" "text_left s" "fst y" "snd y"] by auto
  have "(s, (fst y, snd y, caps_of s)) \<in> den r \<and> mtext (fst y, snd y, caps_of s) = y"
    unfolding assms(1) using c by (cases y) (auto simp: eats_def mtext_def)
  then show "\<exists>t. (s, t) \<in> den r \<and> mtext t = y" by blast
qed

lemma simulated_check:
  assumes "\<And>s t. (s, t) \<in> den r \<longleftrightarrow> t = s \<and> P (mtext s)" and "tden r = {(s, t). t = s \<and> P s}"
  shows "simulated r"
  using assms by (intro simulatedI) auto

lemma no_back_simulated: "no_back r \<Longrightarrow> simulated r"
proof (induction r)
  case (RSet neg cs)
  show ?case by (rule simulated_set [where P = "in_set neg cs"]) simp_all
next
  case RAny
  show ?case by (rule simulated_set [where P = "\<lambda>c. code c \<noteq> 10"]) simp_all
next
  case (RSeq a b)
  then have ab: "simulated a" "simulated b" by simp_all
  show ?case
  proof (rule simulatedI)
    fix s t assume "(s, t) \<in> den (RSeq a b)"
    then show "(mtext s, mtext t) \<in> tden (RSeq a b)"
      by (rule den_seqE) (use simulatedD(1) [OF ab(1)] simulatedD(1) [OF ab(2)] in \<open>simp, blast\<close>)
  next
    fix s y assume "(mtext s, y) \<in> tden (RSeq a b)"
    then obtain z where z: "(mtext s, z) \<in> tden a" "(z, y) \<in> tden b" by auto
    from simulatedD(2) [OF ab(1) z(1)] obtain u where u: "(s, u) \<in> den a" "mtext u = z" by blast
    with simulatedD(2) [OF ab(2), of u y] z(2) obtain t where "(u, t) \<in> den b" "mtext t = y" by blast
    with u show "\<exists>t. (s, t) \<in> den (RSeq a b) \<and> mtext t = y" unfolding den.simps(7) by blast
  qed
next
  case (RAlt a b)
  then show ?case unfolding no_back.simps simulated_def den.simps(8) tden.simps(8) Un_iff by metis
next
  case (RStar g a)
  then have a: "simulated a" by simp
  let ?R = "tden a \<inter> {(s, t). length (snd t) < length (snd s)}"
  have p: "(s, t) \<in> progress \<longleftrightarrow> length (snd (mtext t)) < length (snd (mtext s))" for s t
    by (simp add: progress_def mtext_def)
  show ?case
  proof (rule simulatedI)
    fix s t assume "(s, t) \<in> den (RStar g a)"
    then have "(s, t) \<in> (den a \<inter> progress)\<^sup>*" by simp
    then have "(mtext s, mtext t) \<in> ?R\<^sup>*"
    proof (induction rule: rtrancl_induct)
      case (step u t)
      then have "(mtext u, mtext t) \<in> ?R" using simulatedD(1) [OF a, of u t] p [of u t] by auto
      with step.IH show ?case by (rule rtrancl_into_rtrancl)
    qed simp
    then show "(mtext s, mtext t) \<in> tden (RStar g a)" by simp
  next
    fix s y assume "(mtext s, y) \<in> tden (RStar g a)"
    then have "(mtext s, y) \<in> ?R\<^sup>*" by simp
    then have "\<exists>t. (s, t) \<in> (den a \<inter> progress)\<^sup>* \<and> mtext t = y"
    proof (induction rule: rtrancl_induct)
      case (step x y)
      then obtain u where u: "(s, u) \<in> (den a \<inter> progress)\<^sup>*" "mtext u = x" by blast
      with step(2) simulatedD(2) [OF a, of u y] obtain t where t: "(u, t) \<in> den a" "mtext t = y" by auto
      then have "(u, t) \<in> den a \<inter> progress" using step(2) u(2) p [of u t] by auto
      with u(1) have "(s, t) \<in> (den a \<inter> progress)\<^sup>*" by (rule rtrancl_into_rtrancl)
      with t(2) show ?case by blast
    qed blast
    then show "\<exists>t. (s, t) \<in> den (RStar g a) \<and> mtext t = y" by simp
  qed
next
  case (RGrp k a)
  then have a: "simulated a" by simp
  show ?case
  proof (rule simulatedI)
    fix s t assume "(s, t) \<in> den (RGrp k a)"
    then show "(mtext s, mtext t) \<in> tden (RGrp k a)"
      by (rule den_grpE) (use simulatedD(1) [OF a] in \<open>simp add: mtext_def\<close>)
  next
    fix s y assume "(mtext s, y) \<in> tden (RGrp k a)"
    with simulatedD(2) [OF a, of s y] obtain u where u: "(s, u) \<in> den a" "mtext u = y" by auto
    then show "\<exists>t. (s, t) \<in> den (RGrp k a) \<and> mtext t = y"
      unfolding den.simps(10)
      by (intro exI [of _ "(text_past u, text_left u, (k, length (text_past s), length (text_past u)) # caps_of u)"])
         (auto simp: mtext_def)
  qed
next
  case (RLook pos a)
  then have a: "simulated a" by simp
  have "(\<exists>u. (s, u) \<in> den a) \<longleftrightarrow> (\<exists>u. (mtext s, u) \<in> tden a)" for s
    using simulatedD(1) [OF a, of s] simulatedD(2) [OF a, of s] by blast
  then show ?case by (intro simulated_check [where P = "\<lambda>s. (\<exists>u. (s, u) \<in> tden a) \<longleftrightarrow> pos"]) auto
qed (auto intro!: simulatedI simp: mtext_def)

text \<open>Two such patterns are found in the same texts.\<close>

lemma same_text_found:
  assumes "no_back r" "no_back q" "tden r = tden q" "rx_search r s \<noteq> None"
  shows "rx_search q s \<noteq> None"
proof
  assume none: "rx_search q s = None"
  from assms(4) obtain m where "rx_search r s = Some m" by blast
  note m = this
  have "m_start m \<le> length s" using rx_searcher.srch_occ [OF m] by (simp add: occurs_def)
  moreover from rx_search_den [OF m] obtain t where "(at_pos s (m_start m), t) \<in> den r" by blast
  then have "(mtext (at_pos s (m_start m)), mtext t) \<in> tden q"
    using simulatedD(1) [OF no_back_simulated [OF assms(1)]] assms(3) by blast
  then obtain u where "(at_pos s (m_start m), u) \<in> den q"
    using simulatedD(2) [OF no_back_simulated [OF assms(2)]] by blast
  ultimately have "occurs q s (m_start m) (length (text_past u))" unfolding occurs_def by blast
  with rx_searcher.srch_none [OF none] show False by blast
qed

lemma printf_name_found: "rx_search printf_start s \<noteq> None \<Longrightarrow> rx_search printf_name s \<noteq> None"
proof (erule same_text_found [rotated 3])
  show "no_back printf_start" "no_back printf_name" by code_simp+
  define lits :: "string \<Rightarrow> rx \<Rightarrow> rx" where "lits w r = foldr (\<lambda>c r. RSeq (icase (RChar c)) r) w r" for w r
  define R where "R = RSeq (RStar True (RSet False [CSpace True])) (RSeq (icase (RChar (CHR ''(''))) REmpty)"
  have seq: "tden (lits w r) = tden (lits w REmpty) O tden r" for w r
    by (induction w) (simp_all add: lits_def O_assoc)
  have start: "printf_start = RSeq RWordB (RSeq (RAlt (RSeq (RGrp 1 (lits ''string'' REmpty)) REmpty) REmpty)
      (lits ''printf'' R))"
    unfolding lits_def R_def by code_simp
  have name: "printf_name = RSeq RWordB (RSeq (RGrp 1 (RSeq (RAlt (RSeq (lits ''string'' REmpty) REmpty) REmpty)
      (lits ''printf'' REmpty))) R)"
    unfolding lits_def R_def by code_simp
  show "tden printf_start = tden printf_name"
    unfolding start name tden.simps seq [of "''printf''" R] by (simp only: R_O_Id O_assoc)
qed

subsection \<open>No check of the language raises\<close>

lemma format_errors_no_raise: "Raise x \<notin> set (format_errors fn line n)"
proof -
  have "GetTextInside line printf_start \<noteq> Inl y" for y using GetTextInside_matched by blast
  moreover have "rx_search printf_start line \<noteq> None" if "GetTextInside line printf_start = Inr (Some t)" for t
    using that by (auto simp: GetTextInside_def split: option.splits)
  then have "rx_search printf_name line \<noteq> None" if "GetTextInside line printf_start = Inr (Some t)" for t
    using that printf_name_found by blast
  ultimately show ?thesis by (auto simp: format_errors_def split: option.splits sum.splits if_splits)
qed

lemma cast_no_raise: "Raise x \<notin> set (fst (CheckCStyleCast fn n line raw cast pattern))"
  by (auto simp: CheckCStyleCast_def Let_def split: option.split)

lemma cast_errors_no_raise: "Raise x \<notin> set (cast_errors fn line raw n)"
  using cast_no_raise by (auto simp: cast_errors_def split_def Let_def CheckSizeOf_def split: option.splits)

lemma language_parts_no_raise:
  "list_all (\<lambda>a. a \<noteq> Raise x) (reference_errors fn line n)"
  "list_all (\<lambda>a. a \<noteq> Raise x) (conversion_errors fn clean line n)"
  "list_all (\<lambda>a. a \<noteq> Raise x) (address_errors fn line n)"
  "list_all (\<lambda>a. a \<noteq> Raise x) (global_string_errors fn line n)"
  "list_all (\<lambda>a. a \<noteq> Raise x) (rtti_errors fn line n)"
  "list_all (\<lambda>a. a \<noteq> Raise x) (int_errors fn line n)"
  "list_all (\<lambda>a. a \<noteq> Raise x) (printf_errors fn line n)"
  "list_all (\<lambda>a. a \<noteq> Raise x) (operator_errors fn line n)"
  "list_all (\<lambda>a. a \<noteq> Raise x) (memset_errors fn line n)"
  "list_all (\<lambda>a. a \<noteq> Raise x) (using_errors fn ext line n)"
  "list_all (\<lambda>a. a \<noteq> Raise x) (array_errors fn line n)"
  "list_all (\<lambda>a. a \<noteq> Raise x) (disallow_errors fn clean line n)"
  "list_all (\<lambda>a. a \<noteq> Raise x) (unnamed_namespace_errors fn ext line n)"
  by (simp_all add: reference_errors_def conversion_errors_def address_errors_def global_string_errors_def
      rtti_errors_def int_errors_def printf_errors_def operator_errors_def memset_errors_def using_errors_def
      array_errors_def disallow_errors_def unnamed_namespace_errors_def Let_def split: option.split)

lemma language_no_raise: "Raise x \<notin> set (language_errors fn clean n ext line)"
proof -
  have "list_all (\<lambda>a. a \<noteq> Raise x) (cast_errors fn line raw n)" for raw
    using cast_errors_no_raise [of x fn line raw n] unfolding list_all_iff by metis
  moreover have "list_all (\<lambda>a. a \<noteq> Raise x) (format_errors fn line n)"
    using format_errors_no_raise [of x fn line n] unfolding list_all_iff by metis
  ultimately have "list_all (\<lambda>a. a \<noteq> Raise x) (language_errors fn clean n ext line)"
    by (simp add: language_errors_def language_parts_no_raise)
  then show ?thesis unfolding list_all_iff by blast
qed


lemma wf_format_errors: "wf_acts (format_errors fn line n)"
proof -
  have "list_all (\<lambda>a. (\<exists>x. a = Raise x) \<or> wf_act a) (format_errors fn line n)"
    by (simp add: format_errors_def split: option.split sum.split)
  then show ?thesis using format_errors_no_raise [of _ fn line n] unfolding list_all_iff by metis
qed

lemma wf_cast_errors: "wf_acts (cast_errors fn line raw n)"
proof -
  have "wf_acts (fst (CheckCStyleCast fn n line raw cast pattern))" for cast pattern
    by (simp add: CheckCStyleCast_def Let_def split: option.split)
  then show ?thesis by (simp add: cast_errors_def split_def Let_def CheckSizeOf_def split: option.split)
qed

lemma wf_language_parts:
  "wf_acts (reference_errors fn line n)" "wf_acts (conversion_errors fn clean line n)"
  "wf_acts (address_errors fn line n)" "wf_acts (global_string_errors fn line n)"
  "wf_acts (rtti_errors fn line n)" "wf_acts (int_errors fn line n)" "wf_acts (printf_errors fn line n)"
  "wf_acts (operator_errors fn line n)" "wf_acts (memset_errors fn line n)"
  "wf_acts (using_errors fn ext line n)" "wf_acts (array_errors fn line n)"
  "wf_acts (disallow_errors fn clean line n)" "wf_acts (unnamed_namespace_errors fn ext line n)"
  by (simp_all add: reference_errors_def conversion_errors_def address_errors_def global_string_errors_def
      rtti_errors_def int_errors_def printf_errors_def operator_errors_def memset_errors_def using_errors_def
      array_errors_def disallow_errors_def unnamed_namespace_errors_def Let_def split: option.split)

lemma wf_language_errors [act_simps]: "wf_acts (language_errors fn clean n ext line)"
  by (simp add: language_errors_def wf_language_parts wf_cast_errors wf_format_errors)

lemma wf_CheckLanguage [act_simps]: "wf_acts (fst (CheckLanguage e fn clean n ext st))"
  by (simp add: CheckLanguage_def Let_def wf_language_errors wf_CheckIncludeLine)

end
