(* ===== verification/BlockFacts.thy ===== *)
theory BlockFacts
  imports LanguageFacts
begin

text \<open>
  The invariant of the stack of blocks: the names in it are names of C++ and the access of a
  class is one of the three keywords. It is kept by every line, whatever the line holds, and
  it is what the patterns built from those names rely on.
\<close>

definition name_char :: "char \<Rightarrow> bool" where
  "name_char c \<longleftrightarrow> word_char c \<or> c = CHR '':''"

definition access_keywords :: "string list" where
  "access_keywords = [''public'', ''private'', ''protected'']"

definition wf_block :: "block \<Rightarrow> bool" where
  "wf_block b = (case kind b of
      ClassBlock c \<Rightarrow> access c \<in> set access_keywords \<and> list_all name_char (class_name c)
    | NamespaceBlock name start \<Rightarrow> list_all name_char name
    | PlainBlock \<Rightarrow> True)"

definition wf_pp :: "pp_info \<Rightarrow> bool" where
  "wf_pp p \<longleftrightarrow> list_all wf_block (stack_before_if p) \<and> list_all wf_block (stack_before_else p)"

definition wf_nesting :: "nesting \<Rightarrow> bool" where
  "wf_nesting st \<longleftrightarrow> list_all wf_block (blocks st) \<and> list_all wf_pp (pp_stack st)"

subsection \<open>What the patterns let through\<close>

lemma namespace_name_chars: "list_all (only name_char) (groups 1 (rx RE_NAMESPACE))"
proof -
  have "groups 1 (rx RE_NAMESPACE) =
      [RSeq (RSeq (RSet False [CChar (CHR '':''), CWord True]) (RStar True (RSet False [CChar (CHR '':''), CWord True]))) REmpty]"
    by code_simp
  then show ?thesis by (simp add: in_set_def name_char_def)
qed

lemma class_name_chars: "list_all (only name_char) (groups 4 (rx RE_CLASS))"
proof -
  let ?w = "RSeq (RSet False [CWord True]) (RStar True (RSet False [CWord True]))"
  have "groups 4 (rx RE_CLASS) =
      [RSeq ?w (RSeq (RStar True (RSeq (RChar (CHR '':'')) (RSeq (RChar (CHR '':'')) (RSeq ?w REmpty)))) REmpty)]"
    by code_simp
  then show ?thesis by (simp add: in_set_def name_char_def)
qed

lemma access_group:
  "always 1 (rx ''`s*(public|private|protected)`s*:'')"
  "group_words 1 (rx ''`s*(public|private|protected)`s*:'') = Some access_keywords"
  by code_simp+

subsection \<open>Each step keeps the invariant\<close>

lemma wf_update_parens: "wf_block b \<Longrightarrow> wf_block (update_parens line b)"
  by (simp add: update_parens_def wf_block_def Let_def)

lemma wf_CheckBegin: "wf_block b \<Longrightarrow> wf_block (CheckBegin line b)"
  by (cases "kind b") (auto simp: CheckBegin_def wf_block_def)

lemma wf_update_access: "wf_block b \<Longrightarrow> wf_block (update_access line b)"
  using Match_grp [OF _ _ access_group, of line]
  by (auto simp: update_access_def wf_block_def split: block_kind.splits option.split)

lemma wf_on_top: "(\<And>b. wf_block b \<Longrightarrow> wf_block (f b)) \<Longrightarrow> list_all wf_block st \<Longrightarrow> list_all wf_block (on_top f st)"
  by (auto simp: on_top_def split: list.split)

lemma wf_NamespaceInfo:
  assumes "Match RE_NAMESPACE line = Some m"
  shows "wf_block (NamespaceInfo (group m 1) n)" "wf_block ((NamespaceInfo (group m 1) n)\<lparr>seen_open_brace := True\<rparr>)"
  using match_of_group_only [OF rx_match_of [OF assms [unfolded Match_def]] _ namespace_name_chars]
  by (auto simp: NamespaceInfo_def BlockInfo_def wf_block_def split: option.split)

lemma wf_namespace_loop: "list_all wf_block st \<Longrightarrow> list_all wf_block (snd (namespace_loop n line st))"
proof (induction n line st rule: namespace_loop.induct)
  case (1 n line st)
  show ?case
  proof (cases "Match RE_NAMESPACE line")
    case None
    with 1 show ?thesis by (simp add: namespace_loop.simps [of n line])
  next
    case (Some m)
    from "1.IH"(1) [OF Some refl refl refl] "1.IH"(2) [OF Some refl refl refl] "1.prems" Some
      wf_NamespaceInfo [OF Some]
    show ?thesis by (cases "find (grp m 2) ''{'' = -1") (simp_all add: namespace_loop.simps [of n line] Let_def)
  qed
qed

lemma wf_push_class: "list_all wf_block st \<Longrightarrow> list_all wf_block (snd (push_class clean n line st))"
proof -
  assume st: "list_all wf_block st"
  have "list_all name_char (grp m 4)" if "Match RE_CLASS line = Some m" for m
    using match_of_group_only [OF rx_match_of [OF that [unfolded Match_def]] _ class_name_chars]
    by (auto simp: grp_def split: option.split)
  with st show ?thesis
    by (auto simp: push_class_def ClassInfo_def BlockInfo_def wf_block_def access_keywords_def
        split: option.split)
qed

lemma wf_brace_step_blocks: "list_all wf_block st \<Longrightarrow> list_all wf_block (snd (brace_step fn clean n asm c st))"
proof -
  assume st: "list_all wf_block st"
  then have "list_all wf_block (tl st)" by (cases st) simp_all
  moreover have "list_all wf_block (on_top (seen_open_brace_update (\<lambda>_. True)) st)"
    using st by (intro wf_on_top) (simp_all add: wf_block_def)
  ultimately show ?thesis
    using st by (auto simp: brace_step_def BlockInfo_def wf_block_def split: list.split)
qed

lemma wf_brace_loop_blocks: "list_all wf_block st \<Longrightarrow> list_all wf_block (snd (brace_loop fn clean n line st))"
proof (induction fn clean n line st rule: brace_loop.induct)
  case (1 fn clean n line st)
  show ?case
  proof (cases "Match RE_BRACE line")
    case None
    with 1 show ?thesis by (simp add: brace_loop.simps [of fn clean n line])
  next
    case (Some m)
    let ?r = "brace_step fn clean n (matches MATCH_ASM line) (hd (grp m 1)) st"
    have "list_all wf_block (snd (brace_loop fn clean n (grp m 2) (snd ?r)))"
      by (rule "1.IH" [OF Some, of ?r "fst ?r"]) (simp_all add: wf_brace_step_blocks "1.prems")
    then show ?thesis using Some by (simp add: brace_loop.simps [of fn clean n line] split_def Let_def)
  qed
qed

lemma wf_update_blocks: "list_all wf_block st \<Longrightarrow> list_all wf_block (snd (update_blocks fn clean n line st))"
  by (auto simp: update_blocks_def split_def Let_def
      intro!: wf_brace_loop_blocks wf_on_top wf_update_access wf_CheckBegin wf_push_class
        wf_namespace_loop wf_update_parens)

lemma wf_pp_step: "wf_nesting st \<Longrightarrow> wf_nesting (pp_step d st)"
  by (auto simp: wf_nesting_def wf_pp_def pp_step_def PreprocessorInfo_def Let_def
      split: directive.split list.splits)

lemma wf_nesting_Update:
  assumes "wf_nesting st"
  shows "wf_nesting (snd (Update fn clean n st))"
proof -
  have "wf_nesting (UpdatePreprocessor (elided clean ! n) st)"
    using assms by (simp add: UpdatePreprocessor_def wf_pp_step)
  then show ?thesis
    by (simp add: Update_def split_def Let_def wf_nesting_def wf_update_blocks)
qed

text \<open>C6: reading a line keeps the parser's state well formed: every block of the stack, and every stack saved for a condition, has the name of a class or namespace in it and one of the three access keywords.\<close>

theorem Update_keeps_wf:
  assumes "wf_nesting st"
  shows "wf_nesting (snd (Update fn clean n st))"
  using assms by (rule wf_nesting_Update)

lemma wf_NestingState: "wf_nesting NestingState"
  by (simp add: wf_nesting_def NestingState_def)

lemma Update_keeps_wf_witness:
  "\<forall>clean. wf_nesting (snd (Update ''a.cc'' clean 0 NestingState))"
  by (intro allI Update_keeps_wf wf_NestingState)

subsection \<open>Patterns built from names\<close>

lemma tokens_append: "tokens u = Some ts \<Longrightarrow> tokens (u @ v) = map_option (\<lambda>us. ts @ us) (tokens v)"
proof (induction u arbitrary: ts rule: tokens.induct)
  case 1
  then show ?case by (cases "tokens v") simp_all
next
  case (2 c s)
  show ?case
  proof (cases "c = bslash")
    case True
    with 2(3) obtain d s' ts' where "s = d # s'" "tokens s' = Some ts'" "ts = Escaped d # ts'"
      by (auto split: list.splits)
    with 2(1) [OF True] True show ?thesis by (simp add: option.map_comp comp_def)
  next
    case False
    with 2(3) obtain ts' where "tokens s = Some ts'" "ts = Plain c # ts'" by auto
    with 2(2) [OF False] False show ?thesis by (simp add: option.map_comp comp_def)
  qed
qed

lemma compile_around:
  assumes "list_all (\<lambda>c. code c \<noteq> 0) w" "tokens p = Some tp" "tokens q = Some tq"
  shows "re_compile (p @ re_escape w @ q) = parse 1 [] [] [] (tp @ map literal_token w @ tq)"
  using assms by (simp add: re_compile_def tokens_append tokens_escape)

lemma lazy_mark_literal:
  "lazy_mark ts = (True, ts) \<Longrightarrow> lazy_mark (map literal_token w @ ts) = (True, map literal_token w @ ts)"
proof (cases w)
  case (Cons c w')
  have "literal_token c \<noteq> Plain (CHR ''?'')" by (auto simp: literal_token_def re_alnum_def aalpha_def adigit_def in_range_def code_def)
  with Cons show ?thesis by (auto simp: lazy_mark_def split: token.split)
qed simp

lemma constructor_tokens:
  "tokens (bs ''`s+(?:inline`s+)?'') = Some [Escaped CHR ''s'', Plain CHR ''+'', Plain CHR ''('', Plain CHR ''?'',
     Plain CHR '':'', Plain CHR ''i'', Plain CHR ''n'', Plain CHR ''l'', Plain CHR ''i'', Plain CHR ''n'', Plain CHR ''e'',
     Escaped CHR ''s'', Plain CHR ''+'', Plain CHR '')'', Plain CHR ''?'']"
  "tokens (bs ''`s*`(([^,()]+)`)'') = Some [Escaped CHR ''s'', Plain CHR ''*'', Escaped CHR ''('', Plain CHR ''('',
     Plain CHR ''['', Plain CHR ''^'', Plain CHR '','', Plain CHR ''('', Plain CHR '')'', Plain CHR '']'', Plain CHR ''+'',
     Plain CHR '')'', Escaped CHR '')'']"
  by code_simp+

lemma parse_tail:
  "\<exists>r. parse n [] [] its [Escaped CHR ''s'', Plain CHR ''*'', Escaped CHR ''('', Plain CHR ''('',
     Plain CHR ''['', Plain CHR ''^'', Plain CHR '','', Plain CHR ''('', Plain CHR '')'', Plain CHR '']'', Plain CHR ''+'',
     Plain CHR '')'', Escaped CHR '')''] = Some r"
  by (simp add: parse.simps parse_set.simps repeat_last_def lazy_mark_def control_escape_def adigit_def in_range_def code_def)

lemma constructor_pattern_compiles:
  assumes "list_all (\<lambda>c. code c \<noteq> 0) w"
  shows "re_compile (constructor_pattern w) \<noteq> None"
proof -
  define X where "X = map literal_token w @ the (tokens (bs ''`s*`(([^,()]+)`)''))"
  have "lazy_mark X = (True, X)"
    unfolding X_def constructor_tokens option.sel by (rule lazy_mark_literal) (simp add: lazy_mark_def)
  then have "\<exists>its. parse 1 [] [] [] (the (tokens (bs ''`s+(?:inline`s+)?'')) @ X) = parse 1 [] [] its X"
    unfolding constructor_tokens option.sel
    by (simp add: parse.simps repeat_last_def lazy_mark_def control_escape_def next_group_def)
      (rule exI, rule refl)
  then obtain its where "parse 1 [] [] [] (the (tokens (bs ''`s+(?:inline`s+)?'')) @ X) =
      parse 1 [] [] (literal_items w @ its) (the (tokens (bs ''`s*`(([^,()]+)`)'')))"
    unfolding X_def parse_literal_tokens by blast
  then show ?thesis
    unfolding constructor_pattern_def compile_around [OF assms constructor_tokens] X_def constructor_tokens option.sel
    using parse_tail by simp
qed

lemma reference_tokens:
  "tokens (bs ''(const`s+)?'') = Some [Plain CHR ''('', Plain CHR ''c'', Plain CHR ''o'', Plain CHR ''n'', Plain CHR ''s'',
     Plain CHR ''t'', Escaped CHR ''s'', Plain CHR ''+'', Plain CHR '')'', Plain CHR ''?'']"
  "tokens (bs ''`s*(?:<`w+>`s*)?&'') = Some [Escaped CHR ''s'', Plain CHR ''*'', Plain CHR ''('', Plain CHR ''?'',
     Plain CHR '':'', Plain CHR ''<'', Escaped CHR ''w'', Plain CHR ''+'', Plain CHR ''>'', Escaped CHR ''s'', Plain CHR ''*'',
     Plain CHR '')'', Plain CHR ''?'', Plain CHR ''&'']"
  by code_simp+

lemma reference_pattern_compiles:
  assumes "list_all (\<lambda>c. code c \<noteq> 0) w"
  shows "re_compile (reference_pattern w) \<noteq> None"
proof -
  define X where "X = map literal_token w @ the (tokens (bs ''`s*(?:<`w+>`s*)?&''))"
  have "lazy_mark X = (True, X)"
    unfolding X_def reference_tokens option.sel by (rule lazy_mark_literal) (simp add: lazy_mark_def)
  then have "\<exists>its. parse 1 [] [] [] (the (tokens (bs ''(const`s+)?'')) @ X) = parse (Suc (Suc 0)) [] [] its X"
    unfolding reference_tokens option.sel
    by (simp add: parse.simps repeat_last_def lazy_mark_def control_escape_def next_group_def)
      (rule exI, rule refl)
  then obtain its where "parse 1 [] [] [] (the (tokens (bs ''(const`s+)?'')) @ X) =
      parse (Suc (Suc 0)) [] [] (literal_items w @ its) (the (tokens (bs ''`s*(?:<`w+>`s*)?&'')))"
    unfolding X_def parse_literal_tokens by blast
  then show ?thesis
    unfolding reference_pattern_def compile_around [OF assms reference_tokens] X_def reference_tokens option.sel
    by (simp add: parse.simps repeat_last_def lazy_mark_def control_escape_def next_group_def)
qed

lemma end_comment_tokens:
  "tokens (bs ''};*`s*(//|/`*).*`bnamespace`s+'') = Some [Plain CHR ''}'', Plain CHR '';'', Plain CHR ''*'',
     Escaped CHR ''s'', Plain CHR ''*'', Plain CHR ''('', Plain CHR ''/'', Plain CHR ''/'', Plain CHR ''|'', Plain CHR ''/'',
     Escaped CHR ''*'', Plain CHR '')'', Plain CHR ''.'', Plain CHR ''*'', Escaped CHR ''b'', Plain CHR ''n'', Plain CHR ''a'',
     Plain CHR ''m'', Plain CHR ''e'', Plain CHR ''s'', Plain CHR ''p'', Plain CHR ''a'', Plain CHR ''c'', Plain CHR ''e'',
     Escaped CHR ''s'', Plain CHR ''+'']"
  "tokens (bs ''[`*/`.```s]*$'') = Some [Plain CHR ''['', Escaped CHR ''*'', Plain CHR ''/'', Escaped CHR ''.'', Escaped bslash,
     Escaped CHR ''s'', Plain CHR '']'', Plain CHR ''*'', Plain CHR ''$'']"
  by code_simp+

lemma end_comment_compiles:
  assumes "list_all (\<lambda>c. code c \<noteq> 0) w"
  shows "re_compile (bs ''};*`s*(//|/`*).*`bnamespace`s+'' @ re_escape w @ bs ''[`*/`.```s]*$'') \<noteq> None"
proof -
  define X where "X = map literal_token w @ the (tokens (bs ''[`*/`.```s]*$''))"
  have "lazy_mark X = (True, X)"
    unfolding X_def end_comment_tokens option.sel by (rule lazy_mark_literal) (simp add: lazy_mark_def)
  then have "\<exists>its. parse 1 [] [] [] (the (tokens (bs ''};*`s*(//|/`*).*`bnamespace`s+'')) @ X) = parse (Suc (Suc 0)) [] [] its X"
    unfolding end_comment_tokens option.sel
    by (simp add: parse.simps repeat_last_def lazy_mark_def control_escape_def next_group_def adigit_def in_range_def code_def)
      (rule exI, rule refl)
  then obtain its where "parse 1 [] [] [] (the (tokens (bs ''};*`s*(//|/`*).*`bnamespace`s+'')) @ X) =
      parse (Suc (Suc 0)) [] [] (literal_items w @ its) (the (tokens (bs ''[`*/`.```s]*$'')))"
    unfolding X_def parse_literal_tokens by blast
  then show ?thesis
    unfolding compile_around [OF assms end_comment_tokens] X_def end_comment_tokens option.sel
    by (simp add: parse.simps parse_set.simps repeat_last_def lazy_mark_def)
qed

lemma name_chars_nonzero: "list_all name_char w \<Longrightarrow> list_all (\<lambda>c. code c \<noteq> 0) w"
  by (auto simp: list_all_iff name_char_def word_char_def aalpha_def adigit_def in_range_def code_def)

text \<open>The pattern for the comment that ends a namespace compiles for every namespace on the parser's stack, as its name is escaped.\<close>

lemma namespace_end_compiles:
  assumes "wf_nesting st" "b \<in> set (blocks st)" "kind b = NamespaceBlock name start"
  shows "re_compile (bs ''};*`s*(//|/`*).*`bnamespace`s+'' @ re_escape name @ bs ''[`*/`.```s]*$'') \<noteq> None"
  using assms by (intro end_comment_compiles name_chars_nonzero) (auto simp: wf_nesting_def list_all_iff wf_block_def)

lemma split_str_chars: "p \<in> set (split_str sep acc s) \<Longrightarrow> set p \<subseteq> set acc \<union> set s"
proof (induction sep acc s rule: split_str.induct)
  case (1 sep acc s)
  show ?case
  proof (cases s)
    case Nil
    with "1.prems" show ?thesis by (simp add: split_str.simps)
  next
    case (Cons c t)
    show ?thesis
    proof (cases "sep \<noteq> [] \<and> startswith s sep")
      case True
      with "1.prems" Cons have "p = rev acc \<or> p \<in> set (split_str sep [] (drop (length sep) s))"
        by (subst (asm) split_str.simps) auto
      with "1.IH"(1) [OF Cons True] set_drop_subset [of "length sep" s] show ?thesis by auto
    next
      case False
      with "1.prems" Cons have "p \<in> set (split_str sep (c # acc) t)"
        by (subst (asm) split_str.simps) auto
      with "1.IH"(2) [OF Cons False] Cons show ?thesis by auto
    qed
  qed
qed

lemma split_str_nonempty: "split_str sep acc s \<noteq> []"
  by (induction sep acc s rule: split_str.induct) (subst split_str.simps, auto split: list.split)

lemma explicit_errors_no_raise:
  "list_all name_char name \<Longrightarrow> list_all (\<lambda>a. a \<noteq> Raise x) (explicit_errors fn line n name)"
proof -
  assume name: "list_all name_char name"
  let ?base = "last (split_str ''::'' [] name)"
  have "set ?base \<subseteq> set name"
    using split_str_chars [OF last_in_set [OF split_str_nonempty], of "''::''" "[]" name] by simp
  with name have "list_all (\<lambda>c. code c \<noteq> 0) ?base"
    by (intro name_chars_nonzero) (auto simp: list_all_iff)
  then show ?thesis
    using constructor_pattern_compiles [of ?base] reference_pattern_compiles [of ?base]
    by (auto simp: explicit_errors_def Let_def split: option.split)
qed

lemma innermost_in: "innermost_class_block st = Some (b, c) \<Longrightarrow> b \<in> set st \<and> kind b = ClassBlock c"
  by (induction st) (auto split: block_kind.splits)

lemma format_string_no_raise:
  "list_all (\<lambda>a. a \<noteq> Raise x) (format_string_errors fn line n)"
  "list_all (\<lambda>a. a \<noteq> Raise x) (declaration_errors fn line n)"
  by (simp_all add: format_string_errors_def declaration_errors_def Let_def)

text \<open>
  With a well-formed stack of blocks the pattern for the constructor of the innermost class
  compiles, whatever its name.
\<close>

lemma nonstandard_no_raise:
  assumes "wf_nesting nest"
  shows "Raise x \<notin> set (CheckForNonStandardConstructs fn clean n nest)"
proof -
  have "list_all (\<lambda>a. a \<noteq> Raise x) (CheckForNonStandardConstructs fn clean n nest)"
  proof (cases "innermost_class_block (blocks nest)")
    case (Some bc)
    obtain b c where bc: "bc = (b, c)" by (cases bc)
    with innermost_in Some have "b \<in> set (blocks nest)" "kind b = ClassBlock c" by blast+
    with assms have "list_all name_char (class_name c)" by (auto simp: wf_nesting_def list_all_iff wf_block_def)
    with Some bc show ?thesis
      by (simp add: CheckForNonStandardConstructs_def Let_def format_string_no_raise explicit_errors_no_raise)
  qed (simp add: CheckForNonStandardConstructs_def Let_def format_string_no_raise)
  then show ?thesis unfolding list_all_iff by blast
qed

lemma wf_CheckForNonStandardConstructs:
  assumes "wf_nesting nest"
  shows "wf_acts (CheckForNonStandardConstructs fn clean n nest)"
proof -
  have "list_all check_act (explicit_errors fn line n name)" for line name
    by (simp add: explicit_errors_def Let_def check_act_def split: option.split)
  then have "list_all check_act (CheckForNonStandardConstructs fn clean n nest)"
    by (simp add: CheckForNonStandardConstructs_def format_string_errors_def declaration_errors_def
        Let_def check_act_def split: option.split)
  then show ?thesis
    using nonstandard_no_raise [OF assms, of ReError fn clean n] by (auto simp: list_all_iff check_act_def)
qed

end
