(* ===== verification/Options.thy ===== *)
theory Options
  imports Report
begin

text \<open>
  The command line: \<open>ParseArguments\<close> with the long options of the standard library's
  \<open>getopt\<close> it uses, \<open>PrintUsage\<close> and \<open>PrintCategories\<close>, and the accessors of the
  module's state.
\<close>

subsection \<open>Accessors\<close>

definition OutputFormat :: "module_state \<Rightarrow> string" where "OutputFormat g = output_format (lint g)"
definition VerboseLevel :: "module_state \<Rightarrow> int" where "VerboseLevel g = verbose_level (lint g)"
definition Quiet :: "module_state \<Rightarrow> bool" where "Quiet g = quiet (lint g)"
definition Filters :: "module_state \<Rightarrow> string list" where "Filters g = filters (lint g)"

definition set_output_format :: "string \<Rightarrow> module_state \<Rightarrow> module_state" where
  "set_output_format f g = g\<lparr>lint := SetOutputFormat f (lint g)\<rparr>"

definition set_verbose_level :: "int \<Rightarrow> module_state \<Rightarrow> module_state" where
  "set_verbose_level v g = g\<lparr>lint := snd (SetVerboseLevel v (lint g))\<rparr>"

definition set_counting_style :: "string \<Rightarrow> module_state \<Rightarrow> module_state" where
  "set_counting_style c g = g\<lparr>lint := SetCountingStyle c (lint g)\<rparr>"

definition set_quiet :: "bool \<Rightarrow> module_state \<Rightarrow> module_state" where
  "set_quiet q g = g\<lparr>lint := SetQuiet q (lint g)\<rparr>"

definition set_filters :: "string \<Rightarrow> module_state \<Rightarrow> (exn \<times> module_state) + module_state" where
  "set_filters flag g = (case SetFilters flag (lint g) of
      Inl (x, st) \<Rightarrow> Inl (x, g\<lparr>lint := st\<rparr>) | Inr st \<Rightarrow> Inr (g\<lparr>lint := st\<rparr>))"

definition print_err :: "string \<Rightarrow> module_state \<Rightarrow> module_state" where
  "print_err text g = g\<lparr>stderr := stderr g @ [text]\<rparr>"

subsection \<open>Usage\<close>

definition usage_lines :: "string list" where
  \<open>usage_lines =
    [''Syntax: cpplint.py [--verbose=#] [--output=vs7] [--filter=-x,+y,...]'',
     ''                   [--counting=total|toplevel|detailed]'',
     ''                   [--quiet]'',
     ''        <file> [file] ...'',
     [],
     ''  The style guidelines this tries to follow are those in'',
     ''    http://km.oa.com/group/2574/articles/show/51469'',
     [],
     ''  Every problem is given a confidence score from 1-5, with 5 meaning we are'',
     ''  certain of the problem, and 1 meaning it could be a legitimate construct.'',
     ''  This will miss some errors, and is not a substitute for a code review.'',
     [],
     ''  To suppress false-positive errors of a certain category, add a'',
     (''  '' @ squote @ ''NOLINT(category)'' @ squote @ '' comment to the line.  NOLINT or NOLINT(*)''),
     ''  suppresses errors of all categories on that line.'',
     [],
     ''  The files passed in will be linted; at least one file must be provided.'',
     ''  Linted extensions are .cc, .cpp, and .h.  Other file types will be ignored.'',
     [],
     ''  Flags:'',
     [],
     ''    output=vs7'',
     ''      By default, the output is formatted to ease emacs parsing.  Visual Studio'',
     ''      compatible output (vs7) may also be used.  Other formats are unsupported.'',
     [],
     ''    verbose=#'',
     ''      Specify a number 0-5 to restrict errors to certain verbosity levels.'',
     [],
     ''    filter=-x,+y,...'',
     ''      Specify a comma-separated list of category-filters to apply: only'',
     ''      error messages whose category names pass the filters will be printed.'',
     ''      (Category names are printed with the message and look like'',
     ''      "[whitespace/indent]".)  Filters are evaluated left to right.'',
     ''      "-FOO" and "FOO" means "do not print categories that start with FOO".'',
     ''      "+FOO" means "do print categories that start with FOO".'',
     [],
     ''      Examples: --filter=-whitespace,+whitespace/braces'',
     ''                --filter=whitespace,runtime/printf,+runtime/printf_format'',
     ''                --filter=-,+build/include_what_you_use'',
     [],
     ''      To see a list of all the categories used in cpplint, pass no arg:'',
     ''         --filter='',
     [],
     ''    counting=total|toplevel|detailed'',
     ''      The total number of errors found is always printed. If'',
     (''      '' @ squote @ ''toplevel'' @ squote @ '' is provided, then the count of errors in each of''),
     (''      the top-level categories like '' @ squote @ ''build'' @ squote @ '' and '' @ squote @ ''whitespace'' @ squote @ '' will''),
     (''      also be printed. If '' @ squote @ ''detailed'' @ squote @ '' is provided, then a count''),
     (''      is provided for each category like '' @ squote @ ''build/class'' @ squote @ ''.''),
     [],
     ''    quiet'',
     (''      Don'' @ squote @ ''t echo '' @ squote @ ''Done process <filename>'' @ squote),
     []]\<close>

definition USAGE :: string where
  "USAGE = newline @ concat (map (\<lambda>l. l @ newline) usage_lines)"

definition PrintUsage :: "string option \<Rightarrow> module_state \<Rightarrow> exn \<times> module_state" where
  "PrintUsage message g =
     (SystemExit (case message of
        None \<Rightarrow> ExitStatus 1
      | Some m \<Rightarrow> if m = [] then ExitStatus 1 else ExitMessage (newline @ ''FATAL ERROR: '' @ m)),
      print_err USAGE g)"

definition PrintCategories :: "module_state \<Rightarrow> exn \<times> module_state" where
  "PrintCategories g =
     (SystemExit (ExitStatus 0), print_err (concat (map (\<lambda>cat. ''  '' @ cat @ newline) ERROR_CATEGORIES)) g)"

subsection \<open>getopt with long options\<close>

text \<open>An option may be cut short to a prefix that only one option has; \<open>None\<close> is GetoptError.\<close>

definition long_has_args :: "string list \<Rightarrow> string \<Rightarrow> (bool \<times> string) option" where
  "long_has_args longopts flag =
     (let ps = filter (\<lambda>o'. startswith o' flag) longopts
      in if List.member ps flag then Some (False, flag)
         else if List.member ps (flag @ ''='') then Some (True, flag)
         else case ps of
                [u] \<Rightarrow> Some (if endswith u ''='' then (True, butlast u) else (False, u))
              | _ \<Rightarrow> None)"

definition split_eq :: "string \<Rightarrow> string \<times> string option" where
  "split_eq flag = (case find_opt flag ''='' of None \<Rightarrow> (flag, None)
     | Some i \<Rightarrow> (take i flag, Some (drop (i + 1) flag)))"

definition do_long :: "string list \<Rightarrow> string \<Rightarrow> string list \<Rightarrow> ((string \<times> string) \<times> string list) option" where
  "do_long longopts flag args =
     (case split_eq flag of (name, optarg) \<Rightarrow>
        (case long_has_args longopts name of
           None \<Rightarrow> None
         | Some (has_arg, full) \<Rightarrow>
             (case (has_arg, optarg, args) of
                (True, Some v, _) \<Rightarrow> Some ((''--'' @ full, v), args)
              | (True, None, a # rest) \<Rightarrow> Some ((''--'' @ full, a), rest)
              | (True, None, []) \<Rightarrow> None
              | (False, None, _) \<Rightarrow> Some ((''--'' @ full, []), args)
              | (False, Some v, _) \<Rightarrow> None)))"

lemma do_long_shorter: "do_long longopts flag args = Some (o', rest) \<Longrightarrow> length rest \<le> length args"
  by (auto simp: do_long_def split: option.splits prod.splits bool.splits list.splits)

text \<open>No short options: a single dash with a letter is an error, and a lone dash is a file.\<close>

function getopt :: "string list \<Rightarrow> string list \<Rightarrow> ((string \<times> string) list \<times> string list) option" where
  "getopt longopts [] = Some ([], [])"
| "getopt longopts (a # args) =
     (if \<not> startswith a ''-'' \<or> a = ''-'' then Some ([], a # args)
      else if a = ''--'' then Some ([], args)
      else if startswith a ''--'' then
        (case do_long longopts (drop 2 a) args of
           None \<Rightarrow> None
         | Some (o', rest) \<Rightarrow> map_option (\<lambda>(os, files). (o' # os, files)) (getopt longopts rest))
      else None)"
  by pat_completeness auto
termination
  by (relation "measure (\<lambda>(longopts, args). length args)") (auto dest!: do_long_shorter)

declare getopt.simps(2) [simp del]

subsection \<open>Numbers\<close>

definition digit_value :: "char \<Rightarrow> nat" where "digit_value c = nat (code c - 48)"

definition nat_of_digits :: "string \<Rightarrow> nat" where
  "nat_of_digits s = foldl (\<lambda>n c. 10 * n + digit_value c) 0 s"

text \<open>\<open>int(s)\<close>: spaces around, one sign, digits; \<open>None\<close> is ValueError.\<close>

definition py_int :: "string \<Rightarrow> int option" where
  "py_int s =
     (let t = strip_by aspace s; neg = startswith t ''-'';
          ds = (if neg \<or> startswith t ''+'' then tl t else t)
      in if ds = [] \<or> \<not> list_all adigit ds then None
         else Some (if neg then - int (nat_of_digits ds) else int (nat_of_digits ds)))"

subsection \<open>ParseArguments\<close>

record settings =
  opt_verbosity :: int
  opt_output :: string
  opt_filters :: string
  opt_counting :: string
  opt_quiet :: bool

definition long_options :: "string list" where
  "long_options = [''help'', ''output='', ''verbose='', ''counting='', ''filter='', ''quiet'']"

definition apply_option :: "string \<Rightarrow> string \<Rightarrow> settings \<Rightarrow> module_state \<Rightarrow> (exn \<times> module_state) + settings" where
  "apply_option flag val s g =
     (if flag = ''--help'' then Inl (PrintUsage None g)
      else if flag = ''--output'' then
        (if \<not> List.member [''emacs'', ''vs7''] val
         then Inl (PrintUsage (Some ''The only allowed output formats are emacs and vs7.'') g)
         else Inr (s\<lparr>opt_output := val\<rparr>))
      else if flag = ''--verbose'' then
        (case py_int val of
           None \<Rightarrow> Inl (ValueError (''invalid literal for int() with base 10: '' @ squote @ val @ squote), g)
         | Some v \<Rightarrow> Inr (s\<lparr>opt_verbosity := v\<rparr>))
      else if flag = ''--filter'' then
        (if val = [] then Inl (PrintCategories g) else Inr (s\<lparr>opt_filters := val\<rparr>))
      else if flag = ''--counting'' then
        (if \<not> List.member [''total'', ''toplevel'', ''detailed''] val
         then Inl (PrintUsage (Some ''Valid counting options are total, toplevel, and detailed'') g)
         else Inr (s\<lparr>opt_counting := val\<rparr>))
      else if flag = ''--quiet'' then Inr (s\<lparr>opt_quiet := True\<rparr>)
      else Inr s)"

fun apply_options :: "(string \<times> string) list \<Rightarrow> settings \<Rightarrow> module_state \<Rightarrow> (exn \<times> module_state) + settings" where
  "apply_options [] s g = Inr s"
| "apply_options ((flag, val) # os) s g =
     (case apply_option flag val s g of Inl r \<Rightarrow> Inl r | Inr s' \<Rightarrow> apply_options os s' g)"

definition start_settings :: "module_state \<Rightarrow> settings" where
  "start_settings g = \<lparr>opt_verbosity = VerboseLevel g, opt_output = OutputFormat g, opt_filters = [],
     opt_counting = [], opt_quiet = False\<rparr>"

definition install_settings :: "settings \<Rightarrow> module_state \<Rightarrow> (exn \<times> module_state) + module_state" where
  "install_settings s g =
     (case set_filters (opt_filters s) (set_verbose_level (opt_verbosity s) (set_output_format (opt_output s) g)) of
        Inl r \<Rightarrow> Inl r
      | Inr g \<Rightarrow> Inr (set_quiet (opt_quiet s) (set_counting_style (opt_counting s) g)))"

definition ParseArguments :: "string list \<Rightarrow> module_state \<Rightarrow> (exn \<times> module_state) + (string list \<times> module_state)" where
  "ParseArguments args g =
     (case getopt long_options args of
        None \<Rightarrow> Inl (PrintUsage (Some ''Invalid arguments.'') g)
      | Some (opts, filenames) \<Rightarrow>
          (case apply_options opts (start_settings g) g of
             Inl r \<Rightarrow> Inl r
           | Inr s \<Rightarrow>
               if filenames = [] then Inl (PrintUsage (Some ''No files were specified.'') g)
               else map_sum id (\<lambda>g. (filenames, g)) (install_settings s g)))"

end
