(* ===== verification/Driver.thy ===== *)
theory Driver
  imports BlockFacts Options
begin

text \<open>
  The program: one line through all its checks (\<open>ProcessLine\<close>), one file (\<open>ProcessFileData\<close>,
  \<open>ProcessFile\<close> with the two decodings of \<open>ReadWithEncodingDetect\<close>), and \<open>main\<close>.
\<close>

subsection \<open>One line\<close>

text \<open>The three states \<open>ProcessFileData\<close> makes for a file and passes to every line.\<close>

record checkers =
  include_st :: include_state
  function_st :: function_state
  nesting_st :: nesting

definition start_checkers :: checkers where
  "start_checkers = \<lparr>include_st = IncludeState, function_st = FunctionState, nesting_st = NestingState\<rparr>"

definition inside_asm :: "nesting \<Rightarrow> bool" where
  "inside_asm st \<longleftrightarrow> (case blocks st of [] \<Rightarrow> False | b # _ \<Rightarrow> inline_asm b \<noteq> NO_ASM)"

text \<open>Inside assembly a line is only read for its blocks. \<open>v\<close> is the verbosity.\<close>

definition ProcessLine ::
    "env \<Rightarrow> int \<Rightarrow> string \<Rightarrow> string \<Rightarrow> cleansed_lines \<Rightarrow> nat \<Rightarrow> checkers \<Rightarrow> act list \<times> checkers" where
  "ProcessLine e v fn ext clean line st =
     (let nolint_acts = ParseNolintSuppressions fn (raw_lines clean ! line) (int line);
          (nest_acts, nest) = Update fn clean line (nesting_st st)
      in if inside_asm nest then (nolint_acts @ nest_acts, st\<lparr>nesting_st := nest\<rparr>)
         else
           let (function_acts, funs) = CheckForFunctionLengths v fn clean line (function_st st);
               (language_acts, incs) = CheckLanguage e fn clean line ext (include_st st)
           in (nolint_acts @ nest_acts @ function_acts @
               CheckForMultilineCommentsAndStrings fn clean line @
               CheckStyle e fn clean line ext nest @
               language_acts @
               CheckForNonStandardConstructs fn clean line nest @
               CheckPosixThreading fn clean line @
               CheckInvalidIncrement fn clean line @
               CheckMakePairUsesDeduction fn clean line,
               \<lparr>include_st = incs, function_st = funs, nesting_st = nest\<rparr>))"

primrec run_lines :: "(nat \<Rightarrow> 's \<Rightarrow> act list \<times> 's) \<Rightarrow> nat list \<Rightarrow> 's \<Rightarrow> act list \<times> 's" where
  "run_lines step [] st = ([], st)"
| "run_lines step (n # ns) st =
     (let (now, st) = step n st; (later, st) = run_lines step ns st in (now @ later, st))"

subsection \<open>One file\<close>

definition marked :: "string list \<Rightarrow> string list" where
  "marked lines = ''// marker so line numbers and indices both start at 1'' # lines @
     [''// marker so line numbers end in a known way'']"

text \<open>The checks of a file once its \<open>GLOBAL_NOLINT\<close> comments are parsed; the lines are marked.\<close>

definition file_acts :: "env \<Rightarrow> int \<Rightarrow> string \<Rightarrow> string \<Rightarrow> string list \<Rightarrow> act list" where
  "file_acts e v fn ext lines =
     (let (comment_acts, kept) = RemoveMultiLineComments fn lines;
          clean = CleansedLines kept;
          (line_acts, st) = run_lines (ProcessLine e v fn ext clean) [0..<length kept] start_checkers
      in CheckForCopyright e fn lines @
         emit_if (IsHeaderFileExtension ext) (CheckForHeaderGuard e fn lines) @
         comment_acts @ line_acts @
         CheckClassFinished fn (nesting_st st) @
         CheckForIncludeWhatYouUse e fn clean (get_all (include_st st)) @
         CheckForUnicodeReplacementCharacters fn (map code_points kept) @
         CheckForNewlineAtEOF fn kept)"

definition ProcessFileData ::
    "env \<Rightarrow> string \<Rightarrow> string \<Rightarrow> string list \<Rightarrow> module_state \<Rightarrow> (exn \<times> module_state) + module_state" where
  "ProcessFileData e fn ext lines g =
     (case run_acts e (ParseGlobalNolintSuppressions fn (marked lines)) g of
        Inl r \<Rightarrow> Inl r
      | Inr g \<Rightarrow> run_acts e (file_acts e (VerboseLevel g) fn ext (marked lines)) (ResetNolintSuppressions g))"

text \<open>The text decoded in two ways: the one with more lines wins. \<open>None\<close> is IOError.\<close>

definition ReadWithEncodingDetect :: "env \<Rightarrow> string \<Rightarrow> string list option" where
  "ReadWithEncodingDetect e fn =
     (case (read_utf8 e fn, read_gbk e fn) of
        (Some u, Some g) \<Rightarrow>
          let utf8_lines = split_char (CHR 0x0A) u; gbk_lines = split_char (CHR 0x0A) g
          in Some (if length gbk_lines \<le> length utf8_lines then utf8_lines else gbk_lines)
      | _ \<Rightarrow> None)"

definition read_lines :: "env \<Rightarrow> string \<Rightarrow> string list option" where
  "read_lines e fn =
     (if fn = ''-'' then Some (split_char (CHR 0x0A) (read_stdin e)) else ReadWithEncodingDetect e fn)"

definition carriage_return :: string where "carriage_return = [CHR 0x0D]"

definition strip_cr :: "string \<Rightarrow> string" where
  "strip_cr l = (if endswith l carriage_return then rstrip_by (\<lambda>c. c = CHR 0x0D) l else l)"

definition tell :: "string \<Rightarrow> module_state \<Rightarrow> module_state" where
  "tell text g = (if Quiet g then g else print_err text g)"

definition list_repr :: "string list \<Rightarrow> string" where
  "list_repr xs = ''['' @ join '', '' (map (\<lambda>x. squote @ x @ squote) xs) @ '']''"

definition check_lines ::
    "env \<Rightarrow> string \<Rightarrow> string \<Rightarrow> string list \<Rightarrow> module_state \<Rightarrow> (exn \<times> module_state) + module_state" where
  "check_lines e fn ext lines g =
     (case ProcessFileData e fn ext (map strip_cr lines) g of
        Inl r \<Rightarrow> Inl r
      | Inr g \<Rightarrow>
          run_acts e (emit_if (list_ex (\<lambda>l. endswith l carriage_return) lines \<and> linesep e \<noteq> carriage_return @ newline)
            [Err fn 0 ''whitespace/newline'' 1
               (''One or more unexpected '' @ bs ''`r'' @ '' (^M) found;better to use only a '' @ bs ''`n'')]) g)"

definition ProcessFile ::
    "env \<Rightarrow> string \<Rightarrow> int \<Rightarrow> module_state \<Rightarrow> (exn \<times> module_state) + module_state" where
  "ProcessFile e fn vlevel g =
     (let g = set_verbose_level vlevel g
      in case read_lines e fn of
           None \<Rightarrow> Inr (tell (''Skipping input '' @ squote @ fn @ squote @ '': Can'' @ squote @
                              ''t open for reading'' @ newline) g)
         | Some lines \<Rightarrow>
             map_sum id (tell (''Done processing '' @ fn @ newline))
               (if fn \<noteq> ''-'' \<and> \<not> List.member ALL_EXTENSIONS (file_extension fn)
                then Inr (tell (''Ignoring '' @ fn @ ''; not a '' @ list_repr ALL_EXTENSIONS @ '' file'' @ newline) g)
                else check_lines e fn (file_extension fn) lines g))"

subsection \<open>The program\<close>

text \<open>Once read, standard input is at its end.\<close>

definition after_reading :: "string \<Rightarrow> env \<Rightarrow> env" where
  "after_reading fn e = (if fn = ''-'' then e\<lparr>read_stdin := []\<rparr> else e)"

fun process_files :: "env \<Rightarrow> string list \<Rightarrow> module_state \<Rightarrow> (exn \<times> module_state) + module_state" where
  "process_files e [] g = Inr g"
| "process_files e (fn # fns) g =
     (case ProcessFile e fn (VerboseLevel g) g of
        Inl r \<Rightarrow> Inl r
      | Inr g \<Rightarrow> process_files (after_reading fn e) fns g)"

definition start_state :: module_state where
  "start_state = \<lparr>lint = init_lint_state, error_suppressions = Map.empty, stderr = []\<rparr>"

text \<open>\<open>main\<close> always leaves by an exception; \<open>sys.exit\<close> of a truth value is the status 0 or 1.\<close>

definition main :: "env \<Rightarrow> string list \<Rightarrow> module_state \<Rightarrow> exn \<times> module_state" where
  "main e args g =
     (case ParseArguments args g of
        Inl r \<Rightarrow> r
      | Inr (filenames, g) \<Rightarrow>
          (case process_files e filenames (g\<lparr>lint := ResetErrorCounts (lint g)\<rparr>) of
             Inl r \<Rightarrow> r
           | Inr g \<Rightarrow>
               let g = PrintErrorCounts e g
               in (SystemExit (ExitStatus (if 0 < error_count (lint g) then 1 else 0)), g)))"

end
