(* ===== verification/OptionsFacts.thy ===== *)
theory OptionsFacts
  imports Options
begin

text \<open>
  The command line read back: numbers, lists of filters and a whole set of settings come out
  of \<open>ParseArguments\<close> as they were written.
\<close>

subsection \<open>Numbers\<close>

lemma code_char_of: "0 \<le> i \<Longrightarrow> i < 256 \<Longrightarrow> code (char_of i) = i" for i :: int
  by (simp add: code_def)

lemma code_digit: "d < 10 \<Longrightarrow> code (char_of (48 + d)) = 48 + int d" for d :: nat
proof -
  assume "d < 10"
  then have "(of_char (char_of (48 + d) :: char) :: nat) = 48 + d" by simp
  then have "int (of_char (char_of (48 + d) :: char)) = 48 + int d" by simp
  then show ?thesis by (simp only: code_def of_nat_of_char)
qed

lemma digit_value_digit: "d < 10 \<Longrightarrow> digit_value (char_of (48 + d)) = d" for d :: nat
  by (simp add: digit_value_def code_digit)

lemma adigit_digit: "d < 10 \<Longrightarrow> adigit (char_of (48 + d))" for d :: nat
  by (simp add: adigit_def in_range_def code_digit)

lemma dec_nat_digits: "dec_nat n \<noteq> [] \<and> list_all adigit (dec_nat n) \<and> nat_of_digits (dec_nat n) = n"
proof (induction n rule: dec_nat.induct)
  case (1 n)
  show ?case
  proof (cases "n < 10")
    case True
    then show ?thesis by (simp add: dec_nat.simps nat_of_digits_def digit_value_digit adigit_digit)
  next
    case False
    moreover have "dec_nat n = dec_nat (n div 10) @ [char_of (48 + n mod 10)]"
      using False by (subst dec_nat.simps) simp
    ultimately show ?thesis
      using 1 by (simp add: nat_of_digits_def digit_value_digit adigit_digit)
  qed
qed

lemma adigit_not_sign: "adigit c \<Longrightarrow> c \<noteq> CHR ''-'' \<and> c \<noteq> CHR ''+'' \<and> \<not> aspace c"
  by (auto simp: adigit_def aspace_def in_range_def code_def)

lemma strip_by_none: "list_all (\<lambda>c. \<not> p c) s \<Longrightarrow> strip_by p s = s"
proof -
  assume "list_all (\<lambda>c. \<not> p c) s"
  moreover have "dropWhile p xs = xs" if "list_all (\<lambda>c. \<not> p c) xs" for xs
    using that by (cases xs) auto
  ultimately show ?thesis by (simp add: strip_by_def rstrip_by_def lstrip_by_def)
qed

theorem py_int_dec: "py_int (dec v) = Some v"
proof -
  have d: "list_all (\<lambda>c. \<not> aspace c) (dec_nat n)" "\<not> startswith (dec_nat n) ''-''"
    "\<not> startswith (dec_nat n) ''+''" for n
    using dec_nat_digits [of n] adigit_not_sign
    by (auto simp: list_all_iff neq_Nil_conv)
  then have "strip_by aspace (dec_nat n) = dec_nat n"
    "strip_by aspace (CHR ''-'' # dec_nat n) = CHR ''-'' # dec_nat n" for n
    by (auto intro!: strip_by_none simp: aspace_def in_range_def code_def)
  then show ?thesis
    using d dec_nat_digits by (simp add: py_int_def Let_def dec_def)
qed

subsection \<open>Lists of filters\<close>

lemma split_char_go_append:
  "sep \<notin> set x \<Longrightarrow> split_char_go sep acc (x @ sep # s) = (rev acc @ x) # split_char_go sep [] s"
  "sep \<notin> set x \<Longrightarrow> split_char_go sep acc x = [rev acc @ x]"
  by (induction x arbitrary: acc) auto

lemma split_char_join:
  "fs \<noteq> [] \<Longrightarrow> list_all (\<lambda>f. sep \<notin> set f) fs \<Longrightarrow> split_char sep (join [sep] fs) = fs"
  by (induction fs rule: induct_list012) (auto simp: split_char_def split_char_go_append)

definition plain_filter :: "string \<Rightarrow> bool" where
  "plain_filter f \<longleftrightarrow> signed_filter f \<and> CHR '','' \<notin> set f \<and> strip_by aspace f = f"

lemma SetFilters_join:
  assumes "list_all plain_filter fs"
  shows "SetFilters (join '','' fs) st = Inr (st\<lparr>filters := DEFAULT_FILTERS @ fs\<rparr>)"
proof -
  have "filter (\<lambda>f. f \<noteq> []) (map (strip_by aspace) (split_char CHR '','' (join '','' fs))) = fs"
  proof (cases "fs = []")
    case True
    then show ?thesis by (simp add: split_char_def)
  next
    case False
    have "map (strip_by aspace) fs = fs" "filter (\<lambda>f. f \<noteq> []) fs = fs" "list_all (\<lambda>f. CHR '','' \<notin> set f) fs"
      using assms by (auto simp: list_all_iff plain_filter_def signed_filter_iff
          intro: map_idI filter_True)
    with False show ?thesis by (simp add: split_char_join)
  qed
  moreover have "filter (\<lambda>f. \<not> signed_filter f) (DEFAULT_FILTERS @ fs) = []"
    using assms
    by (auto simp: list_all_iff plain_filter_def DEFAULT_FILTERS_def signed_filter_iff filter_empty_conv)
  ultimately show ?thesis by (simp add: SetFilters_def Let_def)
qed

subsection \<open>The options\<close>

definition render_options :: "int \<Rightarrow> string \<Rightarrow> string \<Rightarrow> string list \<Rightarrow> bool \<Rightarrow> string list" where
  "render_options verbosity output style fs q =
     [''--verbose='' @ dec verbosity, ''--output='' @ output, ''--counting='' @ style] @
     emit_if (fs \<noteq> []) [''--filter='' @ join '','' fs] @ emit_if q [''--quiet'']"

lemma do_long_value:
  "do_long long_options (''verbose='' @ v) args = Some ((''--verbose'', v), args)"
  "do_long long_options (''output='' @ v) args = Some ((''--output'', v), args)"
  "do_long long_options (''counting='' @ v) args = Some ((''--counting'', v), args)"
  "do_long long_options (''filter='' @ v) args = Some ((''--filter'', v), args)"
  "do_long long_options ''quiet'' args = Some ((''--quiet'', []), args)"
  by (simp_all add: do_long_def split_eq_def long_has_args_def long_options_def)

lemma getopt_long:
  "do_long longopts a args = Some (r, rest) \<Longrightarrow> a \<noteq> [] \<Longrightarrow>
   getopt longopts ((''--'' @ a) # args) =
     map_option (\<lambda>(os, files). (r # os, files)) (getopt longopts rest)"
  by (simp add: getopt.simps(2))

lemma getopt_files: "files \<noteq> [] \<Longrightarrow> \<not> startswith (hd files) ''-'' \<Longrightarrow> getopt longopts files = Some ([], files)"
  by (cases files) (auto simp: getopt.simps(2))

lemma getopt_render:
  assumes "files \<noteq> []" "\<not> startswith (hd files) ''-''"
  shows "getopt long_options (render_options verbosity output style fs q @ files) =
    Some ([(''--verbose'', dec verbosity), (''--output'', output), (''--counting'', style)] @
          emit_if (fs \<noteq> []) [(''--filter'', join '','' fs)] @ emit_if q [(''--quiet'', [])], files)"
  using getopt_files [OF assms] getopt_long [OF do_long_value(1)] getopt_long [OF do_long_value(2)]
    getopt_long [OF do_long_value(3)] getopt_long [OF do_long_value(4)] getopt_long [OF do_long_value(5)]
  by (cases q; cases "fs = []") (simp_all add: render_options_def)

lemma join_Nil_iff: "list_all plain_filter fs \<Longrightarrow> join '','' fs = [] \<longleftrightarrow> fs = []"
  by (induction fs rule: induct_list012) (auto simp: plain_filter_def signed_filter_iff)

text \<open>C4: a command line written from a verbosity, an output format, a counting style, a list of signed filters and the quiet flag, followed by files, is parsed back into exactly those settings, with the default filters in front, and the same files; nothing else of the state changes.\<close>

theorem ParseArguments_roundtrip:
  assumes "output = ''emacs'' \<or> output = ''vs7''"
    and "style = ''total'' \<or> style = ''toplevel'' \<or> style = ''detailed''"
    and "list_all plain_filter fs"
    and "files \<noteq> []" and "\<not> startswith (hd files) ''-''"
  shows "ParseArguments (render_options verbosity output style fs q @ files) g =
    Inr (files, g\<lparr>lint := (lint g)\<lparr>verbose_level := verbosity, filters := DEFAULT_FILTERS @ fs,
      counting := style, quiet := q, output_format := output\<rparr>\<rparr>)"
proof -
  have "apply_options ([(''--verbose'', dec verbosity), (''--output'', output), (''--counting'', style)] @
          emit_if (fs \<noteq> []) [(''--filter'', join '','' fs)] @ emit_if q [(''--quiet'', [])]) (start_settings g) g =
      Inr \<lparr>opt_verbosity = verbosity, opt_output = output, opt_filters = join '','' fs,
           opt_counting = style, opt_quiet = q\<rparr>"
    using join_Nil_iff [OF assms(3)]
    by (cases q; cases "fs = []") (simp_all add: apply_option_def start_settings_def py_int_dec, use assms(1,2) in auto)
  then show ?thesis
    using assms(4)
    by (simp add: ParseArguments_def getopt_render [OF assms(4,5)] install_settings_def set_filters_def
        set_verbose_level_def set_output_format_def set_counting_style_def set_quiet_def
        SetFilters_join [OF assms(3)] SetVerboseLevel_def SetOutputFormat_def SetCountingStyle_def SetQuiet_def)
qed

lemma ParseArguments_roundtrip_witness:
  "ParseArguments [''--verbose=3'', ''--output=vs7'', ''--counting=total'', ''--filter=-whitespace,+build'', ''--quiet'', ''a.cc'']
     \<lparr>lint = init_lint_state, error_suppressions = Map.empty, stderr = []\<rparr> =
   Inr ([''a.cc''], \<lparr>lint = init_lint_state\<lparr>verbose_level := 3,
      filters := DEFAULT_FILTERS @ [''-whitespace'', ''+build''], counting := ''total'', quiet := True, output_format := ''vs7''\<rparr>,
      error_suppressions = Map.empty, stderr = []\<rparr>)"
proof -
  have r: "render_options 3 ''vs7'' ''total'' [''-whitespace'', ''+build''] True @ [''a.cc''] =
    [''--verbose=3'', ''--output=vs7'', ''--counting=total'', ''--filter=-whitespace,+build'', ''--quiet'', ''a.cc'']"
    by code_simp
  have p: "list_all plain_filter [''-whitespace'', ''+build'']" by code_simp
  have f: "\<not> startswith (hd [''a.cc'']) ''-''" by simp
  show ?thesis
    using ParseArguments_roundtrip [of "''vs7''" "''total''" "[''-whitespace'', ''+build'']" "[''a.cc'']" 3 True
      "\<lparr>lint = init_lint_state, error_suppressions = Map.empty, stderr = []\<rparr>"] p f
    unfolding r by simp
qed

end
