(* ===== verification/DriverFacts.thy ===== *)
theory DriverFacts
  imports Driver OptionsFacts
begin

text \<open>
  What holds of whole files and whole runs: the loop over the lines as an interface that the
  line checker implements, the exceptions a run can end in, what a file leaves behind in the
  state for the next, and the check of the last newline on the text of the file.
\<close>

subsection \<open>The loop over the lines\<close>

text \<open>
  What the loop of \<open>ProcessFileData\<close> relies on: a step keeps an invariant of the checkers'
  state, and under it only takes actions of one kind.
\<close>

locale line_step =
  fixes step :: "nat \<Rightarrow> 's \<Rightarrow> act list \<times> 's"
    and inv :: "'s \<Rightarrow> bool"
    and ok :: "act \<Rightarrow> bool"
  assumes step_inv: "inv st \<Longrightarrow> inv (snd (step n st))"
    and step_ok: "inv st \<Longrightarrow> list_all ok (fst (step n st))"
begin

lemma run_inv: "inv st \<Longrightarrow> inv (snd (run_lines step ns st))"
  by (induction ns arbitrary: st) (auto simp: split_def Let_def step_inv)

lemma run_ok: "inv st \<Longrightarrow> list_all ok (fst (run_lines step ns st))"
  by (induction ns arbitrary: st) (auto simp: split_def Let_def step_inv step_ok)

end

definition nested_well :: "checkers \<Rightarrow> bool" where
  "nested_well st \<longleftrightarrow> wf_nesting (nesting_st st)"

lemma nesting_ProcessLine:
  "nesting_st (snd (ProcessLine e v fn ext clean n st)) = snd (Update fn clean n (nesting_st st))"
  by (simp add: ProcessLine_def split_def Let_def)

lemma wf_ProcessLine: "nested_well st \<Longrightarrow> wf_acts (fst (ProcessLine e v fn ext clean n st))"
  by (simp add: ProcessLine_def split_def Let_def wf_ParseNolintSuppressions nested_well_def act_simps
      wf_CheckForNonStandardConstructs wf_nesting_Update)

interpretation lines_wf: line_step "ProcessLine e v fn ext clean" nested_well wf_act for e v fn ext clean
proof
  show "nested_well (snd (ProcessLine e v fn ext clean n st))" if "nested_well st" for n st
    using that by (simp add: nested_well_def nesting_ProcessLine wf_nesting_Update)
qed (rule wf_ProcessLine)

lemma nested_well_start: "nested_well start_checkers"
  by (simp add: nested_well_def start_checkers_def wf_NestingState)

subsection \<open>The exceptions of a file\<close>

lemma wf_RemoveMultiLineComments: "wf_acts (fst (RemoveMultiLineComments fn lines))"
  by (simp add: RemoveMultiLineComments_def wf_remove_comments_from)

lemma check_file_acts: "list_all check_act (file_acts e v fn ext lines)"
proof -
  have "list_all check_act (emit_if b (CheckForHeaderGuard e fn lines))" for b
    by (simp add: check_CheckForHeaderGuard)
  then show ?thesis
    by (simp add: file_acts_def split_def Let_def acts_of_wf act_simps wf_RemoveMultiLineComments
        lines_wf.run_ok nested_well_start)
qed

lemma wf_file_acts: "\<not> IsHeaderFileExtension ext \<Longrightarrow> wf_acts (file_acts e v fn ext lines)"
  by (simp add: file_acts_def split_def Let_def act_simps wf_RemoveMultiLineComments
      lines_wf.run_ok nested_well_start)

lemma filters_signed_Reset [simp]: "filters_signed (ResetNolintSuppressions g) = filters_signed g"
  by (simp add: filters_signed_def ResetNolintSuppressions_def)

definition run_ends :: "(exn \<Rightarrow> bool) \<Rightarrow> (module_state \<Rightarrow> bool) \<Rightarrow> (exn \<times> module_state) + module_state \<Rightarrow> bool" where
  "run_ends P Q r = (case r of Inl (x, g) \<Rightarrow> P x | Inr g \<Rightarrow> Q g)"

lemma run_ends_simps [simp]: "run_ends P Q (Inl (x, g)) = P x" "run_ends P Q (Inr g) = Q g"
  by (simp_all add: run_ends_def)

lemma run_ends_bind:
  "run_ends P Q r \<Longrightarrow> (\<And>g. Q g \<Longrightarrow> run_ends P Q' (f g)) \<Longrightarrow>
   run_ends P Q' (case r of Inl r \<Rightarrow> Inl r | Inr g \<Rightarrow> f g)"
  by (cases r) (auto simp: run_ends_def)

lemma run_acts_ends:
  "filters_signed g \<Longrightarrow> list_all global_act as \<Longrightarrow> run_ends expected_exn filters_signed (run_acts e as g)"
  "filters_signed g \<Longrightarrow> list_all lint_act as \<Longrightarrow> run_ends lint_exn filters_signed (run_acts e as g)"
  using signed_filters.run_safe [of g as e] signed_filters.run_inv [of g as e]
    linting.run_safe [of g as e] linting.run_inv [of g as e]
  by (auto simp: run_acts_def run_ends_def split: sum.split)

lemma ProcessFileData_ends:
  "filters_signed g \<Longrightarrow> run_ends lint_exn filters_signed (ProcessFileData e fn ext lines g)"
  unfolding ProcessFileData_def ParseGlobalNolintSuppressions_def
  by (rule run_ends_bind [where Q = filters_signed]) (simp_all add: run_acts_ends lint_acts_of global_acts check_file_acts)

lemma ProcessFileData_source_ends:
  "filters_signed g \<Longrightarrow> \<not> IsHeaderFileExtension ext \<Longrightarrow>
   run_ends expected_exn filters_signed (ProcessFileData e fn ext lines g)"
  unfolding ProcessFileData_def ParseGlobalNolintSuppressions_def
  by (rule run_ends_bind [where Q = filters_signed]) (simp_all add: run_acts_ends global_acts acts_of_wf wf_file_acts)

lemma filters_signed_lint: "filters_signed (g\<lparr>lint := st\<rparr>) \<longleftrightarrow> list_all signed_filter (filters st)"
  by (simp add: filters_signed_def)

lemma filters_signed_tell [simp]: "filters_signed (tell text g) = filters_signed g"
  by (simp add: tell_def print_err_def filters_signed_def)

lemma filters_signed_set [simp]: "filters_signed (set_verbose_level v g) = filters_signed g"
  by (simp add: set_verbose_level_def SetVerboseLevel_def filters_signed_def)

lemma run_ends_map [simp]:
  "run_ends P Q (map_sum id f r) = run_ends P (\<lambda>g. Q (f g)) r"
  by (cases r) (auto simp: run_ends_def)

lemma check_lines_ends:
  assumes "filters_signed g"
  shows "run_ends lint_exn filters_signed (check_lines e fn ext lines g)"
  unfolding check_lines_def
  by (rule run_ends_bind [OF ProcessFileData_ends [OF assms]], erule run_acts_ends(2), rule acts_of_wf(3)) simp

lemma ProcessFile_ends:
  "filters_signed g \<Longrightarrow> run_ends lint_exn filters_signed (ProcessFile e fn v g)"
  by (simp add: ProcessFile_def Let_def check_lines_ends split: option.split)

lemma process_files_ends:
  "filters_signed g \<Longrightarrow> run_ends lint_exn filters_signed (process_files e fns g)"
proof (induction e fns g rule: process_files.induct)
  case (2 e fn fns g)
  have "run_ends lint_exn filters_signed (ProcessFile e fn (VerboseLevel g) g)"
    by (rule ProcessFile_ends [OF "2.prems"])
  then show ?case
    using "2.IH" by (auto simp: run_ends_def split: sum.splits)
qed simp

lemma SetFilters_signed:
  "SetFilters flag st = Inr st' \<Longrightarrow> list_all signed_filter (filters st')"
  "SetFilters flag st = Inl (x, st') \<Longrightarrow> expected_exn x"
  by (auto simp: SetFilters_def Let_def list_all_iff filter_empty_conv split: list.splits)

lemma ParseArguments_ends:
  "ParseArguments args g = Inl (x, g') \<Longrightarrow> expected_exn x \<or> (\<exists>a. x = SystemExit a)"
  "ParseArguments args g = Inr (files, g') \<Longrightarrow> filters_signed g'"
proof -
  have apply_option: "\<exists>x g'. r = (x, g') \<and> (expected_exn x \<or> (\<exists>a. x = SystemExit a))"
    if "apply_option flag val s g = Inl r" for flag val s r and g :: module_state
    using that by (auto simp: apply_option_def PrintUsage_def PrintCategories_def split: if_splits option.splits)
  have apply_options: "\<exists>x g'. r = (x, g') \<and> (expected_exn x \<or> (\<exists>a. x = SystemExit a))"
    if "apply_options opts s g = Inl r" for opts s r and g :: module_state
    using that by (induction opts s g rule: apply_options.induct) (auto split: sum.splits dest: apply_option)
  show "expected_exn x \<or> (\<exists>a. x = SystemExit a)" if "ParseArguments args g = Inl (x, g')"
    using that apply_options SetFilters_signed(2)
    by (fastforce simp: ParseArguments_def PrintUsage_def install_settings_def set_filters_def
        split: option.splits sum.splits if_splits prod.splits)
  show "filters_signed g'" if "ParseArguments args g = Inr (files, g')"
    using that SetFilters_signed(1)
    by (fastforce simp: ParseArguments_def install_settings_def set_filters_def filters_signed_def
        set_quiet_def SetQuiet_def set_counting_style_def SetCountingStyle_def
        split: option.splits sum.splits if_splits prod.splits)
qed

lemma start_signed: "filters_signed start_state"
  by (simp add: filters_signed_def start_state_def init_lint_state_def DEFAULT_FILTERS_def signed_filter_def)

end
