(* ===== verification/RunFacts.thy ===== *)
theory RunFacts
  imports DriverFacts
begin

text \<open>
  What a run keeps from file to file, as an interface that several invariants implement: the
  categories switched off, the errors counted in quiet mode. Then what one line's NOLINT comment
  does to all the checks of the line, and the last newline of a file.
\<close>

subsection \<open>What a run keeps\<close>

locale run_invariant =
  fixes inv :: "module_state \<Rightarrow> bool"
  assumes act_inv: "inv g \<Longrightarrow> lint_act a \<Longrightarrow> run_act e a g = Inr g' \<Longrightarrow> inv g'"
    and reset_inv: "inv g \<Longrightarrow> inv (ResetNolintSuppressions g)"
    and tell_inv: "inv g \<Longrightarrow> inv (tell text g)"
    and verbose_inv: "inv g \<Longrightarrow> inv (set_verbose_level v g)"

sublocale run_invariant \<subseteq> acting: action_invariant "run_act e" inv lint_act for e
  by unfold_locales (rule act_inv)

context run_invariant
begin

lemma acts_inv: "inv g \<Longrightarrow> list_all lint_act as \<Longrightarrow> inv (final_state (run_acts e as g))"
  unfolding run_acts_def by (rule acting.run_inv)

lemma bind_inv:
  "inv (final_state r) \<Longrightarrow> (\<And>g. r = Inr g \<Longrightarrow> inv g \<Longrightarrow> inv (final_state (f g))) \<Longrightarrow>
   inv (final_state (case r of Inl r \<Rightarrow> Inl r | Inr g \<Rightarrow> f g))"
  by (cases r) auto

lemma data_inv: "inv g \<Longrightarrow> inv (final_state (ProcessFileData e fn ext lines g))"
  unfolding ProcessFileData_def ParseGlobalNolintSuppressions_def
  by (rule bind_inv, erule acts_inv, rule lint_acts_of(2) [OF global_acts],
      rule acts_inv, erule reset_inv, rule lint_acts_of(1) [OF check_file_acts])

lemma lines_inv: "inv g \<Longrightarrow> inv (final_state (check_lines e fn ext lines g))"
  unfolding check_lines_def
  by (rule bind_inv [OF data_inv], assumption, erule acts_inv, rule acts_of_wf(3)) simp

lemma map_inv: "inv (final_state r) \<Longrightarrow> inv (final_state (map_sum id (tell text) r))"
  by (cases r) (auto intro: tell_inv)

lemma file_inv: "inv g \<Longrightarrow> inv (final_state (ProcessFile e fn v g))"
  by (auto simp: ProcessFile_def Let_def split: option.split intro!: map_inv tell_inv lines_inv verbose_inv)

lemma files_inv: "inv g \<Longrightarrow> inv (final_state (process_files e fns g))"
proof (induction e fns g rule: process_files.induct)
  case (2 e fn fns g)
  then show ?case by (auto intro: bind_inv file_inv)
qed simp

end

subsection \<open>Categories switched off stay off\<close>

definition category_off :: "string \<Rightarrow> module_state \<Rightarrow> bool" where
  "category_off c g \<longleftrightarrow> filtered_out (filters (lint g)) c"

lemma Error_filters: "Error e fn l cat conf msg g = Inr g' \<Longrightarrow> filters (lint g') = filters (lint g)"
  by (auto simp: Error_def split: sum.splits bool.splits)

lemma category_off_simps [simp]:
  "category_off c (ResetNolintSuppressions g) = category_off c g"
  "category_off c (tell text g) = category_off c g"
  "category_off c (set_verbose_level v g) = category_off c g"
  by (simp_all add: category_off_def ResetNolintSuppressions_def tell_def print_err_def
      set_verbose_level_def SetVerboseLevel_def)

interpretation off: run_invariant "category_off c" for c
proof
  fix g :: module_state and a e g'
  assume "category_off c g" "lint_act a" "run_act e a g = Inr g'"
  then show "category_off c g'"
    by (cases a) (auto simp: category_off_def lint_act_def check_act_def global_act_def add_suppression_def
        filtered_out_snoc dest: Error_filters)
qed simp_all

subsection \<open>Quiet runs\<close>

text \<open>Quiet, without counts by category, everything printed since \<open>g0\<close> is a counted error.\<close>

definition quiet_since :: "module_state \<Rightarrow> module_state \<Rightarrow> bool" where
  "quiet_since g0 g \<longleftrightarrow> quiet (lint g) \<and> counting (lint g) \<notin> {''toplevel'', ''detailed''} \<and>
     errors_by_category (lint g) = [] \<and> (\<exists>printed. stderr g = stderr g0 @ printed \<and>
       error_count (lint g) = length printed)"

interpretation silent: run_invariant "quiet_since g0" for g0
proof
  fix g :: module_state and a e g'
  assume "quiet_since g0 g" "lint_act a" "run_act e a g = Inr g'"
  then show "quiet_since g0 g'"
    by (cases a) (auto simp: quiet_since_def Error_def add_suppression_def IncrementErrorCount_def Let_def
        split: sum.splits bool.splits)
qed (auto simp: quiet_since_def ResetNolintSuppressions_def tell_def Quiet_def set_verbose_level_def SetVerboseLevel_def)

lemma ParseArguments_prints: "ParseArguments args g = Inr (files, g') \<Longrightarrow> stderr g' = stderr g"
  by (fastforce simp: ParseArguments_def install_settings_def set_filters_def set_quiet_def
      set_counting_style_def set_verbose_level_def set_output_format_def
      split: option.splits sum.splits if_splits prod.splits)

subsection \<open>Comments for a whole file\<close>

lemma global_no_raise: "list_all (\<lambda>a. \<forall>x. a \<noteq> Raise x) (global_nolint_go fn n lines)"
  by (induction fn n lines rule: global_nolint_go.induct) (auto split: option.split)

lemma run_global_act:
  assumes "filters_signed g" "global_act a" "\<forall>x. a \<noteq> Raise x"
  shows "\<exists>g'. run_act e a g = Inr g' \<and> filters_signed g' \<and> (a = AddFilter (''-'' @ c) \<longrightarrow> category_off c g')"
proof -
  have "\<exists>g'. run_act e a g = Inr g'"
    using assms by (cases a) (auto simp: Error_def ShouldPrintError_spec split: bool.split)
  with assms show ?thesis
    using signed_filters.exec_inv [of g a e] by (auto simp: category_off_def filtered_out_snoc)
qed

lemma category_off_added:
  "filters_signed g \<Longrightarrow> list_all global_act as \<Longrightarrow> list_all (\<lambda>a. \<forall>x. a \<noteq> Raise x) as \<Longrightarrow>
   AddFilter (''-'' @ c) \<in> set as \<Longrightarrow> \<exists>g'. run_acts e as g = Inr g' \<and> category_off c g'"
proof (induction as arbitrary: g)
  case (Cons a as)
  then obtain g1 where g1: "run_act e a g = Inr g1" "filters_signed g1" "a = AddFilter (''-'' @ c) \<longrightarrow> category_off c g1"
    using run_global_act [of g a e c] by auto
  have "\<exists>g'. run_acts e as g1 = Inr g'" if "list_all global_act as" "list_all (\<lambda>a. \<forall>x. a \<noteq> Raise x) as"
    using that g1(2) 
  proof (induction as arbitrary: g1)
    case (Cons b bs)
    then show ?case using run_global_act [of g1 b e c] by (auto simp: run_acts_def)
  qed (simp add: run_acts_def)
  then obtain g2 where g2: "run_acts e as g1 = Inr g2" using Cons.prems by auto
  show ?case
  proof (cases "a = AddFilter (''-'' @ c)")
    case True
    with g1(3) have "category_off c (final_state (run_acts e as g1))"
      using Cons.prems by (intro off.acts_inv lint_acts_of(2)) auto
    with g1(1) g2 show ?thesis by (simp add: run_acts_def)
  next
    case False
    with Cons g1 show ?thesis by (auto simp: run_acts_def)
  qed
qed simp

subsection \<open>Comments for a line\<close>

text \<open>Running actions that are suppressed makes no difference.\<close>

definition covered_error :: "(string \<Rightarrow> int \<Rightarrow> bool) \<Rightarrow> act \<Rightarrow> bool" where
  "covered_error C a = (case a of Err fn n c conf msg \<Rightarrow> C c n | _ \<Rightarrow> False)"

definition suppresses :: "(string \<Rightarrow> int \<Rightarrow> bool) \<Rightarrow> module_state \<Rightarrow> bool" where
  "suppresses C g \<longleftrightarrow> (\<forall>c n. C c n \<longrightarrow> IsErrorSuppressedByNolint g c n)"

lemma still_suppressed:
  "IsErrorSuppressedByNolint g c n \<Longrightarrow> run_act e a g = Inr g' \<Longrightarrow> IsErrorSuppressedByNolint g' c n"
  by (cases a) (simp add: IsErrorSuppressedByNolint_def Error_keeps_suppressions, fastforce,
    auto simp: IsErrorSuppressedByNolint_def)

interpretation suppressed: action_invariant "run_act e" "suppresses C" "\<lambda>_. True" for e C
  by unfold_locales (auto simp: suppresses_def intro: still_suppressed)

lemma run_covered: "suppresses C g \<Longrightarrow> covered_error C a \<Longrightarrow> run_act e a g = Inr g"
  by (cases a) (auto simp: covered_error_def suppresses_def Error_def ShouldPrintError_def)

lemma run_without_covered:
  "suppresses C g \<Longrightarrow> run_acts e (filter (\<lambda>a. \<not> covered_error C a) as) g = run_acts e as g"
proof (induction as arbitrary: g)
  case (Cons a as)
  show ?case
  proof (cases "covered_error C a")
    case True
    with Cons show ?thesis by (simp add: run_acts_def run_covered)
  next
    case False
    have "suppresses C g'" if "run_act e a g = Inr g'" for g'
      using suppressed.exec_inv [OF Cons.prems _ that] by simp
    with False Cons show ?thesis by (simp add: run_acts_def split: sum.split)
  qed
qed simp

text \<open>What the NOLINT comment of a line covers.\<close>

definition line_covers :: "cleansed_lines \<Rightarrow> nat \<Rightarrow> string \<Rightarrow> int \<Rightarrow> bool" where
  "line_covers clean n = nolint_covers (raw_lines clean ! n) (int n)"

lemma nolint_reports_uncovered:
  "Err f l c conf msg \<in> set (ParseNolintSuppressions fn raw n) \<Longrightarrow> \<not> nolint_covers raw n k m"
proof -
  assume err: "Err f l c conf msg \<in> set (ParseNolintSuppressions fn raw n)"
  then obtain mt where mt: "Search RE_SUPPRESSION raw = Some mt"
    by (cases "Search RE_SUPPRESSION raw") (simp_all add: ParseNolintSuppressions_def)
  with err obtain cat where cat: "group mt 1 = Some cat"
    by (cases "group mt 1") (simp_all add: ParseNolintSuppressions_def Let_def)
  with err mt have "cat \<noteq> ''(*)''" "\<not> known_category (strip_ends cat)"
    by (auto simp: ParseNolintSuppressions_def Let_def split: if_splits)
  then show ?thesis using mt cat by (auto simp: nolint_covers_def)
qed

lemma ProcessLine_nolint_first:
  "\<exists>later. fst (ProcessLine e v fn ext clean n st) =
     ParseNolintSuppressions fn (raw_lines clean ! n) (int n) @ later"
  by (auto simp: ProcessLine_def split_def Let_def)

text \<open>C2: the NOLINT comment of a line silences every check of the line for what it covers: taking the covered errors out of everything the checks of the line report leaves the run as it is, its output, its counts and its exceptions.\<close>

theorem NOLINT_covers_all_checks:
  assumes "filters_signed g"
  shows "run_acts e (filter (\<lambda>a. \<not> covered_error (line_covers clean n) a) (fst (ProcessLine e v fn ext clean n st))) g =
    run_acts e (fst (ProcessLine e v fn ext clean n st)) g"
proof -
  let ?nolint = "ParseNolintSuppressions fn (raw_lines clean ! n) (int n)"
  let ?keep = "filter (\<lambda>a. \<not> covered_error (line_covers clean n) a)"
  obtain later where acts: "fst (ProcessLine e v fn ext clean n st) = ?nolint @ later"
    using ProcessLine_nolint_first by blast
  have "\<not> covered_error (line_covers clean n) a" if "a \<in> set ?nolint" for a
  proof (cases a)
    case (Err f l c conf msg)
    with that nolint_reports_uncovered show ?thesis by (auto simp: covered_error_def line_covers_def)
  qed (simp_all add: covered_error_def)
  then have same: "?keep ?nolint = ?nolint" by simp
  have "suppresses (line_covers clean n) g1" if "run_acts e ?nolint g = Inr g1" for g1
    using nolint_exact [OF assms, of e fn "raw_lines clean ! n" "int n"] that
    by (simp add: suppresses_def line_covers_def)
  then show ?thesis
    using run_without_covered by (simp add: acts same) (simp add: run_acts_def run_list_append split: sum.split)
qed

lemma NOLINT_covers_all_checks_witness:
  "\<forall>e clean. run_acts e (filter (\<lambda>a. \<not> covered_error (line_covers clean 1) a)
       (fst (ProcessLine e 1 ''a.cc'' ''cc'' clean 1 start_checkers))) start_state =
     run_acts e (fst (ProcessLine e 1 ''a.cc'' ''cc'' clean 1 start_checkers)) start_state"
  by (intro allI NOLINT_covers_all_checks start_signed)

subsection \<open>The last newline\<close>

lemma FindEnd_ends:
  "FindNextMultiLineCommentEnd lines k < length lines \<Longrightarrow>
   endswith (strip (lines ! FindNextMultiLineCommentEnd lines k)) ''*/''"
proof (induction lines k rule: FindNextMultiLineCommentEnd.induct)
  case (1 lines k)
  show ?case
    using 1 FindNextMultiLineCommentEnd.simps [of lines k] by (auto split: if_splits)
qed

lemma remove_comments_tail:
  assumes "\<forall>i. j \<le> i \<and> i < length lines \<longrightarrow> \<not> endswith (strip (lines ! i)) ''*/''" "j \<le> i" "i < length lines"
  shows "snd (remove_comments_from fn lines k) ! i = lines ! i"
  using assms
proof (induction fn lines k rule: remove_comments_from.induct)
  case (1 fn lines k)
  let ?b = "FindNextMultiLineCommentStart lines k"
  let ?e = "FindNextMultiLineCommentEnd lines ?b"
  let ?lines = "RemoveMultiLineCommentsFromRange lines ?b (?e + 1)"
  show ?case
  proof (cases "k < length lines \<and> ?b < length lines \<and> ?e < length lines")
    case True
    then have step: "remove_comments_from fn lines k = remove_comments_from fn ?lines (?e + 1)"
      by (subst remove_comments_from.simps) (simp add: Let_def)
    have "?e < j" using True FindEnd_ends [of lines ?b] "1.prems"(1) by (meson not_le)
    then have "?lines ! m = lines ! m" if "j \<le> m" "m < length lines" for m
      using that by (simp add: RemoveRange_nth)
    then show ?thesis
      using "1.IH" [of ?b ?e] True "1.prems" by (simp add: step)
  next
    case False
    then have "snd (remove_comments_from fn lines k) = lines"
      by (subst remove_comments_from.simps) (auto simp: Let_def)
    then show ?thesis by simp
  qed
qed

lemma kept_last_line:
  "snd (RemoveMultiLineComments fn (marked (ls @ [l]))) ! Suc (length ls) = [] \<longleftrightarrow> l = []"
proof -
  let ?m = "marked (ls @ [l])"
  have len: "Suc (length ls) < length ?m" and l: "?m ! Suc (length ls) = l"
    by (simp_all add: marked_def nth_append)
  show ?thesis
  proof (cases "l = []")
    case True
    have "\<not> endswith (strip (?m ! i)) ''*/''" if "Suc (length ls) \<le> i" "i < length ?m" for i
    proof -
      have "i = Suc (length ls) \<or> i = Suc (Suc (length ls))" using that by (auto simp: marked_def)
      then have "?m ! i = [] \<or> ?m ! i = ''// marker so line numbers end in a known way''"
        using True by (auto simp: marked_def nth_append)
      moreover have "\<not> endswith (strip []) ''*/''" "\<not> endswith (strip ''// marker so line numbers end in a known way'') ''*/''"
        by code_simp+
      ultimately show ?thesis by metis
    qed
    then show ?thesis
      using remove_comments_tail [of "Suc (length ls)" ?m "Suc (length ls)" fn 0] len l True
      by (simp add: RemoveMultiLineComments_def)
  next
    case False
    then show ?thesis
      using remove_comments_from_nth [of "Suc (length ls)" ?m fn 0] len l
      by (auto simp: RemoveMultiLineComments_def dummy_line_def)
  qed
qed

lemma last_split:
  "\<exists>p. rev acc @ t = p @ last (split_char_go sep acc t) \<and> (p = [] \<or> last p = sep) \<and>
     (sep \<notin> set acc \<longrightarrow> sep \<notin> set (last (split_char_go sep acc t)))"
proof (induction t arbitrary: acc)
  case (Cons c t)
  show ?case
  proof (cases "c = sep")
    case True
    obtain p where p: "t = p @ last (split_char_go sep [] t)" "p = [] \<or> last p = sep"
      "sep \<notin> set (last (split_char_go sep [] t))"
      using Cons.IH [of "[]"] by auto
    then show ?thesis
      using True by (intro exI [of _ "rev acc @ sep # p"]) auto
  next
    case False
    then show ?thesis using Cons.IH [of "c # acc"] by auto
  qed
qed simp

lemma strip_cr_rstrip: "strip_cr l = rstrip_by (\<lambda>c. c = CHR 0x0D) l"
  by (cases l rule: rev_cases) (auto simp: strip_cr_def rstrip_by_def endswith_def carriage_return_def)

lemma rstrip_by_append:
  "rstrip_by P (xs @ ys) = (if list_all P ys then rstrip_by P xs else xs @ rstrip_by P ys)"
  by (auto simp: rstrip_by_def dropWhile_append list_all_iff)

lemma rstrip_by_Nil_iff: "rstrip_by P xs = [] \<longleftrightarrow> list_all P xs"
  by (simp add: rstrip_by_def dropWhile_eq_Nil_conv list_all_iff)

text \<open>C3: the check of the last newline, on the lines that are left once the multi-line comments are cleared, decides what it says of the text of the file: it is silent exactly when the text, without the carriage returns at its end, is empty or ends in a newline; a comment cleared on the last lines does not disturb it.\<close>

theorem NewlineAtEOF_reads_text:
  "CheckForNewlineAtEOF fn (snd (RemoveMultiLineComments fn (marked (map strip_cr (split_char (CHR 0x0A) t))))) = [] \<longleftrightarrow>
   (let u = rstrip_by (\<lambda>c. c = CHR 0x0D) t in u = [] \<or> last u = CHR 0x0A)"
proof -
  let ?cr = "\<lambda>c. c = CHR 0x0D" and ?s = "split_char (CHR 0x0A) t"
  let ?l = "last ?s" and ?ls = "map strip_cr (butlast ?s)"
  have lines: "map strip_cr ?s = ?ls @ [strip_cr ?l]"
    by (metis append_butlast_last_id list.simps(8,9) map_append split_char_nonempty)
  let ?kept = "snd (RemoveMultiLineComments fn (marked (?ls @ [strip_cr ?l])))"
  have len: "length ?kept = length ?ls + 3"
    by (simp add: RemoveMultiLineComments_def marked_def)
  then have "CheckForNewlineAtEOF fn ?kept = [] \<longleftrightarrow> strip_cr ?l = []"
    using kept_last_line [of fn ?ls "strip_cr ?l"] by (simp add: CheckForNewlineAtEOF_def)
  also have "\<dots> \<longleftrightarrow> list_all ?cr ?l" by (simp add: strip_cr_rstrip rstrip_by_Nil_iff)
  finally have silent: "CheckForNewlineAtEOF fn ?kept = [] \<longleftrightarrow> list_all ?cr ?l" .
  obtain p where p: "t = p @ ?l" "p = [] \<or> last p = CHR 0x0A" "CHR 0x0A \<notin> set ?l"
    using last_split [of "[]" t "CHR 0x0A"] by (auto simp: split_char_def)
  show ?thesis
  proof (cases "list_all ?cr ?l")
    case True
    then have "rstrip_by ?cr t = rstrip_by ?cr p" by (subst p(1)) (simp add: rstrip_by_append)
    also have "\<dots> = p" using p(2) by (cases "rev p") (auto simp: rstrip_by_def)
    finally show ?thesis using silent True p(2) by (simp add: lines)
  next
    case False
    then have "rstrip_by ?cr t = p @ rstrip_by ?cr ?l" by (subst p(1)) (simp add: rstrip_by_append)
    moreover have "rstrip_by ?cr ?l \<noteq> []" using False by (simp add: rstrip_by_Nil_iff)
    moreover have "last (rstrip_by ?cr ?l) \<in> set ?l"
      using rstrip_by_prefix [of ?cr ?l] \<open>rstrip_by ?cr ?l \<noteq> []\<close> by (meson last_in_set set_mono_prefix subsetD)
    ultimately show ?thesis using silent False p(3) by (auto simp: lines)
  qed
qed

end
