(* ===== verification/Spec2Isabelle.thy ===== *)
theory Spec2Isabelle
  imports Patterns RunFacts
begin

text \<open>
  A model of \<open>src/common/tools/cpplint.py\<close>, the style checker for C++ that is the Python part of
  this repository, with the properties that make it correct.

  \<^bold>\<open>The program.\<close> \<open>main\<close> parses the command line into the state of the module, and for each file
  reads the lines in two encodings, switches off the categories named by \<open>GLOBAL_NOLINT\<close>
  comments, checks the file as a whole (copyright, header guard), clears multi-line comments,
  makes three views of every line (raw, without comments, without comments and strings) and runs
  \<open>ProcessLine\<close> on each line. That parses the line's NOLINT comment, updates the stack of open
  blocks, and calls the checks. An error goes to \<open>Error\<close>, which asks the suppressed lines, the
  verbosity and the filters whether to print and count it.

  \<^bold>\<open>How it is modelled.\<close> A check is a function from the file's name, its lines and a line number
  to the list of its \<open>act\<close>s in the order the code takes them: an error reported, a line
  suppressed, a filter added, an exception. Checks that keep a state (blocks, include scopes,
  function lengths) take it and return it. \<open>run_acts\<close> runs the actions on the state of the module
  (\<open>module_state\<close>: \<open>_cpplint_state\<close>, \<open>_error_suppressions\<close> and what was written to the standard
  error stream); an exception carries the state it was raised in, so that what was printed stays
  printed. A loop of the code that need not end is a \<open>partial_function\<close> whose \<open>None\<close> is the
  exception \<open>Diverges\<close>. The surroundings (operating system, working directory, the files that
  exist, their decoded texts, standard input, the year, the order of a dict) are fields of the
  record \<open>env\<close>, an argument of every definition that reads them; nothing is assumed of it but
  what a property names.

  \<^bold>\<open>The theories\<close>, each after those it uses:
  \<^item> \<open>Prelude\<close>: guarded lists, named collections, lemmas on lists. \<open>PyStr\<close>: the operations of
    Python strings and lists the source uses (\<open>find\<close>, \<open>split\<close>, \<open>strip\<close>, \<open>replace\<close>, slices, order).
  \<^item> \<open>Regex\<close>, \<open>RegexRun\<close>, \<open>ReParse\<close>: the module \<open>re\<close>. Patterns stand in the development as the
    strings they are in the source (a backquote for a backslash); \<open>re_compile\<close> parses them and a
    backtracking matcher in continuation style runs them. \<open>RegexFacts\<close>: the matcher finds the
    leftmost match of the pattern's relational meaning. \<open>RegexGroups\<close>, \<open>RegexWords\<close>: what the groups
    of a match hold, read off the pattern. \<open>Patterns\<close>: every constant pattern compiles.
  \<^item> \<open>Report\<close>: \<open>_CppLintState\<close>, \<open>Error\<close>, \<open>_ShouldPrintError\<close>, NOLINT; the interfaces
    \<open>action_invariant\<close> and \<open>safe_actions\<close> of the state, and well-formed actions.
  \<^item> \<open>Cleanse\<close>: multi-line comments, \<open>CleansedLines\<close>, \<open>CloseExpression\<close>.
  \<^item> \<open>Paths\<close>: \<open>FileInfo\<close>, \<open>os.path\<close>, repository roots, the guard's name.
  \<^item> \<open>Includes\<close>, \<open>IncludeCheck\<close>: \<open>_IncludeState\<close>, the order of headers, \<open>CheckIncludeLine\<close>,
    \<open>CheckForIncludeWhatYouUse\<close>.
  \<^item> \<open>FileChecks\<close>: the checks of whole files and the small line checks.
  \<^item> \<open>Nesting\<close>: \<open>_NestingState\<close>; \<open>BlockFacts\<close>: the invariant of its blocks.
  \<^item> \<open>Functions\<close>: \<open>_FunctionState\<close>, \<open>CheckForFunctionLengths\<close>, \<open>CheckComment\<close>.
  \<^item> \<open>Spacing\<close>, \<open>Style\<close>: \<open>CheckStyle\<close> and all it calls; \<open>StyleFacts\<close>: what it guarantees.
  \<^item> \<open>Language\<close>: \<open>CheckForNonStandardConstructs\<close> and \<open>CheckLanguage\<close>; \<open>LanguageFacts\<close>.
  \<^item> \<open>Options\<close>: \<open>ParseArguments\<close>, \<open>getopt\<close>, usage; \<open>OptionsFacts\<close>: what is parsed back.
  \<^item> \<open>Driver\<close>: \<open>ProcessLine\<close>, \<open>ProcessFileData\<close>, \<open>ProcessFile\<close>, \<open>main\<close>. \<open>DriverFacts\<close>: the loop over
    the lines as the interface \<open>line_step\<close>, the exceptions of a run. \<open>RunFacts\<close>: what a run keeps
    from file to file, as the interface \<open>run_invariant\<close>; NOLINT; the last newline.

  \<^bold>\<open>What is shown.\<close> Of the whole program: no failed assertion, missing attribute or missing key,
  whatever the input (\<open>main_no_internal_error\<close>), and no uncompilable pattern in a source file; the
  exit status of a quiet run; what crosses from one file to the next. Of the parts: an error is
  printed exactly when suppressions, verbosity and filters say so; the stack of blocks follows the
  braces and takes the first branch of every condition; the order of headers is accepted exactly
  when it is the documented one; a header is asked for only where it is used and nowhere included;
  brackets are matched; \<open>CHECK\<close> macros are replaced by ones of the same meaning; options are
  parsed back as written; loops end, or the exact inputs on which they do not. The places where
  the code does not do what it means to are theorems too.

  \<^bold>\<open>Bounds.\<close> The matcher recurses on the pattern and the text, without fuel: a repetition that
  consumes nothing stops, as in \<open>sre\<close>. All other loops are structural or come with a measure.
  Integers are unbounded, as in Python. The length of a function is compared with
  \<open>base * 2 ** verbosity\<close> exactly, also below zero, and levels stop at 5, where the floating-point
  logarithm of the code is exact.

  \<^bold>\<open>Not modelled.\<close> Characters are code points below 256, so the width of wide characters and the
  replacement character never arise on lines (its check is modelled on code points). Decoding
  (\<open>utf-8-sig\<close>, \<open>gbk\<close>) is that of the standard library: the two texts of a file are given.
  \<open>os.path\<close> is that of POSIX. \<open>extra_check_functions\<close> is the empty list, its default, which no
  caller in the repository changes. The C++ of the repository (\<open>src/redis\<close>) and the vendored
  libraries (\<open>src/thirdparty\<close>) are not Python and are left out.
\<close>

subsection \<open>A whole run\<close>

text \<open>C1: whatever the command line, the files and the surroundings, a run never ends in a failed assertion, a missing attribute of a match or a missing key of a table.\<close>

theorem main_no_internal_error: "fst (main e args g) \<notin> {AssertionError, AttributeError, KeyError}"
proof (cases "ParseArguments args g")
  case (Inl r)
  with ParseArguments_ends(1) [of args g] show ?thesis
    by (cases r) (auto simp: main_def)
next
  case (Inr r)
  obtain files g1 where r: "r = (files, g1)" by (cases r)
  let ?g = "g1\<lparr>lint := ResetErrorCounts (lint g1)\<rparr>"
  have "filters_signed ?g"
    using ParseArguments_ends(2) [of args g] Inr r by (simp add: filters_signed_def ResetErrorCounts_def)
  then have "run_ends lint_exn filters_signed (process_files e files ?g)" by (rule process_files_ends)
  then show ?thesis
    by (auto simp: main_def Inr r Let_def run_ends_def lint_exn_def split: sum.splits)
qed



subsection \<open>A file, and the files after it\<close>



text \<open>C29: a \<open>GLOBAL_NOLINT\<close> comment that takes effect in a file switches its category off for every file of the run that follows: nothing takes the filter back.\<close>

theorem GLOBAL_NOLINT_outlives_file:
  assumes "filters_signed g"
    and "AddFilter (''-'' @ c) \<in> set (ParseGlobalNolintSuppressions fn (marked lines))"
  shows "category_off c (final_state (process_files e' fns (final_state (ProcessFileData e fn ext lines g))))"
proof -
  obtain g1 where "run_acts e (ParseGlobalNolintSuppressions fn (marked lines)) g = Inr g1" "category_off c g1"
    using category_off_added [OF assms(1) _ _ assms(2), of e] global_acts global_no_raise
    unfolding ParseGlobalNolintSuppressions_def by blast
  then have "category_off c (final_state (ProcessFileData e fn ext lines g))"
    using off.acts_inv [OF _ lint_acts_of(1) [OF check_file_acts]] by (simp add: ProcessFileData_def)
  then show ?thesis by (rule off.files_inv)
qed

lemma GLOBAL_NOLINT_outlives_file_witness:
  "\<forall>e e' fns. category_off ''runtime/int'' (final_state (process_files e' fns (final_state
     (ProcessFileData e ''a.cc'' ''cc'' [''// GLOBAL_NOLINT(runtime/int)'', ''int x;''] start_state))))"
  by (intro allI GLOBAL_NOLINT_outlives_file start_signed) code_simp

text \<open>C30: the errors a file is given do not depend on the NOLINT comments of the files before it, unless a comment for the whole file names a category that is not known: that error is reported before the suppressed lines are cleared.\<close>

theorem ProcessFileData_forgets_nolint:
  assumes "list_all (\<lambda>a. \<exists>f. a = AddFilter f) (ParseGlobalNolintSuppressions fn (marked lines))"
  shows "ProcessFileData e fn ext lines (g\<lparr>error_suppressions := m\<rparr>) = ProcessFileData e fn ext lines g"
proof -
  have swap: "g\<lparr>error_suppressions := m, lint := l\<rparr> = g\<lparr>lint := l, error_suppressions := m\<rparr>" for g l
    by simp
  have "\<exists>g'. run_acts e as g = Inr g' \<and> run_acts e as (g\<lparr>error_suppressions := m\<rparr>) = Inr (g'\<lparr>error_suppressions := m\<rparr>)"
    if "list_all (\<lambda>a. \<exists>f. a = AddFilter f) as" for as g
    using that
  proof (induction as arbitrary: g)
    case (Cons a as)
    then obtain f where a: "a = AddFilter f" by auto
    show ?case
      using Cons.IH [of "g\<lparr>lint := (lint g)\<lparr>filters := filters (lint g) @ [f]\<rparr>\<rparr>"] Cons.prems
      by (simp add: a run_acts_def swap)
  qed (simp add: run_acts_def)
  from this [OF assms, of g] show ?thesis
    by (auto simp: ProcessFileData_def ResetNolintSuppressions_def VerboseLevel_def)
qed

lemma ProcessFileData_forgets_nolint_witness:
  "\<forall>e m. ProcessFileData e ''a.cc'' ''cc'' [''// GLOBAL_NOLINT(runtime/int)'', ''int x;''] (start_state\<lparr>error_suppressions := m\<rparr>) =
     ProcessFileData e ''a.cc'' ''cc'' [''// GLOBAL_NOLINT(runtime/int)'', ''int x;''] start_state"
proof (intro allI ProcessFileData_forgets_nolint)
  have "ParseGlobalNolintSuppressions ''a.cc'' (marked [''// GLOBAL_NOLINT(runtime/int)'', ''int x;'']) =
      [AddFilter ''-runtime/int'']"
    by code_simp
  then show "list_all (\<lambda>a. \<exists>f. a = AddFilter f)
      (ParseGlobalNolintSuppressions ''a.cc'' (marked [''// GLOBAL_NOLINT(runtime/int)'', ''int x;'']))"
    by simp
qed

end
